(* ===== verification/Prelude.thy ===== *)
theory Prelude
  imports Main "HOL-Library.Word"
begin

text \<open>
  Shared vocabulary of the development: Go's 64-bit signed integers and durations, results
  that carry an error, and SQL tables as lists of rows with the lemmas about them that the
  store components share.

  \<^item> Times and durations are nanoseconds, as in Go's \<^verbatim>\<open>time\<close> package; the time 0
    is Go's zero time, so \<open>IsZero\<close> is \<open>t = 0\<close>.
  \<^item> \<open>wrap64\<close> is the wrap-around of Go's \<^verbatim>\<open>int64\<close> (and 64-bit \<^verbatim>\<open>int\<close>) arithmetic.
  \<^item> A fallible operation returns \<open>'e + 'a\<close>, the error on the left.
  \<^item> A table is the list of its rows; \<open>update_where\<close>, \<open>delete_where\<close>,
    \<open>rows_affected\<close>, \<open>sum_where\<close> and \<open>count_where\<close> are the SQL statements over it.
\<close>

named_theorems table_simps \<open>rewriting of statements over tables\<close>

section \<open>Go integers, times and durations\<close>

type_synonym time = int
type_synonym duration = int

abbreviation time_Millisecond :: duration where "time_Millisecond \<equiv> 1000000"
abbreviation time_Second :: duration where "time_Second \<equiv> 1000000000"
abbreviation time_Minute :: duration where "time_Minute \<equiv> 60000000000"
abbreviation time_Hour :: duration where "time_Hour \<equiv> 3600000000000"

definition is_int64 :: "int \<Rightarrow> bool" where
  "is_int64 x \<longleftrightarrow> - (2 ^ 63) \<le> x \<and> x < 2 ^ 63"

definition wrap64 :: "int \<Rightarrow> int" where
  "wrap64 x = (x + 2 ^ 63) mod 2 ^ 64 - 2 ^ 63"

lemma wrap64_id [simp]: "is_int64 x \<Longrightarrow> wrap64 x = x"
  by (simp add: is_int64_def wrap64_def)

lemma is_int64_wrap64 [simp]: "is_int64 (wrap64 x)"
  unfolding is_int64_def wrap64_def by simp

text \<open>Go's integer division truncates towards zero.\<close>

definition go_div :: "int \<Rightarrow> int \<Rightarrow> int" where
  "go_div a b = sgn a * sgn b * (\<bar>a\<bar> div \<bar>b\<bar>)"

lemma go_div_nonneg [simp]: "0 \<le> a \<Longrightarrow> 0 < b \<Longrightarrow> go_div a b = a div b"
  by (cases "a = 0") (auto simp: go_div_def)

text \<open>\<^verbatim>\<open>Duration.Milliseconds\<close> and \<^verbatim>\<open>Time.Truncate\<close>.\<close>

definition Milliseconds :: "duration \<Rightarrow> int" where
  "Milliseconds d = go_div d time_Millisecond"

definition Truncate :: "time \<Rightarrow> duration \<Rightarrow> time" where
  "Truncate t d = (if d \<le> 0 then t else t - t mod d)"

lemma Truncate_le: "Truncate t d \<le> t"
  by (simp add: Truncate_def)

lemma Truncate_gt: "0 < d \<Longrightarrow> t - d < Truncate t d"
  by (simp add: Truncate_def)

lemma Truncate_mono: "s \<le> t \<Longrightarrow> Truncate s d \<le> Truncate t d"
proof (cases "d \<le> 0")
  case False
  assume "s \<le> t"
  with False have "d * (s div d) \<le> d * (t div d)"
    by (simp add: zdiv_mono1)
  with False show ?thesis
    by (simp add: Truncate_def minus_mod_eq_mult_div)
qed (simp add: Truncate_def)

section \<open>Results\<close>

text \<open>Running the next step of a computation unless an earlier one failed.\<close>

definition and_then :: "'e + 'a \<Rightarrow> ('a \<Rightarrow> 'e + 'b) \<Rightarrow> 'e + 'b" where
  "and_then r f = (case r of Inl e \<Rightarrow> Inl e | Inr x \<Rightarrow> f x)"

lemma and_then_simps [simp]:
  "and_then (Inl e) f = Inl e" "and_then (Inr x) f = f x"
  by (simp_all add: and_then_def)

lemma and_then_Inr: "and_then r f = Inr y \<longleftrightarrow> (\<exists>x. r = Inr x \<and> f x = Inr y)"
  by (cases r) auto

section \<open>Tables\<close>

definition update_where :: "('r \<Rightarrow> bool) \<Rightarrow> ('r \<Rightarrow> 'r) \<Rightarrow> 'r list \<Rightarrow> 'r list" where
  "update_where P f t = map (\<lambda>r. if P r then f r else r) t"

definition delete_where :: "('r \<Rightarrow> bool) \<Rightarrow> 'r list \<Rightarrow> 'r list" where
  "delete_where P t = filter (\<lambda>r. \<not> P r) t"

definition rows_affected :: "('r \<Rightarrow> bool) \<Rightarrow> 'r list \<Rightarrow> nat" where
  "rows_affected P t = length (filter P t)"

definition sum_where :: "('r \<Rightarrow> bool) \<Rightarrow> ('r \<Rightarrow> int) \<Rightarrow> 'r list \<Rightarrow> int" where
  "sum_where P v t = sum_list (map v (filter P t))"

definition count_where :: "('r \<Rightarrow> bool) \<Rightarrow> 'r list \<Rightarrow> int" where
  "count_where P t = int (length (filter P t))"

lemma update_where_Nil [simp]: "update_where P f [] = []"
  by (simp add: update_where_def)

lemma update_where_Cons [simp]:
  "update_where P f (r # t) = (if P r then f r else r) # update_where P f t"
  by (simp add: update_where_def)

lemma update_where_append [simp]:
  "update_where P f (t @ u) = update_where P f t @ update_where P f u"
  by (simp add: update_where_def)

lemma length_update_where [simp]: "length (update_where P f t) = length t"
  by (simp add: update_where_def)

lemma set_update_where:
  "set (update_where P f t) = {r \<in> set t. \<not> P r} \<union> f ` {r \<in> set t. P r}"
  by (auto simp: update_where_def)

lemma in_update_where:
  "x \<in> set (update_where P f t) \<longleftrightarrow> (\<exists>r \<in> set t. x = (if P r then f r else r))"
  by (auto simp: update_where_def)

lemma map_update_where_key:
  "(\<And>r. key (f r) = key r) \<Longrightarrow> map key (update_where P f t) = map key t"
  by (simp add: update_where_def)

lemma update_where_unaffected:
  "(\<And>r. r \<in> set t \<Longrightarrow> \<not> P r) \<Longrightarrow> update_where P f t = t"
  by (induction t) auto

lemma update_where_cong:
  "(\<And>r. r \<in> set t \<Longrightarrow> P r = Q r) \<Longrightarrow> (\<And>r. r \<in> set t \<Longrightarrow> Q r \<Longrightarrow> f r = g r) \<Longrightarrow>
     update_where P f t = update_where Q g t"
  by (induction t) auto

lemma set_delete_where [simp]: "set (delete_where P t) = {r \<in> set t. \<not> P r}"
  by (auto simp: delete_where_def)

lemma delete_where_unaffected:
  "(\<And>r. r \<in> set t \<Longrightarrow> \<not> P r) \<Longrightarrow> delete_where P t = t"
  by (induction t) (auto simp: delete_where_def)

lemma distinct_map_delete_where: "distinct (map key t) \<Longrightarrow> distinct (map key (delete_where P t))"
  by (simp add: delete_where_def distinct_map_filter)

lemma rows_affected_0: "rows_affected P t = 0 \<longleftrightarrow> (\<forall>r \<in> set t. \<not> P r)"
  by (auto simp: rows_affected_def filter_empty_conv)

subsection \<open>A unique key\<close>

lemma filter_unique_key:
  assumes "distinct (map key t)" "r \<in> set t" "P r" "\<And>x. P x \<Longrightarrow> key x = key r"
  shows "filter P t = [r]"
  using assms
proof (induction t)
  case (Cons a t)
  show ?case
  proof (cases "a = r")
    case True
    with Cons.prems(1) have "key x \<noteq> key r" if "x \<in> set t" for x
      using that by (auto simp: image_iff)
    with Cons.prems(4) have "\<not> P x" if "x \<in> set t" for x
      using that by blast
    with True Cons.prems(3) show ?thesis by (auto simp: filter_empty_conv)
  next
    case False
    with Cons.prems(2) have r: "r \<in> set t" by simp
    with Cons.prems(1) have "key a \<noteq> key r" by auto
    with Cons.prems(4) have "\<not> P a" by blast
    moreover have "filter P t = [r]"
      by (rule Cons.IH [OF _ r Cons.prems(3,4)]) (use Cons.prems(1) in auto)
    ultimately show ?thesis by simp
  qed
qed simp

lemma rows_affected_le_1:
  assumes "distinct (map key t)" "\<And>x y. P x \<Longrightarrow> P y \<Longrightarrow> key x = key y"
  shows "rows_affected P t \<le> 1"
proof (cases "\<exists>r \<in> set t. P r")
  case True
  then obtain r where r: "r \<in> set t" "P r" by auto
  have "filter P t = [r]"
    by (rule filter_unique_key [where key = key and P = P, OF assms(1) r]) (rule assms(2) [OF _ r(2)])
  then show ?thesis by (simp add: rows_affected_def)
qed (simp add: rows_affected_def filter_empty_conv)

lemma rows_affected_1_iff:
  assumes "distinct (map key t)" "\<And>x y. P x \<Longrightarrow> P y \<Longrightarrow> key x = key y"
  shows "rows_affected P t = 1 \<longleftrightarrow> (\<exists>r \<in> set t. P r)"
proof -
  have "rows_affected P t \<le> 1" by (rule rows_affected_le_1 [OF assms])
  then have "rows_affected P t = 1 \<longleftrightarrow> rows_affected P t \<noteq> 0" by linarith
  then show ?thesis by (simp add: rows_affected_0)
qed

lemma find_unique_key:
  assumes "distinct (map key t)" "r \<in> set t"
  shows "find (\<lambda>x. key x = key r) t = Some r"
  using assms
proof (induction t)
  case (Cons a t)
  then show ?case by (cases "a = r") (auto simp: image_iff)
qed simp

lemma find_append: "find P (xs @ ys) = (case find P xs of None \<Rightarrow> find P ys | Some x \<Rightarrow> Some x)"
  by (induction xs) auto

lemma find_SomeD: "find P t = Some r \<Longrightarrow> r \<in> set t \<and> P r"
  by (auto simp: find_Some_iff)

lemma same_key_same_row:
  "distinct (map key t) \<Longrightarrow> x \<in> set t \<Longrightarrow> y \<in> set t \<Longrightarrow> key x = key y \<Longrightarrow> x = y"
  by (auto simp: distinct_map inj_on_def)

subsection \<open>Sums and counts\<close>

lemma sum_where_Nil [simp]: "sum_where P v [] = 0"
  by (simp add: sum_where_def)

lemma sum_where_Cons [simp]:
  "sum_where P v (r # t) = (if P r then v r else 0) + sum_where P v t"
  by (simp add: sum_where_def)

lemma sum_where_append [simp]:
  "sum_where P v (t @ u) = sum_where P v t + sum_where P v u"
  by (simp add: sum_where_def)

lemma count_where_sum: "count_where P t = sum_where P (\<lambda>_. 1) t"
  by (induction t) (auto simp: count_where_def)

lemma count_where_simps [simp]:
  "count_where P [] = 0"
  "count_where P (r # t) = (if P r then 1 else 0) + count_where P t"
  "count_where P (t @ u) = count_where P t + count_where P u"
  by (simp_all add: count_where_def)

lemma sum_where_nonneg:
  "(\<And>r. r \<in> set t \<Longrightarrow> P r \<Longrightarrow> 0 \<le> v r) \<Longrightarrow> 0 \<le> sum_where P v t"
  by (induction t) auto

lemma count_where_nonneg [simp]: "0 \<le> count_where P t"
  by (simp add: count_where_def)

lemma sum_where_member:
  assumes "r \<in> set t" "P r" "\<And>x. x \<in> set t \<Longrightarrow> P x \<Longrightarrow> 0 \<le> v x"
  shows "v r \<le> sum_where P v t"
  using assms
proof (induction t)
  case (Cons a t)
  have nn: "0 \<le> sum_where P v t" using Cons.prems by (intro sum_where_nonneg) simp
  show ?case
  proof (cases "r = a")
    case True
    with nn Cons.prems(2) show ?thesis by simp
  next
    case False
    with Cons have "v r \<le> sum_where P v t" by simp
    then show ?thesis using Cons.prems(3) [of a] by (cases "P a") auto
  qed
qed simp

lemma sum_where_cong:
  "(\<And>r. r \<in> set t \<Longrightarrow> P r = Q r) \<Longrightarrow> (\<And>r. r \<in> set t \<Longrightarrow> Q r \<Longrightarrow> v r = w r) \<Longrightarrow>
     sum_where P v t = sum_where Q w t"
  by (induction t) auto

lemma sum_where_update_key:
  assumes "distinct (map key t)" "r \<in> set t"
  shows "sum_where P v (update_where (\<lambda>x. key x = key r) g t)
       = sum_where P v t - (if P r then v r else 0) + (if P (g r) then v (g r) else 0)"
  using assms
proof (induction t)
  case (Cons a t)
  show ?case
  proof (cases "a = r")
    case True
    with Cons.prems have "key x \<noteq> key r" if "x \<in> set t" for x
      using that by (auto simp: image_iff)
    then have "update_where (\<lambda>x. key x = key r) g t = t" by (rule update_where_unaffected)
    with True show ?thesis by simp
  next
    case False
    with Cons.prems have "r \<in> set t" by simp
    moreover from this Cons.prems have "key a \<noteq> key r" by auto
    ultimately show ?thesis using Cons by simp
  qed
qed simp

lemma sum_where_delete_key:
  assumes "distinct (map key t)" "r \<in> set t"
  shows "sum_where P v (delete_where (\<lambda>x. key x = key r) t)
       = sum_where P v t - (if P r then v r else 0)"
  using assms
proof (induction t)
  case (Cons a t)
  show ?case
  proof (cases "a = r")
    case True
    with Cons.prems have "key x \<noteq> key r" if "x \<in> set t" for x
      using that by (auto simp: image_iff)
    then have "delete_where (\<lambda>x. key x = key r) t = t" by (rule delete_where_unaffected)
    with True show ?thesis by (simp add: delete_where_def)
  next
    case False
    with Cons.prems have "r \<in> set t" by simp
    moreover from this Cons.prems have "key a \<noteq> key r" by auto
    ultimately show ?thesis using Cons by (simp add: delete_where_def)
  qed
qed simp

lemmas unique_row_simps = sum_where_update_key sum_where_delete_key find_unique_key

subsection \<open>Updating the selected rows one by one\<close>

lemma foldl_update_where:
  assumes "\<And>x. key (f x) = key x" "\<And>x. \<not> P (f x)"
  shows "foldl (\<lambda>t r. update_where (\<lambda>x. key x = key r \<and> P x) f t) t rs
       = update_where (\<lambda>x. P x \<and> key x \<in> key ` set rs) f t"
proof (induction rs arbitrary: t)
  case (Cons r rs)
  have "update_where (\<lambda>x. P x \<and> key x \<in> key ` set rs) f (update_where (\<lambda>x. key x = key r \<and> P x) f t)
      = update_where (\<lambda>x. P x \<and> key x \<in> key ` set (r # rs)) f t"
    by (induction t) (auto simp: assms)
  then show ?case by (simp add: Cons.IH)
qed (simp add: update_where_unaffected)

lemma foldl_update_selected:
  assumes "\<And>x. key (f x) = key x" "\<And>x. \<not> P (f x)" "distinct (map key t)"
  shows "foldl (\<lambda>t r. update_where (\<lambda>x. key x = key r \<and> P x) f t) t (filter (\<lambda>x. Q x \<and> P x) t)
       = update_where (\<lambda>x. Q x \<and> P x) f t"
proof -
  have "P x \<and> key x \<in> key ` set (filter (\<lambda>x. Q x \<and> P x) t) \<longleftrightarrow> Q x \<and> P x" if "x \<in> set t" for x
    using same_key_same_row [OF assms(3) that] that by auto
  then show ?thesis unfolding foldl_update_where [of key f P, OF assms(1,2)] by (intro update_where_cong) auto
qed

subsection \<open>Sums over changed tables\<close>

lemma sum_where_map: "sum_where P v (map g t) = sum_where (\<lambda>x. P (g x)) (\<lambda>x. v (g x)) t"
  by (induction t) auto

lemma sum_where_filter: "sum_where P v (filter Q t) = sum_where (\<lambda>x. Q x \<and> P x) v t"
  by (induction t) auto

lemma sum_where_le:
  "(\<And>r. r \<in> set t \<Longrightarrow> P r \<Longrightarrow> Q r) \<Longrightarrow> (\<And>r. r \<in> set t \<Longrightarrow> Q r \<Longrightarrow> 0 \<le> v r) \<Longrightarrow>
     sum_where P v t \<le> sum_where Q v t"
proof (induction t)
  case (Cons r t)
  then have "sum_where P v t \<le> sum_where Q v t" by simp
  with Cons.prems(1,2) [of r] show ?case by auto
qed simp

text \<open>Taking the selected rows out of a sum.\<close>

lemma sum_where_update_out:
  assumes "\<And>x. P x \<Longrightarrow> \<not> Q (f x)"
  shows "sum_where Q v (update_where P f t) = sum_where (\<lambda>x. Q x \<and> \<not> P x) v t"
  using assms by (induction t) auto

end
