(* ===== verification/Uuid.thy ===== *)
theory Uuid
  imports Prelude
begin

text \<open>
  Identifiers (\<^verbatim>\<open>documentID\<close>, \<^verbatim>\<open>formatUUID\<close>, \<^verbatim>\<open>hexDigit\<close> of
  \<^verbatim>\<open>api/documents.go\<close>). The 16 bytes that \<^verbatim>\<open>crypto/rand\<close> fills in, or its
  failure, are an argument. Indexing past the end panics in Go and is \<open>None\<close> here.
  The lemmas show that every identifier is a version 4 UUID in canonical form and that
  formatting loses no information.
\<close>

unbundle bit_operations_syntax

type_synonym byte = "8 word"

definition hexDigit :: "byte \<Rightarrow> char option" where
  "hexDigit value = (if unat value < 16 then Some (''0123456789abcdef'' ! unat value) else None)"

definition hexPair :: "byte \<Rightarrow> char option list" where
  "hexPair b = [hexDigit (drop_bit 4 b), hexDigit (b AND 0x0f)]"

definition formatUUID :: "byte list \<Rightarrow> string option" where
  "formatUUID identifier =
     (if length identifier < 16 then None
      else those (
        hexPair (identifier ! 0) @ hexPair (identifier ! 1) @
        hexPair (identifier ! 2) @ hexPair (identifier ! 3) @ [Some CHR ''-''] @
        hexPair (identifier ! 4) @ hexPair (identifier ! 5) @ [Some CHR ''-''] @
        hexPair (identifier ! 6) @ hexPair (identifier ! 7) @ [Some CHR ''-''] @
        hexPair (identifier ! 8) @ hexPair (identifier ! 9) @ [Some CHR ''-''] @
        hexPair (identifier ! 10) @ hexPair (identifier ! 11) @
        hexPair (identifier ! 12) @ hexPair (identifier ! 13) @
        hexPair (identifier ! 14) @ hexPair (identifier ! 15)))"

text \<open>\<open>None\<close> is the error of the random source, the only error \<^verbatim>\<open>documentID\<close> returns.\<close>

definition documentID :: "byte list option \<Rightarrow> string option" where
  "documentID random =
     (case random of
        None \<Rightarrow> None
      | Some identifier \<Rightarrow>
          (let id6 = identifier[6 := (identifier ! 6 AND 0x0f) OR 0x40];
               id8 = id6[8 := (id6 ! 8 AND 0x3f) OR 0x80]
           in formatUUID id8))"

section \<open>Formatting\<close>

definition hexChar :: "nat \<Rightarrow> char" where
  "hexChar n = ''0123456789abcdef'' ! n"

lemma unat_high_nibble: "unat (drop_bit 4 (b :: byte)) = unat b div 16"
  by (simp add: unat_drop_bit_eq drop_bit_eq_div unat_div)

lemma unat_low_nibble: "unat ((b :: byte) AND 0x0f) = unat b mod 16"
proof -
  have "b AND 0x0f = take_bit 4 b"
    by (simp add: take_bit_eq_mask mask_eq_exp_minus_1)
  then show ?thesis
    by (simp add: unsigned_take_bit_eq take_bit_eq_mod unat_mod)
qed

lemma unat_byte_lt [simp]: "unat (b :: byte) < 256"
  using unsigned_less [of b, where 'a = nat] by simp

lemma unat_byte_div_lt [simp]: "unat (b :: byte) div 16 < 16"
  using unat_byte_lt [of b] by linarith

lemma hexPair_eq:
  "hexPair b = [Some (hexChar (unat b div 16)), Some (hexChar (unat b mod 16))]"
  using unat_byte_lt [of b]
  by (simp add: hexPair_def hexDigit_def hexChar_def unat_high_nibble unat_low_nibble)

definition hexOf :: "byte \<Rightarrow> string" where
  "hexOf b = [hexChar (unat b div 16), hexChar (unat b mod 16)]"

definition canonical :: "byte list \<Rightarrow> string" where
  "canonical bs = concat (map hexOf (take 4 bs)) @ ''-'' @ concat (map hexOf (take 2 (drop 4 bs))) @
     ''-'' @ concat (map hexOf (take 2 (drop 6 bs))) @ ''-'' @
     concat (map hexOf (take 2 (drop 8 bs))) @ ''-'' @ concat (map hexOf (take 6 (drop 10 bs)))"

lemma sixteen_bytes:
  assumes "length bs = 16"
  obtains a b c d e f g h i j k l m n p q where "bs = [a, b, c, d, e, f, g, h, i, j, k, l, m, n, p, q]"
  using assms by (auto simp: numeral_eq_Suc length_Suc_conv)

lemma formatUUID_canonical: "length bs = 16 \<Longrightarrow> formatUUID bs = Some (canonical bs)"
  by (erule sixteen_bytes) (simp add: formatUUID_def hexPair_eq canonical_def hexOf_def)

section \<open>Version and variant\<close>

definition lower_hex :: "char \<Rightarrow> bool" where
  "lower_hex c \<longleftrightarrow> c \<in> set ''0123456789abcdef''"

text \<open>The canonical form, one condition per character: 8-4-4-4-12 lower-case hexadecimal
  digits, the third group starting with the version, the fourth with the variant.\<close>

definition uuid4_pattern :: "(char \<Rightarrow> bool) list" where
  "uuid4_pattern =
     replicate 8 lower_hex @ [\<lambda>c. c = CHR ''-''] @
     replicate 4 lower_hex @ [\<lambda>c. c = CHR ''-''] @
     [\<lambda>c. c = CHR ''4''] @ replicate 3 lower_hex @ [\<lambda>c. c = CHR ''-''] @
     [\<lambda>c. c \<in> set ''89ab''] @ replicate 3 lower_hex @ [\<lambda>c. c = CHR ''-''] @
     replicate 12 lower_hex"

definition is_uuid4 :: "string \<Rightarrow> bool" where
  "is_uuid4 s \<longleftrightarrow> list_all2 (\<lambda>p c. p c) uuid4_pattern s"

lemma uuid4_pattern_expanded: "uuid4_pattern = [
    lower_hex, lower_hex, lower_hex, lower_hex, lower_hex, lower_hex, lower_hex, lower_hex,
    \<lambda>c. c = CHR ''-'', lower_hex, lower_hex, lower_hex, lower_hex,
    \<lambda>c. c = CHR ''-'', \<lambda>c. c = CHR ''4'', lower_hex, lower_hex, lower_hex,
    \<lambda>c. c = CHR ''-'', \<lambda>c. c \<in> set ''89ab'', lower_hex, lower_hex,
    lower_hex, \<lambda>c. c = CHR ''-'', lower_hex, lower_hex, lower_hex, lower_hex,
    lower_hex, lower_hex, lower_hex, lower_hex, lower_hex, lower_hex, lower_hex, lower_hex]"
  by (simp add: uuid4_pattern_def numeral_eq_Suc)

lemma lower_hex_hexChar [simp]: "n < 16 \<Longrightarrow> lower_hex (hexChar n)"
  unfolding lower_hex_def hexChar_def by (rule nth_mem) simp

lemma hexChar_version: "n = 4 \<Longrightarrow> hexChar n = CHR ''4''"
  by (simp add: hexChar_def)

lemma hexChar_variant: "n \<in> {8, 9, 10, 11} \<Longrightarrow> hexChar n \<in> set ''89ab''"
  by (auto simp: hexChar_def)

lemma version_nibble: "drop_bit 4 (((b :: byte) AND 0x0f) OR 0x40) = 4"
  by (simp add: drop_bit_or drop_bit_and)

lemma variant_nibble: "drop_bit 4 (((b :: byte) AND 0x3f) OR 0x80) = (drop_bit 4 b AND 3) OR 8"
  by (simp add: drop_bit_or drop_bit_and)

lemma low_two_bits: "(b :: byte) AND 3 \<in> {0, 1, 2, 3}"
proof -
  have "b AND 3 = take_bit 2 b"
    by (simp add: take_bit_eq_mask mask_eq_exp_minus_1)
  then have "unat (b AND 3) = unat b mod 4"
    by (simp add: unsigned_take_bit_eq take_bit_eq_mod unat_mod)
  then have "unat (b AND 3) \<in> {0, 1, 2, 3}" by auto
  then have "(word_of_nat (unat (b AND 3)) :: byte) \<in> {0, 1, 2, 3}"
    by (elim insertE) simp_all
  then show ?thesis by (simp only: of_nat_unat ucast_id)
qed

lemma version_char: "unat (((b :: byte) AND 0x0f) OR 0x40) div 16 = 4"
  by (simp flip: unat_high_nibble add: version_nibble)

lemma variant_char: "unat (((b :: byte) AND 0x3f) OR 0x80) div 16 \<in> {8, 9, 10, 11}"
  using low_two_bits [of "drop_bit 4 b"]
  by (auto simp flip: unat_high_nibble simp: variant_nibble)

lemma documentID_uuid4:
  assumes "length bs = 16"
  shows "\<exists>s. documentID (Some bs) = Some s \<and> is_uuid4 s"
proof -
  define id8 where "id8 = bs[6 := (bs ! 6 AND 0x0f) OR 0x40, 8 := (bs ! 8 AND 0x3f) OR 0x80]"
  have len: "length id8 = 16" by (simp add: id8_def assms)
  have doc: "documentID (Some bs) = Some (canonical id8)"
    using formatUUID_canonical [OF len] by (simp add: documentID_def Let_def id8_def)
  have v6: "unat (id8 ! 6) div 16 = 4"
    using assms by (simp add: id8_def version_char)
  have v8: "unat (id8 ! 8) div 16 \<in> {8, 9, 10, 11}"
    using assms variant_char [of "bs ! 8"] by (simp add: id8_def)
  from len obtain a b c d e f g h i j k l m n p q
    where bytes: "id8 = [a, b, c, d, e, f, g, h, i, j, k, l, m, n, p, q]"
    by (rule sixteen_bytes)
  have "is_uuid4 (canonical id8)"
    using hexChar_version [OF v6] hexChar_variant [OF v8]
    by (simp add: bytes is_uuid4_def uuid4_pattern_expanded canonical_def hexOf_def del: set_simps)
  with doc show ?thesis by blast
qed

text \<open>Whenever the random source delivers its 16 bytes, the identifier handed out is a
  canonical lower-case UUID of 36 characters with version 4 and the RFC 4122 variant, and
  no index of the digit table or of the byte array is out of range.\<close>

theorem documentID_is_uuid4:
  assumes "length bs = 16"
  shows "\<exists>s. documentID (Some bs) = Some s \<and> is_uuid4 s"
  by (rule documentID_uuid4 [OF assms])

theorem documentID_is_uuid4_witness:
  "length (replicate 16 (0 :: byte)) = 16 \<and>
   (\<exists>s. documentID (Some (replicate 16 0)) = Some s \<and> is_uuid4 s)"
  using documentID_is_uuid4 [of "replicate 16 0"] by simp

section \<open>Formatting is injective\<close>

definition hexValue :: "char \<Rightarrow> nat" where
  "hexValue c = (if c \<in> set ''0123456789'' then of_char c - 48 else of_char c - 87)"

fun decodeUUID :: "string \<Rightarrow> byte list" where
  "decodeUUID (x # y # s) =
     (if x = CHR ''-'' then decodeUUID (y # s)
      else word_of_nat (16 * hexValue x + hexValue y) # decodeUUID s)"
| "decodeUUID _ = []"

lemma hexValue_all: "list_all (\<lambda>n. hexValue (hexChar n) = n \<and> hexChar n \<noteq> CHR ''-'') [0..<16]"
  by code_simp

lemma hexValue_hexChar [simp]:
  assumes "n < 16"
  shows "hexValue (hexChar n) = n" and "hexChar n \<noteq> CHR ''-''"
  using hexValue_all assms by (auto simp: list_all_iff)

lemma decode_hexOf [simp]:
  "decodeUUID (hexChar (unat b div 16) # hexChar (unat b mod 16) # s) = b # decodeUUID s"
proof -
  have "16 * (unat b div 16) + unat b mod 16 = unat b" by simp
  then show ?thesis by (simp del: mult_div_mod_eq)
qed

lemma decode_dash [simp]: "decodeUUID (CHR ''-'' # y # s) = decodeUUID (y # s)"
  by simp

text \<open>The textual identifier determines the 16 bytes it was made from, so two
  different identifiers never share a text.\<close>

theorem formatUUID_roundtrip:
  assumes "length bs = 16"
  shows "map_option decodeUUID (formatUUID bs) = Some bs"
proof -
  from assms obtain a b c d e f g h i j k l m n p q
    where "bs = [a, b, c, d, e, f, g, h, i, j, k, l, m, n, p, q]"
    by (rule sixteen_bytes)
  then show ?thesis
    by (simp add: formatUUID_canonical canonical_def hexOf_def del: decodeUUID.simps(1))
qed

theorem formatUUID_roundtrip_witness:
  "length (replicate 16 (7 :: byte)) = 16 \<and>
   map_option decodeUUID (formatUUID (replicate 16 7)) = Some (replicate 16 7)"
  using formatUUID_roundtrip [of "replicate 16 7"] by simp

end
