(* ===== verification/Go_Strings.thy ===== *)
theory Go_Strings
  imports Prelude
begin

text \<open>
  The parts of Go's \<^verbatim>\<open>strconv\<close>, \<^verbatim>\<open>strings\<close> and \<^verbatim>\<open>unicode/utf8\<close> that
  the API uses. A string is its bytes. Case mapping and white space are those of ASCII; the
  rune count follows UTF-8 decoding with every invalid byte counting as one rune, as
  \<^verbatim>\<open>len([]rune(s))\<close> does.
\<close>

section \<open>strconv.ParseInt in base 10 with 64 bits\<close>

datatype numError = ErrSyntax | ErrRange

definition is_digit :: "char \<Rightarrow> bool" where
  "is_digit c \<longleftrightarrow> 48 \<le> (of_char c :: nat) \<and> (of_char c :: nat) \<le> 57"

definition digit_value :: "char \<Rightarrow> int" where
  "digit_value c = of_char c - 48"

abbreviation maxUint64 :: int where "maxUint64 \<equiv> 18446744073709551615"
abbreviation maxInt64 :: int where "maxInt64 \<equiv> 9223372036854775807"

text \<open>The loop of \<^verbatim>\<open>ParseUint\<close>: the cut-off is tested before the next digit is added,
  so a range error is reported even when a bad character follows.\<close>

fun parse_digits :: "int \<Rightarrow> string \<Rightarrow> numError + int" where
  "parse_digits n [] = Inr n"
| "parse_digits n (c # cs) =
     (if \<not> is_digit c then Inl ErrSyntax
      else if n \<ge> maxUint64 div 10 + 1 then Inl ErrRange
      else if n * 10 + digit_value c > maxUint64 then Inl ErrRange
      else parse_digits (n * 10 + digit_value c) cs)"

text \<open>\<^verbatim>\<open>ParseInt\<close> returns a value besides its error: 0 for a syntax error, the
  nearest bound for a range error.\<close>

definition ParseInt :: "string \<Rightarrow> int \<times> numError option" where
  "ParseInt s =
     (let neg = (s \<noteq> [] \<and> hd s = CHR ''-'');
          body = (if s \<noteq> [] \<and> hd s \<in> {CHR ''+'', CHR ''-''} then tl s else s)
      in if body = [] then (0, Some ErrSyntax)
         else case parse_digits 0 body of
             Inl ErrSyntax \<Rightarrow> (0, Some ErrSyntax)
           | Inl ErrRange \<Rightarrow> (if neg then - (2 ^ 63) else maxInt64, Some ErrRange)
           | Inr un \<Rightarrow>
               (if \<not> neg \<and> un \<ge> 2 ^ 63 then (maxInt64, Some ErrRange)
                else if neg \<and> un > 2 ^ 63 then (- (2 ^ 63), Some ErrRange)
                else (if neg then - un else un, None)))"

definition Atoi :: "string \<Rightarrow> int \<times> numError option" where
  "Atoi s = ParseInt s"

text \<open>The number a string of digits denotes.\<close>

definition decimal_from :: "int \<Rightarrow> string \<Rightarrow> int" where
  "decimal_from n s = foldl (\<lambda>acc c. acc * 10 + digit_value c) n s"

abbreviation decimal :: "string \<Rightarrow> int" where "decimal \<equiv> decimal_from 0"

lemma decimal_from_simps [simp]:
  "decimal_from n [] = n"
  "decimal_from n (c # s) = decimal_from (n * 10 + digit_value c) s"
  by (simp_all add: decimal_from_def)

lemma digit_value_bounds: "is_digit c \<Longrightarrow> 0 \<le> digit_value c \<and> digit_value c \<le> 9"
  by (auto simp: is_digit_def digit_value_def) (metis of_char_of of_nat_numeral of_nat_le_iff of_nat_of_char)+

lemma decimal_from_ge:
  "0 \<le> n \<Longrightarrow> list_all is_digit s \<Longrightarrow> n \<le> decimal_from n s"
proof (induction s arbitrary: n)
  case (Cons c s)
  then have "n * 10 + digit_value c \<le> decimal_from (n * 10 + digit_value c) s"
    using digit_value_bounds [of c] by simp
  with Cons.prems digit_value_bounds [of c] show ?case by simp
qed simp

lemma parse_digits_digits:
  "0 \<le> n \<Longrightarrow> n \<le> maxUint64 \<Longrightarrow> list_all is_digit s \<Longrightarrow>
     parse_digits n s = (if decimal_from n s \<le> maxUint64 then Inr (decimal_from n s) else Inl ErrRange)"
proof (induction s arbitrary: n)
  case (Cons c s)
  let ?m = "n * 10 + digit_value c"
  have d: "0 \<le> digit_value c" "digit_value c \<le> 9" and s: "list_all is_digit s"
    using Cons.prems digit_value_bounds [of c] by auto
  have ge: "?m \<le> decimal_from ?m s"
    using decimal_from_ge [of ?m s] Cons.prems(1) d s by simp
  show ?case
  proof (cases "?m \<le> maxUint64")
    case True
    with Cons.prems d have "\<not> n \<ge> maxUint64 div 10 + 1" by simp
    with True Cons.prems d s Cons.IH [of ?m] show ?thesis by simp
  next
    case False
    with ge Cons.prems show ?thesis by simp
  qed
qed simp

lemma digit_not_sign: "is_digit c \<Longrightarrow> c \<noteq> CHR ''+'' \<and> c \<noteq> CHR ''-''"
  by (auto simp: is_digit_def)

lemma ParseInt_digits:
  assumes "s \<noteq> []" "list_all is_digit s"
  shows "ParseInt s = (if decimal s < 2 ^ 63 then (decimal s, None) else (maxInt64, Some ErrRange))"
proof -
  from assms have "is_digit (hd s)" by (cases s) auto
  with digit_not_sign have "hd s \<noteq> CHR ''+''" "hd s \<noteq> CHR ''-''" by blast+
  with assms show ?thesis
    using parse_digits_digits [of 0 s] by (auto simp: ParseInt_def)
qed

section \<open>strings\<close>

definition is_space :: "char \<Rightarrow> bool" where
  "is_space c \<longleftrightarrow> (of_char c :: nat) \<in> {9, 10, 11, 12, 13, 32}"

definition TrimSpace :: "string \<Rightarrow> string" where
  "TrimSpace s = rev (dropWhile is_space (rev (dropWhile is_space s)))"

definition lower_char :: "char \<Rightarrow> char" where
  "lower_char c =
     (if 65 \<le> (of_char c :: nat) \<and> (of_char c :: nat) \<le> 90 then char_of ((of_char c :: nat) + 32) else c)"

definition ToLower :: "string \<Rightarrow> string" where
  "ToLower s = map lower_char s"

fun has_prefix :: "string \<Rightarrow> string \<Rightarrow> bool" where
  "has_prefix s [] = True"
| "has_prefix [] (_ # _) = False"
| "has_prefix (x # xs) (y # ys) = (x = y \<and> has_prefix xs ys)"

fun Contains :: "string \<Rightarrow> string \<Rightarrow> bool" where
  "Contains [] sub = (sub = [])"
| "Contains (x # xs) sub = (has_prefix (x # xs) sub \<or> Contains xs sub)"

fun Split :: "char \<Rightarrow> string \<Rightarrow> string list" where
  "Split sep [] = [[]]"
| "Split sep (c # s) =
     (if c = sep then [] # Split sep s
      else (case Split sep s of [] \<Rightarrow> [[c]] | w # ws \<Rightarrow> (c # w) # ws))"

definition TrimPrefix :: "string \<Rightarrow> string \<Rightarrow> string" where
  "TrimPrefix s p = (if has_prefix s p then drop (length p) s else s)"

lemma has_prefix_iff: "has_prefix s p \<longleftrightarrow> (\<exists>r. s = p @ r)"
  by (induction s p rule: has_prefix.induct) auto

lemma has_prefix_take: "has_prefix s p \<longleftrightarrow> take (length p) s = p"
  unfolding has_prefix_iff by (metis append_eq_conv_conj append_take_drop_id)

lemma Contains_iff: "Contains s sub \<longleftrightarrow> (\<exists>a b. s = a @ sub @ b)"
proof (induction s)
  case (Cons x xs)
  have "(\<exists>a b. x # xs = a @ sub @ b) \<longleftrightarrow> (\<exists>b. x # xs = sub @ b) \<or> (\<exists>a b. xs = a @ sub @ b)"
    by (metis append_Cons append_Nil list.inject neq_Nil_conv)
  with Cons show ?case by (simp add: has_prefix_iff)
qed auto

lemma lower_char_idem [simp]: "lower_char (lower_char c) = lower_char c"
  by (simp add: lower_char_def)

lemma ToLower_idem [simp]: "ToLower (ToLower s) = ToLower s"
  by (simp add: ToLower_def)

lemma Split_nonempty [simp]: "Split sep s \<noteq> []"
  by (cases s) (auto split: list.splits)

lemma Split_append: "Split sep (s @ sep # t) = Split sep s @ Split sep t"
  by (induction sep s rule: Split.induct) (auto split: list.splits)

lemma Split_none: "sep \<notin> set s \<Longrightarrow> Split sep s = [s]"
  by (induction s) auto

section \<open>Runes\<close>

definition in_range :: "nat \<Rightarrow> nat \<Rightarrow> char \<Rightarrow> bool" where
  "in_range lo hi c \<longleftrightarrow> lo \<le> of_char c \<and> of_char c \<le> hi"

text \<open>How many bytes the first rune of a non-empty string takes; an invalid encoding is one
  byte (\<^verbatim>\<open>RuneError\<close> of width 1).\<close>

definition rune_width :: "string \<Rightarrow> nat" where
  "rune_width s = (case s of
      a # b # r \<Rightarrow>
        (if in_range 0xC2 0xDF a \<and> in_range 0x80 0xBF b then 2
         else case r of
             c # r' \<Rightarrow>
               (if (in_range 0xE0 0xE0 a \<and> in_range 0xA0 0xBF b
                    \<or> in_range 0xE1 0xEC a \<and> in_range 0x80 0xBF b
                    \<or> in_range 0xED 0xED a \<and> in_range 0x80 0x9F b
                    \<or> in_range 0xEE 0xEF a \<and> in_range 0x80 0xBF b) \<and> in_range 0x80 0xBF c
                then 3
                else case r' of
                    d # _ \<Rightarrow>
                      (if (in_range 0xF0 0xF0 a \<and> in_range 0x90 0xBF b
                           \<or> in_range 0xF1 0xF3 a \<and> in_range 0x80 0xBF b
                           \<or> in_range 0xF4 0xF4 a \<and> in_range 0x80 0x8F b)
                          \<and> in_range 0x80 0xBF c \<and> in_range 0x80 0xBF d
                       then 4 else 1)
                  | [] \<Rightarrow> 1)
           | [] \<Rightarrow> 1)
    | _ \<Rightarrow> 1)"

lemma rune_width_pos: "0 < rune_width s"
  by (auto simp: rune_width_def split: list.splits)

function rune_count :: "string \<Rightarrow> nat" where
  "rune_count s = (if s = [] then 0 else Suc (rune_count (drop (rune_width s) s)))"
  by pat_completeness auto
termination
  by (relation "measure length") (use rune_width_pos in auto)

declare rune_count.simps [simp del]

lemma rune_count_Nil [simp]: "rune_count [] = 0"
  by (simp add: rune_count.simps)

lemma rune_count_le: "rune_count s \<le> length s"
proof (induction s rule: rune_count.induct)
  case (1 s)
  show ?case
  proof (cases "s = []")
    case False
    with 1 have "rune_count s \<le> Suc (length s - rune_width s)"
      by (subst rune_count.simps) simp
    moreover have "0 < length s" "0 < rune_width s"
      using False rune_width_pos by auto
    ultimately show ?thesis by linarith
  qed simp
qed

lemma rune_count_ascii:
  "list_all (\<lambda>c. (of_char c :: nat) < 0x80) s \<Longrightarrow> rune_count s = length s"
proof (induction s)
  case (Cons c s)
  then have "rune_width (c # s) = 1"
    by (auto simp: rune_width_def in_range_def split: list.splits)
  with Cons show ?case by (subst rune_count.simps) simp
qed simp

section \<open>strconv.FormatInt in base 10\<close>

definition digit_char :: "nat \<Rightarrow> char" where
  "digit_char n = char_of (48 + n)"

fun nat_digits :: "nat \<Rightarrow> string" where
  "nat_digits n = (if n < 10 then [digit_char n] else nat_digits (n div 10) @ [digit_char (n mod 10)])"

declare nat_digits.simps [simp del]

definition FormatInt :: "int \<Rightarrow> string" where
  "FormatInt i = (if i < 0 then CHR ''-'' # nat_digits (nat (- i)) else nat_digits (nat i))"

lemma digit_char: "n < 10 \<Longrightarrow> is_digit (digit_char n) \<and> digit_value (digit_char n) = int n"
proof -
  assume n: "n < 10"
  have "(of_char (char_of (48 + n) :: char) :: nat) = 48 + n" using n by (simp add: take_bit_eq_mod)
  moreover from this have "(of_char (char_of (48 + n) :: char) :: int) = 48 + int n"
    by (metis of_nat_add of_nat_numeral of_nat_of_char)
  ultimately show "is_digit (digit_char n) \<and> digit_value (digit_char n) = int n"
    using n by (simp add: is_digit_def digit_value_def digit_char_def)
qed

lemma decimal_from_append: "decimal_from n (s @ t) = decimal_from (decimal_from n s) t"
  by (simp add: decimal_from_def)

lemma nat_digits: "nat_digits n \<noteq> [] \<and> list_all is_digit (nat_digits n) \<and> decimal (nat_digits n) = int n"
proof (induction n rule: nat_digits.induct)
  case (1 n)
  show ?case
  proof (cases "n < 10")
    case True
    with digit_char [OF True] show ?thesis by (subst (1 2 3) nat_digits.simps) simp
  next
    case False
    have "digit_value (digit_char (n mod 10)) = int (n mod 10)" "is_digit (digit_char (n mod 10))"
      using digit_char [of "n mod 10"] by auto
    moreover have "int (n div 10) * 10 + int (n mod 10) = int n"
      by (metis div_mult_mod_eq of_nat_add of_nat_mult of_nat_numeral)
    ultimately show ?thesis
      using False 1 by (subst (1 2 3) nat_digits.simps) (simp add: decimal_from_append)
  qed
qed

lemma ParseInt_FormatInt:
  assumes "0 \<le> i" "i < 2 ^ 63"
  shows "ParseInt (FormatInt i) = (i, None)"
proof -
  have "ParseInt (nat_digits (nat i)) = (decimal (nat_digits (nat i)), None)"
    using nat_digits [of "nat i"] ParseInt_digits [of "nat_digits (nat i)"] assms by simp
  with nat_digits [of "nat i"] assms show ?thesis by (simp add: FormatInt_def)
qed

end
