(* ===== verification/Sliding_Window.thy ===== *)
theory Sliding_Window
  imports Prelude
begin

text \<open>
  The log of recent event times that the in-memory limiters keep (\<^verbatim>\<open>recent\<close> of
  \<^verbatim>\<open>api/admission.go\<close>), and the contract the limiters built on it share: among the
  events a limiter admits, any one and the one \<open>limit\<close> places after it are more than
  \<open>window\<close> apart. The locale \<open>window_log\<close> states what a client of the log relies on
  and proves that contract once; it is interpreted on \<open>recent\<close> here and used by the
  upload, the answer and the authentication limiters.
\<close>

fun recent :: "time list \<Rightarrow> time \<Rightarrow> time list" where
  "recent [] since = []"
| "recent (v # vs) since = (if v < since then recent vs since else v # vs)"

lemma recent_suffix: "\<exists>k \<le> length vs. recent vs since = drop k vs \<and> (\<forall>i < k. vs ! i < since)"
proof (induction vs)
  case (Cons v vs)
  show ?case
  proof (cases "v < since")
    case True
    from Cons obtain k where "k \<le> length vs" "recent vs since = drop k vs" "\<forall>i < k. vs ! i < since"
      by blast
    with True have "Suc k \<le> length (v # vs)" "recent (v # vs) since = drop (Suc k) (v # vs)"
      "\<forall>i < Suc k. (v # vs) ! i < since"
      by (auto simp: less_Suc_eq_0_disj)
    then show ?thesis by blast
  qed (auto intro: exI [of _ 0])
qed simp

lemma length_recent: "length (recent vs since) \<le> length vs"
  by (induction vs) auto

lemma set_recent: "set (recent vs since) \<subseteq> set vs"
  by (induction vs) auto

lemma recent_all: "sorted vs \<Longrightarrow> v \<in> set (recent vs since) \<Longrightarrow> since \<le> v"
  by (induction vs) (auto split: if_splits)

lemma recent_recent: "since \<le> since' \<Longrightarrow> recent (recent vs since) since' = recent vs since'"
  by (induction vs) auto

lemma sorted_recent: "sorted vs \<Longrightarrow> sorted (recent vs since)"
  by (induction vs) auto

text \<open>Events at least \<open>n\<close> places apart are more than \<open>w\<close> apart in time.\<close>

definition spaced :: "nat \<Rightarrow> duration \<Rightarrow> time list \<Rightarrow> bool" where
  "spaced n w g \<longleftrightarrow> (\<forall>i. i + n < length g \<longrightarrow> g ! i + w < g ! (i + n))"

lemma spaced_Nil [simp]: "spaced n w []"
  by (simp add: spaced_def)

lemma spaced_snoc:
  assumes "spaced n w g" "length g < n \<or> g ! (length g - n) + w < now" "0 < n"
  shows "spaced n w (g @ [now])"
  unfolding spaced_def
proof (intro allI impI)
  fix i assume i: "i + n < length (g @ [now])"
  show "(g @ [now]) ! i + w < (g @ [now]) ! (i + n)"
  proof (cases "i + n = length g")
    case True
    then have "i = length g - n" "\<not> length g < n" "i < length g" using assms(3) by simp_all
    with True assms show ?thesis by (simp add: nth_append)
  next
    case False
    with assms i show ?thesis by (auto simp: nth_append spaced_def)
  qed
qed

text \<open>The bound a spaced log gives: in any period of length \<open>w\<close> it has at most \<open>n\<close> events.\<close>

lemma spaced_count:
  assumes "spaced n w g" "sorted g" "0 < n"
  shows "length (filter (\<lambda>t. a \<le> t \<and> t \<le> a + w) g) \<le> n"
proof (rule ccontr)
  let ?S = "{i. i < length g \<and> a \<le> g ! i \<and> g ! i \<le> a + w}"
  assume "\<not> ?thesis"
  then have card: "n < card ?S" by (simp add: length_filter_conv_card)
  have fin: "finite ?S" by simp
  from card have ne: "?S \<noteq> {}" by (metis card.empty not_less0)
  let ?lo = "Min ?S" and ?hi = "Max ?S"
  have "?lo \<in> ?S" and hi: "?hi \<in> ?S" using fin ne by (auto simp del: mem_Collect_eq)
  have "?S \<subseteq> {?lo..?hi}"
    using Min_le [OF fin] Max_ge [OF fin] by (simp add: subset_iff)
  then have "card ?S \<le> card {?lo..?hi}" by (intro card_mono) auto
  with card have far: "?lo + n \<le> ?hi" by simp
  with hi have "?lo + n < length g" by auto
  with assms(1) have "g ! ?lo + w < g ! (?lo + n)" by (auto simp: spaced_def)
  also have "\<dots> \<le> g ! ?hi" using far hi assms(2) by (auto intro: sorted_nth_mono)
  finally show False using \<open>?lo \<in> ?S\<close> hi by auto
qed

section \<open>Runs of a limiter\<close>

text \<open>The times of the granted calls among those that \<open>counted\<close> selects, along a sequence of
  timed calls of a limiter that answers whether it granted the call.\<close>

fun admitted :: "(time \<Rightarrow> 'e \<Rightarrow> 's \<Rightarrow> bool \<times> 's) \<Rightarrow> ('e \<Rightarrow> bool) \<Rightarrow> (time \<times> 'e) list \<Rightarrow> 's \<Rightarrow> time list" where
  "admitted step counted [] s = []"
| "admitted step counted ((now, e) # es) s =
     (case step now e s of (granted, s') \<Rightarrow>
        (if granted \<and> counted e then [now] else []) @ admitted step counted es s')"

section \<open>The log contract\<close>

text \<open>What the limiters use of the log: pruning keeps exactly a suffix, drops only entries
  before \<open>since\<close>. \<open>covers\<close> relates the log to the whole history \<open>g\<close> of admitted
  events: the log is its tail and everything dropped is out of the window by now.\<close>

locale window_log =
  fixes prune :: "time list \<Rightarrow> time \<Rightarrow> time list"
  assumes prune_suffix:
    "\<exists>k \<le> length vs. prune vs since = drop k vs \<and> (\<forall>i < k. vs ! i < since)"
begin

definition covers :: "duration \<Rightarrow> time \<Rightarrow> time list \<Rightarrow> time list \<Rightarrow> bool" where
  "covers w now g vs \<longleftrightarrow>
     (\<exists>k \<le> length g. vs = drop k g \<and> (\<forall>i < k. g ! i + w < now))"

lemma covers_Nil [simp]: "covers w now [] []"
  by (simp add: covers_def)

lemma covers_later: "covers w now g vs \<Longrightarrow> now \<le> now' \<Longrightarrow> covers w now' g vs"
  unfolding covers_def by (metis order_less_le_trans)

lemma covers_prune:
  assumes "covers w now g vs" "since \<le> now - w"
  shows "covers w now g (prune vs since)"
proof -
  from assms obtain k where k: "k \<le> length g" "vs = drop k g" "\<forall>i < k. g ! i + w < now"
    by (auto simp: covers_def)
  from prune_suffix [of vs since] obtain j where
    j: "j \<le> length vs" "prune vs since = drop j vs" "\<forall>i < j. vs ! i < since"
    by blast
  have "g ! i + w < now" if "i < k + j" for i
  proof (cases "i < k")
    case False
    with that have "i - k < j" by simp
    with j(3) assms(2) have "vs ! (i - k) < now - w" by fastforce
    with False k j(1) that show ?thesis by (auto simp: nth_drop)
  qed (use k in simp)
  moreover have "k + j \<le> length g" using k j(1) by simp
  moreover have "prune vs since = drop (k + j) g" using k j(2) by (simp add: add.commute)
  ultimately show ?thesis unfolding covers_def by blast
qed

text \<open>Admitting an event when the pruned log has fewer than \<open>n\<close> entries keeps the
  history spaced, and the extended log still covers it.\<close>

lemma admit_spaced:
  assumes "covers w now g vs" "spaced n w g" "length vs < n"
  shows "spaced n w (g @ [now])"
proof (rule spaced_snoc [OF assms(2)])
  from assms obtain k where k: "k \<le> length g" "vs = drop k g" "\<forall>i < k. g ! i + w < now"
    by (auto simp: covers_def)
  with assms(3) show "length g < n \<or> g ! (length g - n) + w < now"
    by (cases "length g < n") auto
  from assms(3) show "0 < n" by simp
qed

lemma admit_covers:
  assumes "covers w now g vs"
  shows "covers w now (g @ [now]) (vs @ [now])"
proof -
  from assms obtain k where k: "k \<le> length g" "vs = drop k g" "\<forall>i < k. g ! i + w < now"
    by (auto simp: covers_def)
  then have "k \<le> length (g @ [now])" "vs @ [now] = drop k (g @ [now])"
    "\<forall>i < k. (g @ [now]) ! i + w < now"
    by (auto simp: nth_append)
  then show ?thesis unfolding covers_def by blast
qed

end

text \<open>A limiter over the log: a granted call found fewer than \<open>limit\<close> entries in the pruned
  log and appended its time; any other call leaves the log alone or prunes it.\<close>

locale log_limiter = window_log prune for prune :: "time list \<Rightarrow> time \<Rightarrow> time list" +
  fixes step :: "time \<Rightarrow> 'e \<Rightarrow> 's \<Rightarrow> bool \<times> 's"
    and log :: "'s \<Rightarrow> time list"
    and counted :: "'e \<Rightarrow> bool"
    and limit :: nat
    and window :: duration
  assumes granted: "counted e \<Longrightarrow> step now e s = (True, s') \<Longrightarrow>
      length (prune (log s) (now - window)) < limit \<and>
      log s' = prune (log s) (now - window) @ [now]"
    and not_granted: "\<not> (b \<and> counted e) \<Longrightarrow> step now e s = (b, s') \<Longrightarrow>
      log s' = log s \<or> (\<exists>since \<le> now - window. log s' = prune (log s) since)"
begin

definition history_ok :: "time \<Rightarrow> time list \<Rightarrow> 's \<Rightarrow> bool" where
  "history_ok now g s \<longleftrightarrow>
     covers window now g (log s) \<and> spaced limit window g \<and> sorted g \<and> (\<forall>t \<in> set g. t \<le> now)"

lemma history_step:
  assumes ok: "history_ok now g s" and le: "now \<le> now'" and st: "step now' e s = (b, s')"
  shows "history_ok now' (g @ (if b \<and> counted e then [now'] else [])) s'"
proof -
  from ok le have c: "covers window now' g (log s)"
    by (auto simp: history_ok_def intro: covers_later)
  note c' = covers_prune [OF c]
  show ?thesis
  proof (cases "b \<and> counted e")
    case True
    with granted [of e now' s s'] st
    have "length (prune (log s) (now' - window)) < limit" "log s' = prune (log s) (now' - window) @ [now']"
      by auto
    with c' [OF order_refl] ok le True show ?thesis
      by (auto simp: history_ok_def sorted_append intro: admit_covers admit_spaced)
  next
    case False
    with not_granted [of b e now' s s'] st
    have "log s' = log s \<or> (\<exists>since \<le> now' - window. log s' = prune (log s) since)" by simp
    with c c' have "covers window now' g (log s')" by auto
    with False ok le show ?thesis by (auto simp: history_ok_def)
  qed
qed

lemma admitted_history:
  "history_ok now g s \<Longrightarrow> sorted (now # map fst es) \<Longrightarrow>
     spaced limit window (g @ admitted step counted es s) \<and> sorted (g @ admitted step counted es s)"
proof (induction es arbitrary: now g s)
  case (Cons te es)
  obtain t e where te: "te = (t, e)" by force
  obtain b s' where st: "step t e s = (b, s')" by force
  from Cons.prems te have "now \<le> t" by simp
  with Cons.prems(1) st have "history_ok t (g @ (if b \<and> counted e then [t] else [])) s'"
    by (intro history_step)
  moreover from Cons.prems te have "sorted (t # map fst es)" by simp
  ultimately have "spaced limit window ((g @ (if b \<and> counted e then [t] else [])) @ admitted step counted es s') \<and>
      sorted ((g @ (if b \<and> counted e then [t] else [])) @ admitted step counted es s')"
    by (rule Cons.IH)
  with te st show ?case by simp
qed (simp add: history_ok_def)

lemma admitted_bound:
  assumes "log s = []" "sorted (map fst es)" "0 < limit"
  shows "length (filter (\<lambda>t. a \<le> t \<and> t \<le> a + window) (admitted step counted es s)) \<le> limit"
proof -
  have "spaced limit window (admitted step counted es s) \<and> sorted (admitted step counted es s)"
  proof (cases es)
    case (Cons te es')
    with assms(2) have "sorted (fst te # map fst es)" by simp
    moreover have "history_ok (fst te) [] s" by (simp add: history_ok_def assms(1))
    ultimately show ?thesis using admitted_history [of "fst te" "[]" s es] by simp
  qed simp
  with assms(3) show ?thesis by (intro spaced_count) auto
qed

end

interpretation rlog: window_log recent
  by unfold_locales (rule recent_suffix)

end
