(* ===== verification/Admission.thy ===== *)
theory Admission
  imports Sliding_Window
begin

text \<open>
  In-memory admission control (\<^verbatim>\<open>api/admission.go\<close>): per owner, the bytes and documents
  held, the upload times of the last hour, the answer times of the last day and the running
  answers. \<^verbatim>\<open>a.owners\<close> is a map from owner to usage; the pointer \<^verbatim>\<open>a.owner(owner)\<close>
  returns is read from the map and written back. The mutex makes each method one step. The clock
  reading \<^verbatim>\<open>time.Now()\<close> is the argument \<open>now\<close>.
\<close>

definition maxOwnerStorage :: int where "maxOwnerStorage = 10 * 2 ^ 30"
definition maxOwnerDocuments :: int where "maxOwnerDocuments = 1000"
definition maxUploadsPerHour :: int where "maxUploadsPerHour = 10"
definition maxActiveAnswers :: int where "maxActiveAnswers = 2"
definition maxAnswersPerDay :: int where "maxAnswersPerDay = 100"

text \<open>The largest size for which adding it to a usage within the limit cannot overflow.\<close>

definition maxInt64_minus_storage :: int where
  "maxInt64_minus_storage = 2 ^ 63 - 1 - maxOwnerStorage"

lemmas quota_limits =
  maxOwnerStorage_def maxOwnerDocuments_def maxUploadsPerHour_def maxActiveAnswers_def
  maxAnswersPerDay_def

record ownerUsage =
  ou_bytes :: int
  ou_documents :: int
  ou_uploads :: "time list"
  ou_answers :: "time list"
  ou_active :: int

type_synonym admissionController = "string \<Rightarrow> ownerUsage option"

definition newAdmissionController :: admissionController where
  "newAdmissionController = Map.empty"

definition empty_usage :: ownerUsage where
  "empty_usage = \<lparr>ou_bytes = 0, ou_documents = 0, ou_uploads = [], ou_answers = [], ou_active = 0\<rparr>"

definition owner :: "admissionController \<Rightarrow> string \<Rightarrow> ownerUsage \<times> admissionController" where
  "owner a name =
     (case a name of
        Some usage \<Rightarrow> (usage, a)
      | None \<Rightarrow> (empty_usage, a(name \<mapsto> empty_usage)))"

definition reserveUpload :: "time \<Rightarrow> admissionController \<Rightarrow> string \<Rightarrow> int \<Rightarrow> bool \<times> admissionController" where
  "reserveUpload now a name sz =
     (let (usage, a) = owner a name;
          usage = usage\<lparr>ou_uploads := recent (ou_uploads usage) (now - time_Hour)\<rparr>
      in if wrap64 (ou_bytes usage + sz) > maxOwnerStorage
            \<or> ou_documents usage \<ge> maxOwnerDocuments
            \<or> int (length (ou_uploads usage)) \<ge> maxUploadsPerHour
         then (False, a(name \<mapsto> usage))
         else (True, a(name \<mapsto> usage\<lparr>ou_bytes := wrap64 (ou_bytes usage + sz),
                                  ou_documents := wrap64 (ou_documents usage + 1),
                                  ou_uploads := ou_uploads usage @ [now]\<rparr>)))"

definition releaseUpload :: "admissionController \<Rightarrow> string \<Rightarrow> int \<Rightarrow> admissionController" where
  "releaseUpload a name sz =
     (let (usage, a) = owner a name
      in a(name \<mapsto> usage\<lparr>ou_bytes := wrap64 (ou_bytes usage - sz),
                        ou_documents := wrap64 (ou_documents usage - 1)\<rparr>))"

definition beginAnswer :: "time \<Rightarrow> admissionController \<Rightarrow> string \<Rightarrow> bool \<times> admissionController" where
  "beginAnswer now a name =
     (let (usage, a) = owner a name;
          usage = usage\<lparr>ou_answers := recent (ou_answers usage) (now - 24 * time_Hour)\<rparr>
      in if ou_active usage \<ge> maxActiveAnswers
            \<or> int (length (ou_answers usage)) \<ge> maxAnswersPerDay
         then (False, a(name \<mapsto> usage))
         else (True, a(name \<mapsto> usage\<lparr>ou_active := wrap64 (ou_active usage + 1),
                                  ou_answers := ou_answers usage @ [now]\<rparr>)))"

definition endAnswer :: "admissionController \<Rightarrow> string \<Rightarrow> admissionController" where
  "endAnswer a name =
     (let (usage, a) = owner a name
      in a(name \<mapsto> (if ou_active usage > 0
                    then usage\<lparr>ou_active := wrap64 (ou_active usage - 1)\<rparr> else usage)))"

section \<open>Sequences of calls\<close>

datatype admissionCall = Reserve string int | Release string int | Begin string | End string

fun admission_step :: "time \<Rightarrow> admissionCall \<Rightarrow> admissionController \<Rightarrow> bool \<times> admissionController" where
  "admission_step now (Reserve name sz) a = reserveUpload now a name sz"
| "admission_step now (Release name sz) a = (False, releaseUpload a name sz)"
| "admission_step now (Begin name) a = beginAnswer now a name"
| "admission_step now (End name) a = (False, endAnswer a name)"

definition usage_of :: "admissionController \<Rightarrow> string \<Rightarrow> ownerUsage" where
  "usage_of a name = (case a name of None \<Rightarrow> empty_usage | Some usage \<Rightarrow> usage)"

lemma owner_eq: "fst (owner a name) = usage_of a name"
  by (simp add: owner_def usage_of_def split: option.splits)

lemma usage_of_owner_upd [simp]:
  "usage_of ((snd (owner a name))(name \<mapsto> u)) name' = (if name' = name then u else usage_of a name')"
  by (simp add: owner_def usage_of_def split: option.splits)

lemma usage_of_new [simp]: "usage_of newAdmissionController name = empty_usage"
  by (simp add: usage_of_def newAdmissionController_def)

lemma empty_usage_simps [simp]:
  "ou_bytes empty_usage = 0" "ou_documents empty_usage = 0" "ou_uploads empty_usage = []"
  "ou_answers empty_usage = []" "ou_active empty_usage = 0"
  by (simp_all add: empty_usage_def)

lemmas admission_defs = reserveUpload_def releaseUpload_def beginAnswer_def endAnswer_def

fun is_reserve :: "string \<Rightarrow> admissionCall \<Rightarrow> bool" where
  "is_reserve name (Reserve n _) = (n = name)"
| "is_reserve name _ = False"

fun is_begin :: "string \<Rightarrow> admissionCall \<Rightarrow> bool" where
  "is_begin name (Begin n) = (n = name)"
| "is_begin name _ = False"

interpretation upl: log_limiter recent admission_step
    "\<lambda>a. ou_uploads (usage_of a name)" "is_reserve name" 10 time_Hour for name
proof unfold_locales
  fix e :: admissionCall and now s s'
  assume "is_reserve name e" "admission_step now e s = (True, s')"
  then show "length (recent (ou_uploads (usage_of s name)) (now - time_Hour)) < 10 \<and>
      ou_uploads (usage_of s' name) = recent (ou_uploads (usage_of s name)) (now - time_Hour) @ [now]"
    by (cases e) (auto simp: admission_defs Let_def case_prod_beta owner_eq quota_limits split: if_splits)
next
  fix b and e :: admissionCall and now s s'
  assume "\<not> (b \<and> is_reserve name e)" "admission_step now e s = (b, s')"
  then show "ou_uploads (usage_of s' name) = ou_uploads (usage_of s name) \<or>
      (\<exists>since \<le> now - time_Hour. ou_uploads (usage_of s' name) = recent (ou_uploads (usage_of s name)) since)"
    by (cases e) (auto simp: admission_defs Let_def case_prod_beta owner_eq split: if_splits)
qed

interpretation ansl: log_limiter recent admission_step
    "\<lambda>a. ou_answers (usage_of a name)" "is_begin name" 100 "24 * time_Hour" for name
proof unfold_locales
  fix e :: admissionCall and now s s'
  assume "is_begin name e" "admission_step now e s = (True, s')"
  then show "length (recent (ou_answers (usage_of s name)) (now - 24 * time_Hour)) < 100 \<and>
      ou_answers (usage_of s' name) = recent (ou_answers (usage_of s name)) (now - 24 * time_Hour) @ [now]"
    by (cases e) (auto simp: admission_defs Let_def case_prod_beta owner_eq quota_limits split: if_splits)
next
  fix b and e :: admissionCall and now s s'
  assume "\<not> (b \<and> is_begin name e)" "admission_step now e s = (b, s')"
  then show "ou_answers (usage_of s' name) = ou_answers (usage_of s name) \<or>
      (\<exists>since \<le> now - 24 * time_Hour. ou_answers (usage_of s' name) = recent (ou_answers (usage_of s name)) since)"
    by (cases e) (auto simp: admission_defs Let_def case_prod_beta owner_eq split: if_splits)
qed

text \<open>However uploads, releases and answers of all owners are interleaved, an owner gets at
  most 10 uploads admitted in any period of one hour, provided the clock does not go back.\<close>

theorem uploads_per_hour:
  assumes "sorted (map fst calls)"
  shows "length (filter (\<lambda>t. a \<le> t \<and> t \<le> a + time_Hour)
           (admitted admission_step (is_reserve name) calls newAdmissionController)) \<le> 10"
  using assms by (intro upl.admitted_bound) simp_all

text \<open>Likewise at most 100 answers in any period of 24 hours.\<close>

theorem answers_per_day:
  assumes "sorted (map fst calls)"
  shows "length (filter (\<lambda>t. a \<le> t \<and> t \<le> a + 24 * time_Hour)
           (admitted admission_step (is_begin name) calls newAdmissionController)) \<le> 100"
  using assms by (intro ansl.admitted_bound) simp_all

text \<open>A run of eleven uploads in one second, of which ten are admitted, and a twelfth an hour
  later.\<close>

definition burst :: "(time \<times> admissionCall) list" where
  "burst = replicate 11 (5, Reserve ''o'' 7) @ [(5 + time_Hour + 1, Reserve ''o'' 7)]"

lemma uploads_per_hour_witness:
  "sorted (map fst burst) \<and>
   length (filter (\<lambda>t. 5 \<le> t \<and> t \<le> 5 + time_Hour)
     (admitted admission_step (is_reserve ''o'') burst newAdmissionController)) \<le> 10"
proof -
  have h: "sorted (map fst burst)" by (simp add: burst_def sorted_append)
  show ?thesis using h uploads_per_hour [OF h, of 5 "''o''"] by simp
qed

lemma answers_per_day_witness:
  "sorted (map fst [(3, Begin ''o'')]) \<and>
   length (filter (\<lambda>t. 0 \<le> t \<and> t \<le> 0 + 24 * time_Hour)
     (admitted admission_step (is_begin ''o'') [(3, Begin ''o'')] newAdmissionController)) \<le> 100"
proof -
  have h: "sorted (map fst [(3 :: time, Begin ''o'')])" by simp
  show ?thesis using h answers_per_day [OF h, of 0 "''o''"] by simp
qed

section \<open>What an owner holds\<close>

fun run_calls :: "(time \<times> admissionCall) list \<Rightarrow> admissionController \<Rightarrow> admissionController" where
  "run_calls [] a = a"
| "run_calls ((now, c) # cs) a = run_calls cs (snd (admission_step now c a))"

text \<open>The sizes an owner holds after a run: the admitted reservations that have not been
  released. It is \<open>None\<close> when the run releases something that is not held.\<close>

fun held :: "string \<Rightarrow> (time \<times> admissionCall) list \<Rightarrow> admissionController \<Rightarrow> int list \<Rightarrow> int list option" where
  "held name [] a h = Some h"
| "held name ((now, c) # cs) a h =
     (case admission_step now c a of (granted, a') \<Rightarrow>
        (case c of
           Reserve n sz \<Rightarrow> held name cs a' (if n = name \<and> granted then sz # h else h)
         | Release n sz \<Rightarrow>
             (if n = name
              then (if sz \<in> set h then held name cs a' (remove1 sz h) else None)
              else held name cs a' h)
         | _ \<Rightarrow> held name cs a' h))"

fun call_size_ok :: "admissionCall \<Rightarrow> bool" where
  "call_size_ok (Reserve _ sz) = (0 \<le> sz \<and> sz \<le> maxInt64_minus_storage)"
| "call_size_ok _ = True"

definition books_match :: "int list \<Rightarrow> ownerUsage \<Rightarrow> bool" where
  "books_match h u \<longleftrightarrow>
     ou_bytes u = sum_list h \<and> ou_documents u = int (length h) \<and>
     sum_list h \<le> maxOwnerStorage \<and> int (length h) \<le> maxOwnerDocuments \<and> list_all (\<lambda>x. 0 \<le> x) h"

lemma sum_list_nonneg_int: "list_all (\<lambda>x. 0 \<le> x) h \<Longrightarrow> (0 :: int) \<le> sum_list h"
  by (induction h) auto

lemma sum_list_remove1: "x \<in> set h \<Longrightarrow> sum_list (remove1 x h) = sum_list h - (x :: int)"
  by (induction h) auto

lemma list_all_remove1: "list_all P h \<Longrightarrow> list_all P (remove1 x h)"
  using set_remove1_subset [of x h] by (auto simp: list_all_iff)

lemma books_match_reserve:
  assumes "books_match h (usage_of a n)" "call_size_ok (Reserve n sz)" "reserveUpload now a n sz = (b, a')"
  shows "books_match (if b then sz # h else h) (usage_of a' n)"
proof -
  have "0 \<le> sum_list h" using assms(1) by (auto simp: books_match_def intro: sum_list_nonneg_int)
  then have "is_int64 (sum_list h + sz)" "is_int64 (int (length h) + 1)"
    using assms(1,2) by (auto simp: books_match_def is_int64_def quota_limits maxInt64_minus_storage_def)
  with assms show ?thesis
    by (auto simp: reserveUpload_def Let_def case_prod_beta owner_eq books_match_def quota_limits
        split: if_splits)
qed

lemma books_match_release:
  assumes "books_match h (usage_of a n)" "sz \<in> set h"
  shows "books_match (remove1 sz h) (usage_of (releaseUpload a n sz) n)"
proof -
  have "0 \<le> sum_list (remove1 sz h)" "0 \<le> sz" "1 \<le> length h"
    using assms by (auto simp: books_match_def list_all_iff Suc_le_eq
        intro!: sum_list_nonneg_int [OF list_all_remove1])
  then have "is_int64 (sum_list h - sz)" "is_int64 (int (length h) - 1)"
    using assms by (auto simp: books_match_def is_int64_def quota_limits sum_list_remove1)
  with assms \<open>0 \<le> sz\<close> \<open>1 \<le> length h\<close> show ?thesis
    by (auto simp: releaseUpload_def Let_def case_prod_beta owner_eq books_match_def
        sum_list_remove1 length_remove1 of_nat_diff list_all_remove1)
qed

fun is_release :: "string \<Rightarrow> admissionCall \<Rightarrow> bool" where
  "is_release name (Release n _) = (n = name)"
| "is_release name _ = False"

lemma books_match_frame:
  assumes "admission_step now c a = (b, a')" "\<not> is_reserve name c" "\<not> is_release name c"
  shows "books_match h (usage_of a' name) = books_match h (usage_of a name)"
  using assms
  by (cases c) (auto simp: admission_defs Let_def case_prod_beta owner_eq books_match_def split: if_splits)

lemma held_books_match:
  "books_match h (usage_of a name) \<Longrightarrow> list_all (call_size_ok \<circ> snd) calls \<Longrightarrow>
     held name calls a h = Some h' \<Longrightarrow> books_match h' (usage_of (run_calls calls a) name)"
proof (induction calls arbitrary: a h)
  case (Cons tc cs)
  obtain now c where tc: "tc = (now, c)" by force
  obtain b a' where st: "admission_step now c a = (b, a')" by force
  note IH = Cons.IH [of _ a'] and prems = Cons.prems [unfolded tc]
  consider (reserve) sz where "c = Reserve name sz" | (release) sz where "c = Release name sz"
    | (other) "\<not> is_reserve name c" "\<not> is_release name c"
    by (cases c) auto
  then show ?case
  proof cases
    case reserve
    with prems st have "books_match (if b then sz # h else h) (usage_of a' name)"
      by (intro books_match_reserve) auto
    with IH prems reserve st tc show ?thesis by auto
  next
    case release
    with prems st have "sz \<in> set h" "a' = releaseUpload a name sz" by (auto split: if_splits)
    with books_match_release prems(1) have "books_match (remove1 sz h) (usage_of a' name)" by auto
    with IH prems release st tc show ?thesis by (auto split: if_splits)
  next
    case other
    with books_match_frame [OF st] prems(1) have "books_match h (usage_of a' name)" by blast
    with IH prems other st tc show ?thesis
      by (cases c) (auto split: if_splits)
  qed
qed simp

text \<open>In any run in which an owner releases only what it holds, the controller's counters
  are exactly the bytes and documents the owner holds, and these never exceed 10 GiB and 1000
  documents. Sizes are those for which the admission test does not overflow.\<close>

theorem storage_within_limits:
  assumes "list_all (call_size_ok \<circ> snd) calls"
    and "held name calls newAdmissionController [] = Some h"
  shows "ou_bytes (usage_of (run_calls calls newAdmissionController) name) = sum_list h \<and>
         ou_documents (usage_of (run_calls calls newAdmissionController) name) = int (length h) \<and>
         sum_list h \<le> maxOwnerStorage \<and> int (length h) \<le> maxOwnerDocuments"
proof -
  have "books_match [] (usage_of newAdmissionController name)"
    by (simp add: books_match_def quota_limits)
  then show ?thesis using held_books_match [OF _ assms] by (auto simp: books_match_def)
qed

definition hold_and_release :: "(time \<times> admissionCall) list" where
  "hold_and_release =
     [(1, Reserve ''o'' 100), (2, Begin ''o''), (3, Reserve ''o'' 50), (4, Release ''o'' 100)]"

lemma storage_within_limits_witness:
  "held ''o'' hold_and_release newAdmissionController [] = Some [50] \<and>
   ou_bytes (usage_of (run_calls hold_and_release newAdmissionController) ''o'') = 50"
proof -
  have h: "held ''o'' hold_and_release newAdmissionController [] = Some [50]"
    by (simp add: hold_and_release_def admission_defs owner_def newAdmissionController_def
        empty_usage_def quota_limits is_int64_def)
  have s: "list_all (call_size_ok \<circ> snd) hold_and_release"
    by (simp add: hold_and_release_def maxInt64_minus_storage_def quota_limits)
  show ?thesis using h storage_within_limits [OF s h] by simp
qed

definition active_ok :: "ownerUsage \<Rightarrow> bool" where
  "active_ok u \<longleftrightarrow> 0 \<le> ou_active u \<and> ou_active u \<le> maxActiveAnswers"

lemma active_step:
  "active_ok (usage_of a name) \<Longrightarrow> active_ok (usage_of (snd (admission_step now c a)) name)"
  by (cases c)
    (auto simp: active_ok_def admission_defs Let_def case_prod_beta owner_eq quota_limits is_int64_def
      split: if_splits)

text \<open>Whatever the order of the calls, and even with answers ended more than once, an owner's
  count of running answers stays between 0 and 2.\<close>

theorem active_answers_bounded:
  "0 \<le> ou_active (usage_of (run_calls calls newAdmissionController) name) \<and>
   ou_active (usage_of (run_calls calls newAdmissionController) name) \<le> maxActiveAnswers"
proof -
  have "active_ok (usage_of a name) \<Longrightarrow> active_ok (usage_of (run_calls calls a) name)" for a
    by (induction calls arbitrary: a) (auto simp: active_step)
  then show ?thesis by (simp add: active_ok_def quota_limits)
qed

end
