(* ===== verification/Rate_Limit.thy ===== *)
theory Rate_Limit
  imports Sliding_Window "HOL-Library.Finite_Map"
begin

text \<open>
  Rate limiting: the shared table of fixed-window buckets behind
  \<^verbatim>\<open>postgresDocumentStore.AllowRate\<close> (\<^verbatim>\<open>api/database.go\<close>) and the database branch of
  \<^verbatim>\<open>authRateLimiter.allow\<close> (\<^verbatim>\<open>api/auth_limiter.go\<close>), which run the same statement, and the
  in-memory branch of the latter. The locale \<open>rate_limiter\<close> is what their callers rely on;
  both limiters interpret it.
\<close>

section \<open>Limits\<close>

definition authRegisterIPLimit :: int where "authRegisterIPLimit = 3"
definition authRegisterAccountLimit :: int where "authRegisterAccountLimit = 3"
definition authLoginIPLimit :: int where "authLoginIPLimit = 10"
definition authLoginAccountLimit :: int where "authLoginAccountLimit = 5"
definition authRegisterWindow :: duration where "authRegisterWindow = time_Hour"
definition authLoginWindow :: duration where "authLoginWindow = 15 * time_Minute"
definition maxAuthRateEntries :: nat where "maxAuthRateEntries = 10000"

lemmas auth_limits =
  authRegisterIPLimit_def authRegisterAccountLimit_def authLoginIPLimit_def authLoginAccountLimit_def
  authRegisterWindow_def authLoginWindow_def

section \<open>The bucket table\<close>

record rateLimitBucket =
  rl_Kind :: string
  rl_Key :: string
  rl_WindowStart :: time
  rl_Count :: int

definition bucket_key :: "rateLimitBucket \<Rightarrow> string \<times> string \<times> time" where
  "bucket_key r = (rl_Kind r, rl_Key r, rl_WindowStart r)"

text \<open>INSERT ... VALUES (kind, key, window_start, 1) ON CONFLICT DO UPDATE SET count = count + 1
  WHERE count < limit; the result is whether exactly one row was affected. The bucket's primary
  key makes the conflicting row unique.\<close>

definition AllowRate :: "string \<Rightarrow> string \<Rightarrow> int \<Rightarrow> duration \<Rightarrow> time \<Rightarrow> rateLimitBucket list \<Rightarrow>
    bool \<times> rateLimitBucket list" where
  "AllowRate kind key limit window now t =
     (let windowStart = Truncate now window;
          conflict = (\<lambda>r. bucket_key r = (kind, key, windowStart))
      in if rows_affected conflict t = 0
         then (True, t @ [\<lparr>rl_Kind = kind, rl_Key = key, rl_WindowStart = windowStart, rl_Count = 1\<rparr>])
         else (let hit = (\<lambda>r. conflict r \<and> rl_Count r < limit)
               in (rows_affected hit t = 1, update_where hit (\<lambda>r. r\<lparr>rl_Count := rl_Count r + 1\<rparr>) t)))"

section \<open>The in-memory limiter\<close>

type_synonym attempts = "(string, time list) fmap"

text \<open>The loop over \<^verbatim>\<open>l.attempts\<close> that prunes every entry and deletes the emptied ones; its
  result does not depend on Go's map order.\<close>

definition purge :: "time \<Rightarrow> attempts \<Rightarrow> attempts" where
  "purge since l =
     fmfilter (\<lambda>name. case fmlookup l name of Some values \<Rightarrow> recent values since \<noteq> [] | None \<Rightarrow> False)
       (fmmap (\<lambda>values. recent values since) l)"

definition attempts_of :: "attempts \<Rightarrow> string \<Rightarrow> time list" where
  "attempts_of l name = (case fmlookup l name of Some values \<Rightarrow> values | None \<Rightarrow> [])"

definition allow_memory :: "string \<Rightarrow> string \<Rightarrow> int \<Rightarrow> duration \<Rightarrow> time \<Rightarrow> attempts \<Rightarrow> bool \<times> attempts" where
  "allow_memory kind key limit window now l =
     (let since = now - window;
          l = purge since l;
          name = kind @ '':'' @ key;
          values = recent (attempts_of l name) since
      in if int (length values) \<ge> limit then (False, fmupd name values l)
         else if values = [] \<and> fcard (fmdom l) \<ge> maxAuthRateEntries then (False, l)
         else (True, fmupd name (values @ [now]) l))"

text \<open>\<^verbatim>\<open>allow\<close> itself: with a database the shared table decides, and a failed statement refuses;
  without one the process-local log does.\<close>

datatype authRateLimiter = WithDatabase "rateLimitBucket list" | InMemory attempts

definition newAuthRateLimiter :: "rateLimitBucket list option \<Rightarrow> authRateLimiter" where
  "newAuthRateLimiter database = (case database of Some t \<Rightarrow> WithDatabase t | None \<Rightarrow> InMemory fmempty)"

definition allow :: "bool \<Rightarrow> string \<Rightarrow> string \<Rightarrow> int \<Rightarrow> duration \<Rightarrow> time \<Rightarrow> authRateLimiter \<Rightarrow>
    bool \<times> authRateLimiter" where
  "allow database_up kind key limit window now l =
     (case l of
        WithDatabase t \<Rightarrow>
          (if database_up
           then (case AllowRate kind key limit window now t of (granted, t') \<Rightarrow> (granted, WithDatabase t'))
           else (False, l))
      | InMemory m \<Rightarrow>
          (case allow_memory kind key limit window now m of (granted, m') \<Rightarrow> (granted, InMemory m')))"

section \<open>What the callers rely on\<close>

text \<open>\<open>used now k s\<close> is what the limiter has counted for \<open>k\<close> at time \<open>now\<close>. A grant needs
  room and takes one place; a refusal and a call for another key take none.\<close>

locale rate_limiter =
  fixes try_allow :: "time \<Rightarrow> 'k \<Rightarrow> 's \<Rightarrow> bool \<times> 's"
    and used :: "time \<Rightarrow> 'k \<Rightarrow> 's \<Rightarrow> int"
    and capacity :: int
    and invar :: "'s \<Rightarrow> bool"
  assumes grant: "invar s \<Longrightarrow> try_allow now k s = (True, s') \<Longrightarrow>
      used now k s < capacity \<and> used now k s' = used now k s + 1"
    and refuse: "invar s \<Longrightarrow> try_allow now k s = (False, s') \<Longrightarrow> used now k s' = used now k s"
    and other_key: "invar s \<Longrightarrow> k \<noteq> k' \<Longrightarrow> try_allow now k s = (b, s') \<Longrightarrow> used now k' s' = used now k' s"
    and invar_step: "invar s \<Longrightarrow> try_allow now k s = (b, s') \<Longrightarrow> invar s'"
    and used_nonneg: "invar s \<Longrightarrow> 0 \<le> used now k s"
begin

text \<open>Of simultaneous calls for any keys, at most the free places of a key are granted to it.\<close>

fun burst :: "time \<Rightarrow> 'k \<Rightarrow> 'k list \<Rightarrow> 's \<Rightarrow> int" where
  "burst now k [] s = 0"
| "burst now k (k' # ks) s =
     (case try_allow now k' s of (granted, s') \<Rightarrow>
        (if granted \<and> k' = k then 1 else 0) + burst now k ks s')"

lemma burst_bound:
  "invar s \<Longrightarrow> used now k s \<le> capacity \<Longrightarrow> used now k s + burst now k ks s \<le> capacity"
proof (induction ks arbitrary: s)
  case (Cons k' ks)
  obtain b s' where st: "try_allow now k' s = (b, s')" by force
  with Cons.prems invar_step have inv: "invar s'" by blast
  have "used now k s' = used now k s + (if b \<and> k' = k then 1 else 0) \<and> used now k s' \<le> capacity"
    using st grant [of s now k s'] refuse [of s now k s'] other_key [of s k' k now b s'] Cons.prems
    by (cases b; cases "k' = k") auto
  with Cons.IH [OF inv] st show ?case by (simp add: algebra_simps)
qed simp

end

subsection \<open>The bucket table\<close>

definition bucket_count :: "string \<times> string \<times> time \<Rightarrow> rateLimitBucket list \<Rightarrow> int" where
  "bucket_count k t = sum_where (\<lambda>r. bucket_key r = k) rl_Count t"

definition buckets_ok :: "rateLimitBucket list \<Rightarrow> bool" where
  "buckets_ok t \<longleftrightarrow> distinct (map bucket_key t) \<and> list_all (\<lambda>r. 1 \<le> rl_Count r) t"

lemma bucket_key_update [simp]: "bucket_key (r\<lparr>rl_Count := n\<rparr>) = bucket_key r"
  by (simp add: bucket_key_def)

lemma bucket_count_row:
  "buckets_ok t \<Longrightarrow> r \<in> set t \<Longrightarrow> bucket_count (bucket_key r) t = rl_Count r"
  using filter_unique_key [of bucket_key t r "\<lambda>x. bucket_key x = bucket_key r"]
  by (simp add: bucket_count_def sum_where_def buckets_ok_def)

lemma bucket_count_nonneg: "buckets_ok t \<Longrightarrow> 0 \<le> bucket_count k t"
  by (auto simp: bucket_count_def buckets_ok_def list_all_iff intro!: sum_where_nonneg)

text \<open>One call, in terms of the counts: granted when the bucket is new or below the limit, and then
  its count goes up by one; nothing else changes.\<close>

lemma AllowRate_effect:
  assumes ok: "buckets_ok t" and call: "AllowRate kind key limit window now t = (b, t')"
  defines "k \<equiv> (kind, key, Truncate now window)"
  shows "(b \<longleftrightarrow> bucket_count k t = 0 \<or> bucket_count k t < limit) \<and> buckets_ok t' \<and>
         bucket_count k' t' = bucket_count k' t + (if b \<and> k' = k then 1 else 0)"
proof (cases "\<exists>r \<in> set t. bucket_key r = k")
  case False
  then have none: "rows_affected (\<lambda>r. bucket_key r = k) t = 0" by (simp add: rows_affected_0)
  then have b: "b" and t': "t' = t @ [\<lparr>rl_Kind = kind, rl_Key = key,
      rl_WindowStart = Truncate now window, rl_Count = 1\<rparr>]"
    using call by (auto simp: AllowRate_def k_def)
  from False have "filter (\<lambda>r. bucket_key r = k) t = []" by (simp add: filter_empty_conv)
  then have "bucket_count k t = 0" by (simp add: bucket_count_def sum_where_def)
  moreover have "k \<notin> bucket_key ` set t" using False by auto
  ultimately show ?thesis using b t' ok
    by (auto simp: buckets_ok_def bucket_count_def bucket_key_def k_def)
next
  case True
  then obtain r where r: "r \<in> set t" "bucket_key r = k" by blast
  let ?hit = "\<lambda>x. bucket_key x = k \<and> rl_Count x < limit"
  from True have "rows_affected (\<lambda>r. bucket_key r = k) t \<noteq> 0" by (auto simp: rows_affected_0)
  then have b: "b = (rows_affected ?hit t = 1)" and t': "t' = update_where ?hit (\<lambda>r. r\<lparr>rl_Count := rl_Count r + 1\<rparr>) t"
    using call by (auto simp: AllowRate_def Let_def k_def)
  have cnt: "bucket_count k t = rl_Count r" and pos: "1 \<le> rl_Count r"
    using bucket_count_row [OF ok r(1)] r ok by (auto simp: buckets_ok_def list_all_iff)
  have dist: "distinct (map bucket_key t)" using ok by (simp add: buckets_ok_def)
  have row: "x = r" if "x \<in> set t" "bucket_key x = k" for x
    using same_key_same_row [OF dist that(1) r(1)] that(2) r(2) by simp
  show ?thesis
  proof (cases "rl_Count r < limit")
    case True
    then have "rows_affected ?hit t = 1"
      using r by (subst rows_affected_1_iff [OF dist]) auto
    with b have "b" by simp
    have "t' = update_where (\<lambda>x. bucket_key x = bucket_key r) (\<lambda>r. r\<lparr>rl_Count := rl_Count r + 1\<rparr>) t"
      unfolding t' by (rule update_where_cong) (use row r(2) True in auto)
    then have "bucket_count k' t' = bucket_count k' t + (if k' = k then 1 else 0)"
      using sum_where_update_key [OF dist r(1)] r(2) by (auto simp: bucket_count_def)
    moreover have "buckets_ok t'"
      using ok unfolding t'
      by (fastforce simp: buckets_ok_def map_update_where_key list_all_iff in_update_where)
    ultimately show ?thesis using \<open>b\<close> True cnt by auto
  next
    case False
    then have none: "\<And>x. x \<in> set t \<Longrightarrow> \<not> ?hit x" using row by auto
    then have "t' = t" unfolding t' by (rule update_where_unaffected)
    moreover have "\<not> b" using none b by (auto simp: rows_affected_def filter_empty_conv)
    ultimately show ?thesis using ok False cnt pos by auto
  qed
qed

text \<open>The two quotas that \<^verbatim>\<open>api/documents.go\<close> enforces through the table.\<close>

interpretation upload_rate: rate_limiter
    "\<lambda>now key. AllowRate ''upload-owner'' key 10 time_Hour now"
    "\<lambda>now key. bucket_count (''upload-owner'', key, Truncate now time_Hour)" 10 buckets_ok
  by unfold_locales (auto dest!: AllowRate_effect [rotated] simp: bucket_count_nonneg split: if_splits)

interpretation answer_rate: rate_limiter
    "\<lambda>now key. AllowRate ''answer-owner'' key 100 (24 * time_Hour) now"
    "\<lambda>now key. bucket_count (''answer-owner'', key, Truncate now (24 * time_Hour))" 100 buckets_ok
  by unfold_locales (auto dest!: AllowRate_effect [rotated] simp: bucket_count_nonneg split: if_splits)

section \<open>Fixed windows over time\<close>

datatype rateCall = RateCall string string int duration

fun rate_step :: "time \<Rightarrow> rateCall \<Rightarrow> rateLimitBucket list \<Rightarrow> bool \<times> rateLimitBucket list" where
  "rate_step now (RateCall kind key limit window) t = AllowRate kind key limit window now t"

fun is_call :: "string \<Rightarrow> string \<Rightarrow> rateCall \<Rightarrow> bool" where
  "is_call kind key (RateCall kind' key' _ _) = (kind' = kind \<and> key' = key)"

text \<open>All calls for one kind and key pass the same limit and window, as the program's do.\<close>

definition uniform_calls :: "string \<Rightarrow> string \<Rightarrow> int \<Rightarrow> duration \<Rightarrow> (time \<times> rateCall) list \<Rightarrow> bool" where
  "uniform_calls kind key limit window calls =
     list_all (\<lambda>(_, c). is_call kind key c = (c = RateCall kind key limit window)) calls"

abbreviation in_window :: "duration \<Rightarrow> time \<Rightarrow> time list \<Rightarrow> nat" where
  "in_window window ws ts \<equiv> length (filter (\<lambda>t. Truncate t window = ws) ts)"

lemma window_count:
  "buckets_ok t \<Longrightarrow> bucket_count (kind, key, ws) t \<le> max 1 limit \<Longrightarrow>
     uniform_calls kind key limit window calls \<Longrightarrow>
     bucket_count (kind, key, ws) t + int (in_window window ws (admitted rate_step (is_call kind key) calls t))
       \<le> max 1 limit"
proof (induction calls arbitrary: t)
  case (Cons nc calls)
  obtain now kind' key' limit' window' where nc: "nc = (now, RateCall kind' key' limit' window')"
    by (metis rateCall.exhaust surj_pair)
  obtain b t' where st: "AllowRate kind' key' limit' window' now t = (b, t')" by force
  note eff = AllowRate_effect [OF Cons.prems(1) st]
  let ?mine = "b \<and> is_call kind key (RateCall kind' key' limit' window') \<and> Truncate now window = ws"
  have params: "limit' = limit \<and> window' = window" if "kind' = kind" "key' = key"
    using that Cons.prems(3) nc by (simp add: uniform_calls_def)
  have grow: "bucket_count (kind, key, ws) t' \<le> max 1 limit"
    "bucket_count (kind, key, ws) t + (if ?mine then 1 else 0) \<le> bucket_count (kind, key, ws) t'"
    using eff Cons.prems(2) params by (auto split: if_splits)
  have "bucket_count (kind, key, ws) t' +
      int (in_window window ws (admitted rate_step (is_call kind key) calls t')) \<le> max 1 limit"
    using Cons.IH [of t'] eff grow(1) Cons.prems(3) by (simp add: uniform_calls_def)
  with grow(2) nc st show ?case by (auto split: if_splits)
qed simp

lemma fixed_window_limit:
  assumes "uniform_calls kind key limit window calls"
  shows "int (in_window window ws (admitted rate_step (is_call kind key) calls [])) \<le> max 1 limit"
  using window_count [of "[]" kind key ws limit window calls] assms
  by (simp add: buckets_ok_def bucket_count_def)

text \<open>A half-open period as long as the window meets at most two windows.\<close>

lemma two_windows:
  assumes "0 < window" "a \<le> t" "t < a + window"
  shows "Truncate t window = Truncate a window \<or> Truncate t window = Truncate a window + window"
proof -
  let ?q = "a div window" and ?p = "t div window"
  have a: "a = window * ?q + a mod window" and t: "t = window * ?p + t mod window" by simp_all
  have m: "0 \<le> a mod window" "a mod window < window" "0 \<le> t mod window" "t mod window < window"
    using assms(1) by simp_all
  have "?q \<le> ?p"
  proof (rule ccontr)
    assume "\<not> ?thesis"
    then have "window * (?p + 1) \<le> window * ?q" using assms(1) by (intro mult_left_mono) auto
    then have "window * ?p + window \<le> window * ?q" by (simp only: distrib_left mult_1_right)
    then show False using a t m assms(2) by linarith
  qed
  moreover have "?p \<le> ?q + 1"
  proof (rule ccontr)
    assume "\<not> ?thesis"
    then have "window * (?q + 2) \<le> window * ?p" using assms(1) by (intro mult_left_mono) auto
    then have "window * ?q + window * 2 \<le> window * ?p" by (simp only: distrib_left)
    then show False using a t m assms(3) by linarith
  qed
  ultimately have "?p = ?q \<or> ?p = ?q + 1" by linarith
  then show ?thesis using assms(1)
    by (elim disjE) (simp_all add: Truncate_def minus_mod_eq_mult_div distrib_left)
qed

lemma length_filter_le_split:
  "(\<And>t. P t \<Longrightarrow> Q t \<or> R t) \<Longrightarrow> length (filter P ts) \<le> length (filter Q ts) + length (filter R ts)"
  by (induction ts) auto

text \<open>With the shared table, a key gets at most \<open>max 1 limit\<close> grants per fixed window,
  and so at most twice that in any period as long as the window, in whatever order the calls of
  all keys and replicas arrive.\<close>

theorem rate_limit_per_window:
  assumes "uniform_calls kind key limit window calls" and "0 < window"
  shows "int (in_window window ws (admitted rate_step (is_call kind key) calls [])) \<le> max 1 limit \<and>
         int (length (filter (\<lambda>t. a \<le> t \<and> t < a + window)
           (admitted rate_step (is_call kind key) calls []))) \<le> 2 * max 1 limit"
proof -
  let ?g = "admitted rate_step (is_call kind key) calls []"
  have "length (filter (\<lambda>t. a \<le> t \<and> t < a + window) ?g)
      \<le> in_window window (Truncate a window) ?g + in_window window (Truncate a window + window) ?g"
    by (rule length_filter_le_split) (use two_windows [OF assms(2)] in blast)
  then show ?thesis
    using fixed_window_limit [OF assms(1), of ws] fixed_window_limit [OF assms(1), of "Truncate a window"]
      fixed_window_limit [OF assms(1), of "Truncate a window + window"] by linarith
qed

text \<open>The bound of twice the limit is reached: ten uploads in the last second of an hour and ten
  in the first of the next are all granted.\<close>

definition hour_edge :: "(time \<times> rateCall) list" where
  "hour_edge =
     replicate 10 (time_Hour - time_Second, RateCall ''upload-owner'' ''o'' 10 time_Hour) @
     replicate 10 (time_Hour, RateCall ''upload-owner'' ''o'' 10 time_Hour)"

lemma hour_edge_uniform: "uniform_calls ''upload-owner'' ''o'' 10 time_Hour hour_edge"
  by (simp add: uniform_calls_def hour_edge_def list_all_iff)

lemma rate_limit_per_window_witness:
  "uniform_calls ''upload-owner'' ''o'' 10 time_Hour hour_edge \<and> (0 :: int) < time_Hour \<and>
   int (in_window time_Hour 0 (admitted rate_step (is_call ''upload-owner'' ''o'') hour_edge [])) \<le> 10"
  using rate_limit_per_window [OF hour_edge_uniform, of 0] hour_edge_uniform by simp

text \<open>The limit of ten uploads an hour is one per clock hour, not per sliding hour: twenty
  uploads two seconds apart at the edge of an hour are all granted.\<close>

theorem twenty_uploads_at_hour_edge:
  "admitted rate_step (is_call ''upload-owner'' ''o'') hour_edge [] =
     replicate 10 (time_Hour - time_Second) @ replicate 10 time_Hour"
  by code_simp

end
