(* ===== verification/Auth_Limiter.thy ===== *)
theory Auth_Limiter
  imports Rate_Limit
begin

text \<open>
  The in-memory authentication limiter (\<^verbatim>\<open>allow\<close> of \<^verbatim>\<open>api/auth_limiter.go\<close> without a database) under the
  four uses \<^verbatim>\<open>api/auth.go\<close> makes of it: registrations per address and per account (3 an hour),
  logins per address (10) and per account (5) in 15 minutes. Every call prunes the entries of all
  keys with its own window, which keeps the login limits intact under any mix of traffic and breaks
  the registration limits.
\<close>

section \<open>The four limits\<close>

datatype authKind = RegisterIP | RegisterAccount | LoginIP | LoginAccount

fun kind_name :: "authKind \<Rightarrow> string" where
  "kind_name RegisterIP = ''register-ip''"
| "kind_name RegisterAccount = ''register-account''"
| "kind_name LoginIP = ''login-ip''"
| "kind_name LoginAccount = ''login-account''"

fun kind_limit :: "authKind \<Rightarrow> int" where
  "kind_limit RegisterIP = authRegisterIPLimit"
| "kind_limit RegisterAccount = authRegisterAccountLimit"
| "kind_limit LoginIP = authLoginIPLimit"
| "kind_limit LoginAccount = authLoginAccountLimit"

fun kind_window :: "authKind \<Rightarrow> duration" where
  "kind_window RegisterIP = authRegisterWindow"
| "kind_window RegisterAccount = authRegisterWindow"
| "kind_window LoginIP = authLoginWindow"
| "kind_window LoginAccount = authLoginWindow"

type_synonym authCall = "authKind \<times> string"

definition auth_allow :: "time \<Rightarrow> authCall \<Rightarrow> attempts \<Rightarrow> bool \<times> attempts" where
  "auth_allow now c l =
     allow_memory (kind_name (fst c)) (snd c) (kind_limit (fst c)) (kind_window (fst c)) now l"

definition entry_name :: "authCall \<Rightarrow> string" where
  "entry_name c = kind_name (fst c) @ '':'' @ snd c"

lemma entry_name_inj: "entry_name c = entry_name c' \<longleftrightarrow> c = c'"
  by (cases c; cases c'; cases "fst c"; cases "fst c'") (auto simp: entry_name_def)

lemma entry_name_fold: "kind_name (fst c) @ CHR '':'' # snd c = entry_name c"
  by (simp add: entry_name_def)

lemma kind_limit_pos: "1 \<le> kind_limit k"
  by (cases k) (simp_all add: auth_limits)

lemma login_window_least: "kind_window LoginIP \<le> kind_window k" "kind_window LoginAccount \<le> kind_window k"
  by (cases k; simp add: auth_limits)+

section \<open>One call\<close>

lemma attempts_of_empty [simp]: "attempts_of fmempty name = []"
  by (simp add: attempts_of_def)

lemma attempts_of_upd [simp]:
  "attempts_of (fmupd name vs l) name' = (if name' = name then vs else attempts_of l name')"
  by (simp add: attempts_of_def)

lemma attempts_of_purge [simp]: "attempts_of (purge since l) name = recent (attempts_of l name) since"
  by (auto simp: attempts_of_def purge_def split: option.splits)

text \<open>The pruned log of the entry decides; a grant appends the time, and every other entry is
  only pruned.\<close>

lemma auth_allow_granted:
  "auth_allow now c l = (True, l') \<Longrightarrow>
     int (length (recent (attempts_of l (entry_name c)) (now - kind_window (fst c)))) < kind_limit (fst c) \<and>
     attempts_of l' (entry_name c) =
       recent (attempts_of l (entry_name c)) (now - kind_window (fst c)) @ [now]"
  by (auto simp: auth_allow_def allow_memory_def Let_def recent_recent entry_name_def split: if_splits)

lemma auth_allow_log:
  "auth_allow now c l = (b, l') \<Longrightarrow> \<not> (b \<and> name = entry_name c) \<Longrightarrow>
     attempts_of l' name = recent (attempts_of l name) (now - kind_window (fst c))"
  by (auto simp: auth_allow_def allow_memory_def Let_def recent_recent entry_name_def split: if_splits)

section \<open>Simultaneous calls\<close>

definition auth_used :: "time \<Rightarrow> authCall \<Rightarrow> attempts \<Rightarrow> int" where
  "auth_used now c l = int (length (recent (attempts_of l (entry_name c)) (now - kind_window (fst c))))"

lemma recent_snoc_now: "0 \<le> w \<Longrightarrow> recent (recent vs (now - w) @ [now]) (now - w) = recent vs (now - w) @ [now]"
  by (induction vs) auto

lemma kind_window_nonneg [simp]: "0 \<le> kind_window k"
  by (cases k) (simp_all add: auth_limits)

text \<open>Callers that come at the same instant with the same kind of limit.\<close>

interpretation auth_mem: rate_limiter
    "\<lambda>now key. auth_allow now (k, key)" "\<lambda>now key. auth_used now (k, key)" "kind_limit k" "\<lambda>_. True"
  for k
proof unfold_locales
  fix s now key s'
  assume "auth_allow now (k, key) s = (True, s')"
  from auth_allow_granted [OF this]
  show "auth_used now (k, key) s < kind_limit k \<and> auth_used now (k, key) s' = auth_used now (k, key) s + 1"
    by (auto simp: auth_used_def recent_snoc_now)
next
  fix s now key s'
  assume "auth_allow now (k, key) s = (False, s')"
  from auth_allow_log [OF this] show "auth_used now (k, key) s' = auth_used now (k, key) s"
    by (simp add: auth_used_def recent_recent)
next
  fix s now key key' b s'
  assume "(key :: string) \<noteq> key'" and st: "auth_allow now (k, key) s = (b, s')"
  then have "entry_name (k, key') \<noteq> entry_name (k, key)" by (simp add: entry_name_inj)
  with auth_allow_log [OF st] show "auth_used now (k, key') s' = auth_used now (k, key') s"
    by (simp add: auth_used_def recent_recent)
qed (simp_all add: auth_used_def)

section \<open>Login limits over time\<close>

lemma login_log_granted:
  assumes "e = (k, key)" "auth_allow now e s = (True, s')" "kind_window k = authLoginWindow"
  shows "int (length (recent (attempts_of s (entry_name (k, key))) (now - authLoginWindow))) < kind_limit k \<and>
      attempts_of s' (entry_name (k, key)) =
        recent (attempts_of s (entry_name (k, key))) (now - authLoginWindow) @ [now]"
  using auth_allow_granted [of now e s s'] assms by auto

lemma login_log_other:
  assumes "\<not> (b \<and> e = (k, key))" "auth_allow now e s = (b, s')" "kind_window k = authLoginWindow"
  shows "attempts_of s' (entry_name (k, key)) = attempts_of s (entry_name (k, key)) \<or>
      (\<exists>since \<le> now - authLoginWindow. attempts_of s' (entry_name (k, key)) =
         recent (attempts_of s (entry_name (k, key))) since)"
proof -
  have "attempts_of s' (entry_name (k, key)) =
      recent (attempts_of s (entry_name (k, key))) (now - kind_window (fst e))"
    using assms(1) by (intro auth_allow_log [OF assms(2)]) (auto simp: entry_name_inj)
  moreover have "now - kind_window (fst e) \<le> now - authLoginWindow"
    using login_window_least(1) [of "fst e"] by simp
  ultimately show ?thesis by blast
qed

interpretation login_log: log_limiter recent auth_allow
    "\<lambda>l. attempts_of l (entry_name (LoginIP, ip))" "\<lambda>c. c = (LoginIP, ip)" 10 authLoginWindow for ip
  by unfold_locales
    (use login_log_granted [of _ LoginIP ip] login_log_other [of _ _ LoginIP ip] in
      \<open>simp_all add: authLoginIPLimit_def\<close>)

interpretation account_log: log_limiter recent auth_allow
    "\<lambda>l. attempts_of l (entry_name (LoginAccount, acc))" "\<lambda>c. c = (LoginAccount, acc)" 5 authLoginWindow for acc
  by unfold_locales
    (use login_log_granted [of _ LoginAccount acc] login_log_other [of _ _ LoginAccount acc] in
      \<open>simp_all add: authLoginAccountLimit_def\<close>)

text \<open>C36: without a database, and whatever registrations and logins for other addresses and accounts
  are mixed in, an address gets at most 10 login attempts and an account at most 5 in any
  15 minutes, provided the clock does not go back.\<close>

theorem login_attempts_bounded:
  assumes "sorted (map fst calls)"
  shows "length (filter (\<lambda>t. a \<le> t \<and> t \<le> a + authLoginWindow)
           (admitted auth_allow (\<lambda>c. c = (LoginIP, ip)) calls fmempty)) \<le> 10 \<and>
         length (filter (\<lambda>t. a \<le> t \<and> t \<le> a + authLoginWindow)
           (admitted auth_allow (\<lambda>c. c = (LoginAccount, acc)) calls fmempty)) \<le> 5"
  using login_log.admitted_bound [where s = fmempty] account_log.admitted_bound [where s = fmempty] assms by simp

lemma login_attempts_bounded_witness:
  "sorted (map fst [(1 :: time, (LoginIP, ''a''))]) \<and>
   length (filter (\<lambda>t. 0 \<le> t \<and> t \<le> 0 + authLoginWindow)
     (admitted auth_allow (\<lambda>c. c = (LoginIP, ''a'')) [(1, (LoginIP, ''a''))] fmempty)) \<le> 10"
proof -
  have h: "sorted (map fst [(1 :: time, (LoginIP, ''a''))])" by simp
  show ?thesis using h login_attempts_bounded [OF h, of 0 "''a''" "''a''"] by simp
qed

section \<open>Memory\<close>

lemma fcard_fmdom_purge: "fcard (fmdom (purge since l)) \<le> fcard (fmdom l)"
  by (auto simp: purge_def intro!: fcard_mono)

lemma recent_nonempty_in_dom: "recent (attempts_of l name) since \<noteq> [] \<Longrightarrow> name |\<in>| fmdom l"
  by (auto simp: attempts_of_def intro: fmdomI split: option.splits)

section \<open>The limiter as per-key logs\<close>

text \<open>Read without the bound on entries, the limiter is one log per kind and key.\<close>

definition log_allow :: "time \<Rightarrow> authCall \<Rightarrow> (authCall \<Rightarrow> time list) \<Rightarrow> bool \<times> (authCall \<Rightarrow> time list)" where
  "log_allow now c L =
     (let L = (\<lambda>c'. recent (L c') (now - kind_window (fst c)))
      in if int (length (L c)) \<ge> kind_limit (fst c) then (False, L) else (True, L(c := L c @ [now])))"

definition logs_of :: "attempts \<Rightarrow> authCall \<Rightarrow> time list" where
  "logs_of l c = attempts_of l (entry_name c)"

lemma auth_allow_refines_step:
  assumes "fcard (fmdom l) < maxAuthRateEntries" "auth_allow now c l = (b, l')"
  shows "log_allow now c (logs_of l) = (b, logs_of l')"
    and "fcard (fmdom l') \<le> Suc (fcard (fmdom l))"
proof -
  let ?since = "now - kind_window (fst c)"
  have small: "fcard (fmdom (purge ?since l)) < maxAuthRateEntries"
    using assms(1) fcard_fmdom_purge [of ?since l] by linarith
  with assms(2) show "log_allow now c (logs_of l) = (b, logs_of l')"
    by (auto simp: auth_allow_def allow_memory_def log_allow_def logs_of_def Let_def recent_recent
        entry_name_inj entry_name_fold fun_eq_iff split: if_splits)
  have "l' = purge ?since l \<or> (\<exists>vs. l' = fmupd (entry_name c) vs (purge ?since l))"
    using assms(2) by (auto simp: auth_allow_def allow_memory_def Let_def entry_name_def split: if_splits)
  then show "fcard (fmdom l') \<le> Suc (fcard (fmdom l))"
    using fcard_fmdom_purge [of ?since l] fcard_finsert_if [of "entry_name c" "fmdom (purge ?since l)"]
    by (auto split: if_splits)
qed

lemma refines_logs:
  "fcard (fmdom l) + length calls \<le> maxAuthRateEntries \<Longrightarrow>
     admitted auth_allow P calls l = admitted log_allow P calls (logs_of l)"
proof (induction calls arbitrary: l)
  case (Cons tc calls)
  obtain now c where tc: "tc = (now, c)" by (cases tc)
  obtain b l' where st: "auth_allow now c l = (b, l')" by force
  from Cons.prems have "fcard (fmdom l) < maxAuthRateEntries" by simp
  note step = auth_allow_refines_step [OF this st]
  from step(2) Cons.prems have "admitted auth_allow P calls l' = admitted log_allow P calls (logs_of l')"
    by (intro Cons.IH) simp
  with tc st step(1) show ?case by simp
qed simp

text \<open>As long as fewer than 10000 calls have been made, the map of entries with its pruning
  and its deletions behaves as one log per kind and key.\<close>

theorem auth_limiter_refines_logs:
  assumes "fcard (fmdom l) + length calls \<le> maxAuthRateEntries"
  shows "admitted auth_allow P calls l = admitted log_allow P calls (logs_of l)"
  using assms by (rule refines_logs)

definition register_traffic :: "(time \<times> authCall) list" where
  "register_traffic =
     replicate 3 (0, (RegisterIP, ''a'')) @ [(16 * time_Minute, (LoginIP, ''b''))] @
     replicate 3 (16 * time_Minute, (RegisterIP, ''a'')) @ [(32 * time_Minute, (LoginIP, ''b''))] @
     replicate 2 (32 * time_Minute, (RegisterIP, ''a''))"

lemma register_traffic_short: "fcard (fmdom (fmempty :: attempts)) + length register_traffic \<le> maxAuthRateEntries"
  by (simp add: register_traffic_def maxAuthRateEntries_def fcard_fempty)

lemma logs_of_empty [simp]: "logs_of fmempty = (\<lambda>_. [])"
  by (simp add: logs_of_def fun_eq_iff)

lemma auth_limiter_refines_logs_witness:
  "admitted auth_allow (\<lambda>c. c = (LoginIP, ''b'')) register_traffic fmempty =
   admitted log_allow (\<lambda>c. c = (LoginIP, ''b'')) register_traffic (\<lambda>_. [])"
  using auth_limiter_refines_logs [OF register_traffic_short] by simp

lemma register_traffic_logs:
  "admitted log_allow (\<lambda>c. c = (RegisterIP, ''a'')) register_traffic (\<lambda>_. []) =
     [0, 0, 0, 16 * time_Minute, 16 * time_Minute, 16 * time_Minute, 32 * time_Minute, 32 * time_Minute]"
  by (simp add: register_traffic_def log_allow_def auth_limits numeral_3_eq_3 numeral_2_eq_2)

text \<open>Registrations are not limited to 3 an hour per address once logins are mixed in. A
  login attempt from anywhere prunes the registrations older than 15 minutes, and with one every
  16 minutes the same address registers 8 times within 32 minutes.\<close>

theorem login_traffic_resets_registrations:
  "admitted auth_allow (\<lambda>c. c = (RegisterIP, ''a'')) register_traffic fmempty =
     [0, 0, 0, 16 * time_Minute, 16 * time_Minute, 16 * time_Minute, 32 * time_Minute, 32 * time_Minute] \<and>
   authRegisterIPLimit = 3 \<and> authRegisterWindow = 60 * time_Minute"
  using register_traffic_logs by (simp add: refines_logs [OF register_traffic_short] auth_limits)

text \<open>The process-local log never holds more than 10000 entries, whatever keys clients choose,
  so the limiter's memory cannot be exhausted by made-up addresses or accounts.\<close>

theorem attempts_capacity:
  assumes "fcard (fmdom l) \<le> maxAuthRateEntries"
  shows "fcard (fmdom (snd (auth_allow now c l))) \<le> maxAuthRateEntries"
proof -
  let ?since = "now - kind_window (fst c)"
  let ?l = "purge ?since l" and ?name = "entry_name c"
  have le: "fcard (fmdom ?l) \<le> maxAuthRateEntries"
    using fcard_fmdom_purge [of ?since l] assms by linarith
  show ?thesis
  proof (cases "recent (attempts_of ?l ?name) ?since = []")
    case False
    then have "finsert ?name (fmdom ?l) = fmdom ?l"
      using recent_nonempty_in_dom by (metis finsert_absorb)
    with le show ?thesis
      by (auto simp: auth_allow_def allow_memory_def Let_def entry_name_def)
  next
    case True
    then show ?thesis
      using le kind_limit_pos [of "fst c"] fcard_finsert_if [of ?name "fmdom ?l"]
      by (auto simp: auth_allow_def allow_memory_def Let_def entry_name_def)
  qed
qed

lemma attempts_capacity_witness:
  "fcard (fmdom (fmempty :: attempts)) \<le> maxAuthRateEntries \<and>
   fcard (fmdom (snd (auth_allow 0 (LoginIP, ''a'') fmempty))) \<le> maxAuthRateEntries"
proof -
  have h: "fcard (fmdom (fmempty :: attempts)) \<le> maxAuthRateEntries"
    by (simp add: maxAuthRateEntries_def fcard_fempty)
  show ?thesis using h attempts_capacity [OF h, of 0 "(LoginIP, ''a'')"] by simp
qed

end
