(* ===== verification/Database.thy ===== *)
theory Database
  imports Rate_Limit
begin

text \<open>
  The data of \<^verbatim>\<open>api/database.go\<close>: the row structs, the tables of the migrations and the
  errors the store returns. A row struct is a record with the struct's fields, prefixed by the
  table; a column that may be NULL is an option. An operation of the store takes the database and
  returns its error or result together with the database it leaves; \<open>transaction\<close> runs a
  sequence of statements that either commits as a whole or leaves the database as it was. Text
  columns hold strings, time columns nanoseconds (PostgreSQL's rounding to microseconds is not
  modelled).
\<close>

datatype error =
    ErrRecordNotFound            \<comment> \<open>\<^verbatim>\<open>gorm.ErrRecordNotFound\<close>\<close>
  | ErrLeaseLost                 \<comment> \<open>\<^verbatim>\<open>errLeaseLost\<close>\<close>
  | ErrPermanentFailure          \<comment> \<open>\<^verbatim>\<open>errPermanentFailure\<close>\<close>
  | ErrQuotaExceeded             \<comment> \<open>\<^verbatim>\<open>errQuotaExceeded\<close>\<close>
  | ErrReservationUnavailable    \<comment> \<open>"upload reservation is not available"\<close>
  | ErrConstraint                \<comment> \<open>a key, reference or column check of PostgreSQL\<close>
  | ErrOutOfRange                \<comment> \<open>a bigint out of range\<close>
  | ErrUnavailable               \<comment> \<open>the connection or the context failed\<close>

text \<open>The largest file that is taken (\<^verbatim>\<open>api/documents.go\<close>).\<close>

definition maxUploadSize :: int where "maxUploadSize = 20 * 2 ^ 20"

section \<open>Rows\<close>

record document =
  doc_ID :: string
  doc_OwnerID :: string
  doc_OriginalFilename :: string
  doc_StoredPath :: string
  doc_MIMEType :: string
  doc_Size :: int
  doc_PageCount :: "32 word"
  doc_Status :: string
  doc_ExtractedTextPath :: "string option"
  doc_ExtractedText :: "string option"
  doc_Result :: "string option"
  doc_ErrorMessage :: "string option"
  doc_FailureKind :: string
  doc_AttemptCount :: int
  doc_NextAttemptAt :: "time option"
  doc_LeaseToken :: "string option"
  doc_LeaseExpiresAt :: "time option"
  doc_CreatedAt :: time
  doc_UpdatedAt :: time

record documentChunk =
  ch_ID :: string
  ch_DocumentID :: string
  ch_ChunkIndex :: int
  ch_Text :: string
  ch_StartOffset :: "64 word"
  ch_EndOffset :: "64 word"
  ch_PageStart :: "32 word"
  ch_PageEnd :: "32 word"
  ch_Embedding :: string
  ch_CreatedAt :: time

record documentQuestion =
  q_ID :: string
  q_OwnerID :: string
  q_DocumentID :: string
  q_Question :: string
  q_Answer :: string
  q_Sources :: string
  q_CreatedAt :: time

record dbOwnerUsage =
  us_OwnerID :: string
  us_CommittedBytes :: int
  us_CommittedDocuments :: int
  us_ReservedBytes :: int
  us_ReservedDocuments :: int
  us_ActiveAnswers :: int
  us_UpdatedAt :: time

record uploadReservation =
  ur_ID :: string
  ur_OwnerID :: string
  ur_DocumentID :: string
  ur_Bytes :: int
  ur_State :: string
  ur_ExpiresAt :: time
  ur_CreatedAt :: time
  ur_CommittedAt :: "time option"
  ur_ReleasedAt :: "time option"

record answerReservation =
  ar_ID :: string
  ar_OwnerID :: string
  ar_RequestID :: string
  ar_State :: string
  ar_ExpiresAt :: time
  ar_CreatedAt :: time
  ar_FinishedAt :: "time option"

section \<open>The database\<close>

record db =
  documents :: "document list"
  document_chunks :: "documentChunk list"
  document_questions :: "documentQuestion list"
  db_owner_usages :: "dbOwnerUsage list"
  upload_reservations :: "uploadReservation list"
  answer_reservations :: "answerReservation list"
  rate_limit_buckets :: "rateLimitBucket list"

definition empty_db :: db where
  "empty_db = \<lparr>documents = [], document_chunks = [], document_questions = [],
     db_owner_usages = [], upload_reservations = [], answer_reservations = [], rate_limit_buckets = []\<rparr>"

lemma empty_db_simps [simp]:
  "documents empty_db = []" "document_chunks empty_db = []" "document_questions empty_db = []"
  "db_owner_usages empty_db = []" "upload_reservations empty_db = []"
  "answer_reservations empty_db = []" "rate_limit_buckets empty_db = []"
  by (simp_all add: empty_db_def)

type_synonym 'a op = "db \<Rightarrow> (error + 'a) \<times> db"

definition transaction :: "(db \<Rightarrow> error + ('a \<times> db)) \<Rightarrow> 'a op" where
  "transaction f d = (case f d of Inl e \<Rightarrow> (Inl e, d) | Inr (x, d') \<Rightarrow> (Inr x, d'))"

text \<open>An operation whose connection or context may be gone: then it fails and nothing changes.\<close>

definition with_connection :: "bool \<Rightarrow> 'a op \<Rightarrow> 'a op" where
  "with_connection up f d = (if up then f d else (Inl ErrUnavailable, d))"

lemma transaction_error: "transaction f d = (Inl e, d') \<Longrightarrow> d' = d"
  by (auto simp: transaction_def split: sum.splits)

lemma transaction_ok: "transaction f d = (Inr x, d') \<longleftrightarrow> f d = Inr (x, d')"
  by (auto simp: transaction_def split: sum.splits)

section \<open>Statements on the documents table\<close>

text \<open>Deleting documents deletes their chunks and questions too: both tables reference
  documents(id) ON DELETE CASCADE (\<^verbatim>\<open>api/migrations/00002_schema.sql\<close>,
  \<^verbatim>\<open>00005_document_foreign_keys.sql\<close>).\<close>

definition delete_documents :: "(document \<Rightarrow> bool) \<Rightarrow> db \<Rightarrow> db" where
  "delete_documents P d =
     (let gone = set (map doc_ID (filter P (documents d)))
      in d\<lparr>documents := delete_where P (documents d),
           document_chunks := delete_where (\<lambda>c. ch_DocumentID c \<in> gone) (document_chunks d),
           document_questions := delete_where (\<lambda>q. q_DocumentID q \<in> gone) (document_questions d)\<rparr>)"

text \<open>Inserts. What PostgreSQL and pgvector make of the column values themselves (text that is not
  valid UTF-8 or holds a zero byte, a \<^verbatim>\<open>vector(768)\<close> or \<^verbatim>\<open>jsonb\<close> that does not parse, a
  \<^verbatim>\<open>bigint\<close> out of range) is the parameter \<open>accepts\<close>; keys and references are checked
  here.

  Inserting a document: the primary key must be new and, being a uuid, not empty. GORM leaves a field with a default and the
  zero value to the column default, so an empty failure kind becomes \<^verbatim>\<open>retryable\<close>.\<close>

definition insert_document :: "(document \<Rightarrow> bool) \<Rightarrow> document \<Rightarrow> db \<Rightarrow> error + db" where
  "insert_document accepts doc d =
     (if doc_ID doc = [] \<or> doc_ID doc \<in> doc_ID ` set (documents d) \<or> \<not> accepts doc then Inl ErrConstraint
      else Inr (d\<lparr>documents := documents d @
        [doc\<lparr>doc_FailureKind := (if doc_FailureKind doc = '''' then ''retryable'' else doc_FailureKind doc)\<rparr>]\<rparr>))"

text \<open>Inserting chunks one by one: new primary key, new (document, index) pair, existing document.\<close>

definition chunk_key :: "documentChunk \<Rightarrow> string \<times> int" where
  "chunk_key c = (ch_DocumentID c, ch_ChunkIndex c)"

fun insert_chunks :: "(documentChunk \<Rightarrow> bool) \<Rightarrow> documentChunk list \<Rightarrow> db \<Rightarrow> error + db" where
  "insert_chunks accepts [] d = Inr d"
| "insert_chunks accepts (c # cs) d =
     (if ch_ID c \<in> ch_ID ` set (document_chunks d)
         \<or> chunk_key c \<in> chunk_key ` set (document_chunks d)
         \<or> ch_DocumentID c \<notin> doc_ID ` set (documents d)
         \<or> \<not> accepts c
      then Inl ErrConstraint
      else insert_chunks accepts cs (d\<lparr>document_chunks := document_chunks d @ [c]\<rparr>))"

definition insert_question :: "(documentQuestion \<Rightarrow> bool) \<Rightarrow> documentQuestion \<Rightarrow> db \<Rightarrow> error + db" where
  "insert_question accepts q d =
     (if q_ID q \<in> q_ID ` set (document_questions d) \<or> q_DocumentID q \<notin> doc_ID ` set (documents d)
         \<or> \<not> accepts q
      then Inl ErrConstraint
      else Inr (d\<lparr>document_questions := document_questions d @ [q]\<rparr>))"

section \<open>Keys and references\<close>

text \<open>What the schema of \<^verbatim>\<open>api/migrations\<close> enforces on documents, chunks and questions.\<close>

definition keys_ok :: "db \<Rightarrow> bool" where
  "keys_ok d \<longleftrightarrow>
     distinct (map doc_ID (documents d)) \<and>
     [] \<notin> doc_ID ` set (documents d) \<and>
     distinct (map ch_ID (document_chunks d)) \<and>
     distinct (map chunk_key (document_chunks d)) \<and>
     distinct (map q_ID (document_questions d)) \<and>
     ch_DocumentID ` set (document_chunks d) \<subseteq> doc_ID ` set (documents d) \<and>
     q_DocumentID ` set (document_questions d) \<subseteq> doc_ID ` set (documents d)"

lemma keys_ok_empty [simp]: "keys_ok empty_db"
  by (simp add: keys_ok_def)

lemma keys_ok_docs: "keys_ok d \<Longrightarrow> distinct (map doc_ID (documents d))"
  by (simp add: keys_ok_def)

lemma keys_ok_insert_document: "keys_ok d \<Longrightarrow> insert_document accepts doc d = Inr d' \<Longrightarrow> keys_ok d'"
  by (auto simp: keys_ok_def insert_document_def image_subset_iff split: if_splits)

lemma keys_ok_insert_chunks: "keys_ok d \<Longrightarrow> insert_chunks accepts cs d = Inr d' \<Longrightarrow> keys_ok d'"
proof (induction accepts cs d rule: insert_chunks.induct)
  case (2 accepts c cs d)
  from "2.prems"(2) have ok: "ch_ID c \<notin> ch_ID ` set (document_chunks d)"
    "chunk_key c \<notin> chunk_key ` set (document_chunks d)"
    "ch_DocumentID c \<in> doc_ID ` set (documents d)"
    by (auto split: if_splits)
  then have "keys_ok (d\<lparr>document_chunks := document_chunks d @ [c]\<rparr>)"
    using "2.prems"(1) by (auto simp: keys_ok_def)
  with "2.IH" "2.prems"(2) show ?case by (auto split: if_splits)
qed simp

lemma insert_chunks_frame:
  "insert_chunks accepts cs d = Inr d' \<Longrightarrow>
     documents d' = documents d \<and> document_questions d' = document_questions d \<and>
     document_chunks d' = document_chunks d @ cs \<and> db_owner_usages d' = db_owner_usages d \<and>
     upload_reservations d' = upload_reservations d \<and> answer_reservations d' = answer_reservations d \<and>
     rate_limit_buckets d' = rate_limit_buckets d"
  by (induction accepts cs d rule: insert_chunks.induct) (auto split: if_splits)

lemma keys_ok_insert_question: "keys_ok d \<Longrightarrow> insert_question accepts q d = Inr d' \<Longrightarrow> keys_ok d'"
  by (auto simp: keys_ok_def insert_question_def image_subset_iff split: if_splits)

lemma keys_ok_delete_documents:
  assumes ok: "keys_ok d"
  shows "keys_ok (delete_documents P d)"
proof -
  let ?kept = "doc_ID ` {r \<in> set (documents d). \<not> P r}" and ?gone = "doc_ID ` {r \<in> set (documents d). P r}"
  have kept: "i \<in> ?kept" if "i \<in> doc_ID ` set (documents d)" "i \<notin> ?gone" for i
    using that by auto
  have "ch_DocumentID ` {c \<in> set (document_chunks d). ch_DocumentID c \<notin> ?gone} \<subseteq> ?kept"
    "q_DocumentID ` {q \<in> set (document_questions d). q_DocumentID q \<notin> ?gone} \<subseteq> ?kept"
    using ok kept by (auto simp: keys_ok_def image_subset_iff)
  moreover have "[] \<notin> ?kept" using ok by (auto simp: keys_ok_def)
  ultimately show ?thesis using ok
    by (simp add: keys_ok_def delete_documents_def distinct_map_delete_where)
qed

lemma keys_ok_delete_chunks:
  "keys_ok d \<Longrightarrow> keys_ok (d\<lparr>document_chunks := delete_where P (document_chunks d)\<rparr>)"
  by (auto simp: keys_ok_def distinct_map_delete_where)

lemma keys_ok_delete_questions:
  "keys_ok d \<Longrightarrow> keys_ok (d\<lparr>document_questions := delete_where P (document_questions d)\<rparr>)"
  by (auto simp: keys_ok_def distinct_map_delete_where)

lemma keys_ok_update_documents:
  "keys_ok d \<Longrightarrow> (\<And>r. doc_ID (f r) = doc_ID r) \<Longrightarrow>
     keys_ok (d\<lparr>documents := update_where P f (documents d)\<rparr>)"
proof -
  assume "keys_ok d" "\<And>r. doc_ID (f r) = doc_ID r"
  moreover from this have "map doc_ID (update_where P f (documents d)) = map doc_ID (documents d)"
    by (simp add: map_update_where_key)
  moreover from this have "doc_ID ` set (update_where P f (documents d)) = doc_ID ` set (documents d)"
    by (metis set_map)
  ultimately show ?thesis by (simp add: keys_ok_def)
qed

end
