(* ===== verification/Job_Store.thy ===== *)
theory Job_Store
  imports Database "HOL-Library.List_Lexorder" "HOL-Library.Char_ord" "HOL-Library.Product_Lexorder"
begin

text \<open>
  The document and chunk operations of \<^verbatim>\<open>postgresDocumentStore\<close> (\<^verbatim>\<open>api/database.go\<close>):
  creating, reading and deleting documents, and the job queue the workers share.

  \<^item> \<open>sqlnow\<close> is PostgreSQL's \<^verbatim>\<open>NOW()\<close>, the start of the transaction; \<open>now\<close> is the
    API's \<^verbatim>\<open>time.Now().UTC()\<close>.
  \<^item> Rows come back in the order of the \<^verbatim>\<open>ORDER BY\<close>; ties, which PostgreSQL leaves open, are in
    insertion order here.
  \<^item> Identifiers are in the canonical form PostgreSQL prints; a statement that fails because an
    identifier is not a uuid fails like any other (\<open>with_connection\<close>).
  \<^item> \<open>locked\<close> lists the rows other transactions have locked, which
    \<^verbatim>\<open>FOR UPDATE SKIP LOCKED\<close> passes over.
\<close>

section \<open>Creating and reading\<close>

definition Create :: "(document \<Rightarrow> bool) \<Rightarrow> document \<Rightarrow> unit op" where
  "Create accepts doc d = (case insert_document accepts doc d of Inl e \<Rightarrow> (Inl e, d) | Inr d' \<Rightarrow> (Inr (), d'))"

definition CreateOwned :: "(document \<Rightarrow> bool) \<Rightarrow> string \<Rightarrow> document \<Rightarrow> unit op" where
  "CreateOwned accepts ownerID doc = Create accepts (doc\<lparr>doc_OwnerID := ownerID\<rparr>)"

definition ListDocuments :: "db \<Rightarrow> document list" where
  "ListDocuments d = sort_key (\<lambda>r. - doc_CreatedAt r) (documents d)"

definition ListOwned :: "string \<Rightarrow> db \<Rightarrow> document list" where
  "ListOwned ownerID d =
     sort_key (\<lambda>r. - doc_CreatedAt r) (filter (\<lambda>r. doc_OwnerID r = ownerID) (documents d))"

definition first_or_not_found :: "'r option \<Rightarrow> error + 'r" where
  "first_or_not_found found = (case found of None \<Rightarrow> Inl ErrRecordNotFound | Some r \<Rightarrow> Inr r)"

definition Find :: "string \<Rightarrow> db \<Rightarrow> error + document" where
  "Find i d = first_or_not_found (find (\<lambda>r. doc_ID r = i) (documents d))"

definition FindOwned :: "string \<Rightarrow> string \<Rightarrow> db \<Rightarrow> error + document" where
  "FindOwned ownerID i d =
     first_or_not_found (find (\<lambda>r. doc_ID r = i \<and> doc_OwnerID r = ownerID) (documents d))"

record documentStatusRow =
  st_ID :: string
  st_OriginalFilename :: string
  st_Status :: string
  st_PageCount :: "32 word"
  st_ErrorMessage :: "string option"
  st_FailureKind :: string
  st_AttemptCount :: int
  st_NextAttemptAt :: "time option"

definition status_row :: "document \<Rightarrow> documentStatusRow" where
  "status_row r = \<lparr>st_ID = doc_ID r, st_OriginalFilename = doc_OriginalFilename r, st_Status = doc_Status r,
     st_PageCount = doc_PageCount r, st_ErrorMessage = doc_ErrorMessage r, st_FailureKind = doc_FailureKind r,
     st_AttemptCount = doc_AttemptCount r, st_NextAttemptAt = doc_NextAttemptAt r\<rparr>"

definition FindStatusOwned :: "string \<Rightarrow> string \<Rightarrow> db \<Rightarrow> error + documentStatusRow" where
  "FindStatusOwned ownerID i d =
     map_sum id status_row
       (first_or_not_found (find (\<lambda>r. doc_ID r = i \<and> doc_OwnerID r = ownerID) (documents d)))"

definition ListChunks :: "string \<Rightarrow> db \<Rightarrow> documentChunk list" where
  "ListChunks documentID d =
     sort_key ch_ChunkIndex (filter (\<lambda>c. ch_DocumentID c = documentID) (document_chunks d))"

text \<open>The chunks joined with their document's owner.\<close>

definition owned_chunks :: "string \<Rightarrow> string \<Rightarrow> db \<Rightarrow> documentChunk list" where
  "owned_chunks ownerID documentID d =
     concat (map (\<lambda>c. map (\<lambda>_. c) (filter (\<lambda>r. doc_ID r = ch_DocumentID c \<and> doc_OwnerID r = ownerID) (documents d)))
       (filter (\<lambda>c. ch_DocumentID c = documentID) (document_chunks d)))"

definition ListChunksOwned :: "string \<Rightarrow> string \<Rightarrow> db \<Rightarrow> documentChunk list" where
  "ListChunksOwned ownerID documentID d = sort_key ch_ChunkIndex (owned_chunks ownerID documentID d)"

text \<open>The nearest chunks first; \<open>distance\<close> is pgvector's cosine distance operator. The
  embedding is not selected, so it stays empty.\<close>

definition SearchChunks ::
    "(string \<Rightarrow> string \<Rightarrow> 'o :: linorder) \<Rightarrow> string \<Rightarrow> string \<Rightarrow> nat \<Rightarrow> db \<Rightarrow> documentChunk list" where
  "SearchChunks distance documentID embedding limit d =
     map (ch_Embedding_update (\<lambda>_. ''''))
       (take limit (sort_key (\<lambda>c. distance (ch_Embedding c) embedding)
         (filter (\<lambda>c. ch_DocumentID c = documentID) (document_chunks d))))"

definition SearchChunksOwned ::
    "(string \<Rightarrow> string \<Rightarrow> 'o :: linorder) \<Rightarrow> string \<Rightarrow> string \<Rightarrow> string \<Rightarrow> nat \<Rightarrow> db \<Rightarrow> documentChunk list" where
  "SearchChunksOwned distance ownerID documentID embedding limit d =
     map (ch_Embedding_update (\<lambda>_. ''''))
       (take limit (sort_key (\<lambda>c. distance (ch_Embedding c) embedding) (owned_chunks ownerID documentID d)))"

definition CreateQuestion :: "(documentQuestion \<Rightarrow> bool) \<Rightarrow> documentQuestion \<Rightarrow> unit op" where
  "CreateQuestion accepts q d =
     (case insert_question accepts q d of Inl e \<Rightarrow> (Inl e, d) | Inr d' \<Rightarrow> (Inr (), d'))"

definition ListQuestionsOwned :: "string \<Rightarrow> string \<Rightarrow> db \<Rightarrow> documentQuestion list" where
  "ListQuestionsOwned ownerID documentID d =
     sort_key (\<lambda>q. - q_CreatedAt q)
       (filter (\<lambda>q. q_OwnerID q = ownerID \<and> q_DocumentID q = documentID) (document_questions d))"

definition UploadReferenceExists :: "string \<Rightarrow> db \<Rightarrow> bool" where
  "UploadReferenceExists documentID d =
     (list_ex (\<lambda>r. doc_ID r = documentID) (documents d) \<or>
      list_ex (\<lambda>r. ur_DocumentID r = documentID \<and> ur_State r = ''reserved'') (upload_reservations d))"

section \<open>Deleting and retrying\<close>

definition Delete :: "string \<Rightarrow> unit op" where
  "Delete i = transaction (\<lambda>d.
     let d = d\<lparr>document_chunks := delete_where (\<lambda>c. ch_DocumentID c = i) (document_chunks d)\<rparr>;
         affected = rows_affected (\<lambda>r. doc_ID r = i) (documents d);
         d = delete_documents (\<lambda>r. doc_ID r = i) d
     in if affected \<noteq> 1 then Inl ErrRecordNotFound else Inr ((), d))"

definition DeleteOwned :: "string \<Rightarrow> string \<Rightarrow> unit op" where
  "DeleteOwned ownerID i = transaction (\<lambda>d.
     and_then (FindOwned ownerID i d) (\<lambda>doc.
       let d = d\<lparr>document_chunks := delete_where (\<lambda>c. ch_DocumentID c = i) (document_chunks d)\<rparr>;
           d = d\<lparr>document_questions :=
             delete_where (\<lambda>q. q_DocumentID q = i \<and> q_OwnerID q = ownerID) (document_questions d)\<rparr>;
           d = delete_documents (\<lambda>r. doc_ID r = doc_ID doc) d
       in Inr ((), d)))"

definition RetryOwned :: "time \<Rightarrow> string \<Rightarrow> string \<Rightarrow> unit op" where
  "RetryOwned now ownerID i = transaction (\<lambda>d.
     and_then (first_or_not_found
         (find (\<lambda>r. doc_ID r = i \<and> doc_OwnerID r = ownerID \<and> doc_Status r = ''failed'') (documents d)))
       (\<lambda>current.
         if doc_FailureKind current = ''permanent'' then Inl ErrPermanentFailure
         else Inr ((), d\<lparr>documents := update_where
           (\<lambda>r. doc_ID r = i \<and> doc_OwnerID r = ownerID \<and> doc_Status r = ''failed'' \<and> doc_FailureKind r \<noteq> ''permanent'')
           (\<lambda>r. r\<lparr>doc_Status := ''queued'', doc_ErrorMessage := None, doc_FailureKind := ''retryable'',
                  doc_NextAttemptAt := None, doc_LeaseToken := None, doc_LeaseExpiresAt := None,
                  doc_AttemptCount := 0, doc_UpdatedAt := now\<rparr>) (documents d)\<rparr>)))"

section \<open>The job queue\<close>

text \<open>SQL's comparison with a column that may be NULL: \<open>col IS NULL OR col <= NOW()\<close>.\<close>

definition null_or_past :: "time \<Rightarrow> time option \<Rightarrow> bool" where
  "null_or_past sqlnow t = (case t of None \<Rightarrow> True | Some t \<Rightarrow> t \<le> sqlnow)"

definition due :: "time \<Rightarrow> document \<Rightarrow> bool" where
  "due sqlnow r \<longleftrightarrow>
     doc_Status r = ''queued'' \<and> null_or_past sqlnow (doc_NextAttemptAt r) \<or>
     doc_Status r = ''processing'' \<and> null_or_past sqlnow (doc_LeaseExpiresAt r)"

text \<open>\<open>ORDER BY COALESCE(next_attempt_at, created_at), created_at, id\<close>.\<close>

definition claim_key :: "document \<Rightarrow> time \<times> time \<times> string" where
  "claim_key r =
     ((case doc_NextAttemptAt r of None \<Rightarrow> doc_CreatedAt r | Some t \<Rightarrow> t), doc_CreatedAt r, doc_ID r)"

definition exhaust :: "time \<Rightarrow> document \<Rightarrow> document" where
  "exhaust sqlnow r = r\<lparr>doc_Status := ''failed'',
     doc_ErrorMessage := Some ''document processing failed after maximum attempts'',
     doc_FailureKind := (if doc_FailureKind r = ''permanent'' then ''permanent'' else ''retryable''),
     doc_NextAttemptAt := None, doc_LeaseToken := None, doc_LeaseExpiresAt := None, doc_UpdatedAt := sqlnow\<rparr>"

definition claim :: "time \<Rightarrow> string \<Rightarrow> duration \<Rightarrow> document \<Rightarrow> document" where
  "claim sqlnow leaseToken leaseDuration r = r\<lparr>doc_Status := ''processing'',
     doc_AttemptCount := doc_AttemptCount r + 1, doc_NextAttemptAt := None,
     doc_LeaseToken := Some leaseToken,
     doc_LeaseExpiresAt := Some (sqlnow + Milliseconds leaseDuration * time_Millisecond),
     doc_ErrorMessage := None, doc_UpdatedAt := sqlnow\<rparr>"

definition candidates :: "string list \<Rightarrow> time \<Rightarrow> int \<Rightarrow> document list \<Rightarrow> document list" where
  "candidates locked sqlnow maxAttempts rows =
     sort_key claim_key (filter (\<lambda>r. doc_AttemptCount r < maxAttempts \<and> due sqlnow r \<and> doc_ID r \<notin> set locked) rows)"

definition ClaimNext :: "string list \<Rightarrow> time \<Rightarrow> string \<Rightarrow> duration \<Rightarrow> int \<Rightarrow> document op" where
  "ClaimNext locked sqlnow leaseToken leaseDuration maxAttempts d =
     (let rows = update_where (\<lambda>r. doc_AttemptCount r \<ge> maxAttempts \<and> due sqlnow r) (exhaust sqlnow) (documents d)
      in case candidates locked sqlnow maxAttempts rows of
           [] \<Rightarrow> (Inl ErrRecordNotFound, d\<lparr>documents := rows\<rparr>)
         | r # _ \<Rightarrow>
             let d' = d\<lparr>documents := update_where (\<lambda>x. doc_ID x = doc_ID r) (claim sqlnow leaseToken leaseDuration) rows\<rparr>
             in (if doc_ID r = '''' then Inl ErrRecordNotFound
                 else Inr (claim sqlnow leaseToken leaseDuration r), d'))"

definition QueueStats :: "time \<Rightarrow> db \<Rightarrow> 64 word \<times> time" where
  "QueueStats sqlnow d =
     (let waiting = filter (\<lambda>r. doc_Status r = ''queued'' \<and> null_or_past sqlnow (doc_NextAttemptAt r)) (documents d)
      in (of_nat (length waiting),
          case waiting of [] \<Rightarrow> 0 | r # rs \<Rightarrow> foldl min (doc_CreatedAt r) (map doc_CreatedAt rs)))"

text \<open>\<open>id = ? AND status = 'processing' AND lease_token = ? AND lease_expires_at > NOW()\<close>.\<close>

definition holds_lease :: "time \<Rightarrow> string \<Rightarrow> string \<Rightarrow> document \<Rightarrow> bool" where
  "holds_lease sqlnow i leaseToken r \<longleftrightarrow>
     doc_ID r = i \<and> doc_Status r = ''processing'' \<and> doc_LeaseToken r = Some leaseToken \<and>
     (case doc_LeaseExpiresAt r of None \<Rightarrow> False | Some t \<Rightarrow> sqlnow < t)"

definition renewed :: "time \<Rightarrow> time \<Rightarrow> duration \<Rightarrow> document \<Rightarrow> document" where
  "renewed sqlnow now leaseDuration r = r\<lparr>
     doc_LeaseExpiresAt := Some (sqlnow + Milliseconds leaseDuration * time_Millisecond), doc_UpdatedAt := now\<rparr>"

definition requeued :: "time \<Rightarrow> time \<Rightarrow> document \<Rightarrow> document" where
  "requeued now nextAttemptAt r = r\<lparr>doc_Status := ''queued'', doc_NextAttemptAt := Some nextAttemptAt,
     doc_LeaseToken := None, doc_LeaseExpiresAt := None, doc_ErrorMessage := None,
     doc_FailureKind := ''retryable'', doc_UpdatedAt := now\<rparr>"

definition completed :: "time \<Rightarrow> string \<Rightarrow> 32 word \<Rightarrow> document \<Rightarrow> document" where
  "completed now txt pageCount r = r\<lparr>doc_Status := ''completed'', doc_ExtractedText := Some txt,
     doc_PageCount := pageCount, doc_ErrorMessage := None, doc_NextAttemptAt := None,
     doc_LeaseToken := None, doc_LeaseExpiresAt := None, doc_UpdatedAt := now\<rparr>"

definition failed :: "time \<Rightarrow> string \<Rightarrow> string \<Rightarrow> document \<Rightarrow> document" where
  "failed now message failureKind r = r\<lparr>doc_Status := ''failed'', doc_ErrorMessage := Some message,
     doc_FailureKind := failureKind, doc_NextAttemptAt := None, doc_LeaseToken := None,
     doc_LeaseExpiresAt := None, doc_UpdatedAt := now\<rparr>"

text \<open>One UPDATE by the holder of a lease, which fails unless it changed exactly one row.\<close>

definition update_leased :: "time \<Rightarrow> string \<Rightarrow> string \<Rightarrow> (document \<Rightarrow> document) \<Rightarrow> unit op" where
  "update_leased sqlnow i leaseToken f d =
     (let P = holds_lease sqlnow i leaseToken;
          d' = d\<lparr>documents := update_where P f (documents d)\<rparr>
      in (if rows_affected P (documents d) \<noteq> 1 then Inl ErrLeaseLost else Inr (), d'))"

definition RenewLease :: "time \<Rightarrow> time \<Rightarrow> string \<Rightarrow> string \<Rightarrow> duration \<Rightarrow> unit op" where
  "RenewLease sqlnow now i leaseToken leaseDuration =
     update_leased sqlnow i leaseToken (renewed sqlnow now leaseDuration)"

definition Retry :: "time \<Rightarrow> time \<Rightarrow> string \<Rightarrow> string \<Rightarrow> time \<Rightarrow> unit op" where
  "Retry sqlnow now i leaseToken nextAttemptAt = update_leased sqlnow i leaseToken (requeued now nextAttemptAt)"

definition Complete ::
    "(document \<Rightarrow> bool) \<Rightarrow> (documentChunk \<Rightarrow> bool) \<Rightarrow> time \<Rightarrow> time \<Rightarrow> string \<Rightarrow> string \<Rightarrow> string \<Rightarrow> 32 word \<Rightarrow>
     documentChunk list \<Rightarrow> unit op" where
  "Complete accepts accepts_chunk sqlnow now i leaseToken txt pageCount chunks = transaction (\<lambda>d.
     let P = holds_lease sqlnow i leaseToken;
         rows = update_where P (completed now txt pageCount) (documents d)
     in if list_ex (\<lambda>r. P r \<and> \<not> accepts (completed now txt pageCount r)) (documents d) then Inl ErrConstraint
        else if rows_affected P (documents d) \<noteq> 1 then Inl ErrLeaseLost
        else
          let d = d\<lparr>documents := rows\<rparr>;
              d = d\<lparr>document_chunks := delete_where (\<lambda>c. ch_DocumentID c = i) (document_chunks d)\<rparr>
          in if length chunks > 0
             then and_then (insert_chunks accepts_chunk chunks d) (\<lambda>d. Inr ((), d))
             else Inr ((), d))"

definition Fail :: "time \<Rightarrow> time \<Rightarrow> string \<Rightarrow> string \<Rightarrow> string \<Rightarrow> string \<Rightarrow> unit op" where
  "Fail sqlnow now i leaseToken message failureKind =
     update_leased sqlnow i leaseToken (failed now message failureKind)"

section \<open>The row of a document\<close>

definition row :: "db \<Rightarrow> string \<Rightarrow> document option" where
  "row d i = find (\<lambda>r. doc_ID r = i) (documents d)"

lemma find_ID: "find (\<lambda>r. doc_ID r = i) rows = Some r \<Longrightarrow> doc_ID r = i \<and> r \<in> set rows"
  by (auto dest: find_SomeD)

lemma row_ID: "row d i = Some r \<Longrightarrow> doc_ID r = i \<and> r \<in> set (documents d)"
  by (auto simp: row_def dest: find_ID)

lemma row_in_set: "keys_ok d \<Longrightarrow> r \<in> set (documents d) \<Longrightarrow> row d (doc_ID r) = Some r"
  using find_unique_key [of doc_ID "documents d" r] by (simp add: row_def keys_ok_def)

lemma row_iff: "keys_ok d \<Longrightarrow> row d i = Some r \<longleftrightarrow> r \<in> set (documents d) \<and> doc_ID r = i"
  using row_ID row_in_set by blast

lemma row_None: "row d i = None \<longleftrightarrow> i \<notin> doc_ID ` set (documents d)"
  by (auto simp: row_def find_None_iff)

lemma find_update_where:
  "(\<And>r. doc_ID (f r) = doc_ID r) \<Longrightarrow>
     find (\<lambda>r. doc_ID r = i) (update_where P f rows)
   = map_option (\<lambda>r. if P r then f r else r) (find (\<lambda>r. doc_ID r = i) rows)"
  by (induction rows) auto

lemma row_update:
  "(\<And>r. doc_ID (f r) = doc_ID r) \<Longrightarrow>
     row (d\<lparr>documents := update_where P f (documents d)\<rparr>) i = map_option (\<lambda>r. if P r then f r else r) (row d i)"
  by (simp add: row_def find_update_where)

lemma row_frame [simp]:
  "row (d\<lparr>document_chunks := cs\<rparr>) i = row d i"
  "row (d\<lparr>document_questions := qs\<rparr>) i = row d i"
  by (simp_all add: row_def)

lemma find_delete: "find (\<lambda>r. doc_ID r = i) (delete_where (\<lambda>r. doc_ID r = j) rows) =
    (if i = j then None else find (\<lambda>r. doc_ID r = i) rows)"
  by (induction rows) (auto simp: delete_where_def)

lemma row_delete: "row (delete_documents (\<lambda>r. doc_ID r = j) d) i = (if i = j then None else row d i)"
  by (simp add: row_def delete_documents_def Let_def find_delete)

lemma row_insert:
  assumes ins: "insert_document accepts doc d = Inr d'"
  shows "row d' i = (if i = doc_ID doc
       then Some (doc\<lparr>doc_FailureKind := (if doc_FailureKind doc = '''' then ''retryable'' else doc_FailureKind doc)\<rparr>)
       else row d i) \<and> row d (doc_ID doc) = None"
proof -
  have app: "find P (xs @ [x]) = (case find P xs of None \<Rightarrow> if P x then Some x else None | Some y \<Rightarrow> Some y)"
    for P and xs :: "document list" and x
    by (induction xs) auto
  from ins have "row d (doc_ID doc) = None" by (auto simp: row_None insert_document_def split: if_splits)
  with ins show ?thesis
    by (auto simp: insert_document_def row_def app split: if_splits option.splits dest: find_ID)
qed

lemmas row_changes =
  exhaust_def claim_def renewed_def requeued_def completed_def failed_def

lemma keep_ID [simp]:
  "doc_ID (exhaust t r) = doc_ID r" "doc_ID (claim t tok dur r) = doc_ID r"
  "doc_ID (renewed t now dur r) = doc_ID r" "doc_ID (requeued now t r) = doc_ID r"
  "doc_ID (completed now txt n r) = doc_ID r" "doc_ID (failed now m k r) = doc_ID r"
  by (simp_all add: row_changes)

section \<open>What a lease holder may do\<close>

definition leased :: "db \<Rightarrow> time \<Rightarrow> string \<Rightarrow> string \<Rightarrow> bool" where
  "leased d sqlnow i tok = (case row d i of None \<Rightarrow> False | Some r \<Rightarrow> holds_lease sqlnow i tok r)"

lemma rows_affected_lease:
  assumes "keys_ok d"
  shows "rows_affected (holds_lease sqlnow i tok) (documents d) = (if leased d sqlnow i tok then 1 else 0)"
proof -
  have "rows_affected (holds_lease sqlnow i tok) (documents d) = 1 \<longleftrightarrow>
      (\<exists>r \<in> set (documents d). holds_lease sqlnow i tok r)"
    by (rule rows_affected_1_iff [where key = doc_ID]) (use assms in \<open>auto simp: keys_ok_def holds_lease_def\<close>)
  moreover have "rows_affected (holds_lease sqlnow i tok) (documents d) = 0 \<longleftrightarrow>
      (\<forall>r \<in> set (documents d). \<not> holds_lease sqlnow i tok r)"
    by (rule rows_affected_0)
  moreover have "leased d sqlnow i tok \<longleftrightarrow> (\<exists>r \<in> set (documents d). holds_lease sqlnow i tok r)"
    using row_in_set [OF assms] by (auto simp: leased_def holds_lease_def split: option.splits dest: row_ID)
  ultimately show ?thesis by auto
qed

text \<open>The contract of the operations that a worker calls with its lease token: without the lease
  nothing happens and the caller is told; with it only the leased document's row changes.\<close>

locale leased_operation =
  fixes operation :: "time \<Rightarrow> string \<Rightarrow> string \<Rightarrow> unit op"
    and change :: "time \<Rightarrow> document \<Rightarrow> document"
  assumes no_lease: "keys_ok d \<Longrightarrow> \<not> leased d t i tok \<Longrightarrow> operation t i tok d = (Inl ErrLeaseLost, d)"
    and failed_unchanged: "keys_ok d \<Longrightarrow> operation t i tok d = (Inl e, d') \<Longrightarrow> d' = d"
    and done_row: "keys_ok d \<Longrightarrow> operation t i tok d = (Inr u, d') \<Longrightarrow>
      row d' j = (if j = i then map_option (change t) (row d j) else row d j)"
    and keeps_keys: "keys_ok d \<Longrightarrow> operation t i tok d = (r, d') \<Longrightarrow> keys_ok d'"
begin

lemma done_leased: "keys_ok d \<Longrightarrow> operation t i tok d = (Inr u, d') \<Longrightarrow> leased d t i tok"
  using no_lease by fastforce

text \<open>Of two workers with different tokens at most one is served.\<close>

lemma one_holder:
  assumes "keys_ok d" "operation t i tok d = (Inr u, d')" "tok' \<noteq> tok"
  shows "operation t i tok' d = (Inl ErrLeaseLost, d)"
proof -
  from done_leased [OF assms(1,2)] assms(3) have "\<not> leased d t i tok'"
    by (auto simp: leased_def holds_lease_def split: option.splits)
  then show ?thesis by (rule no_lease [OF assms(1)])
qed

lemma row_effect:
  assumes "keys_ok d" "operation t i tok d = (res, d')"
  shows "row d' j = row d j \<or>
     (\<exists>r. row d j = Some r \<and> holds_lease t i tok r \<and> row d' j = Some (change t r))"
proof (cases res)
  case (Inl e)
  with assms failed_unchanged show ?thesis by blast
next
  case (Inr u)
  with assms have "leased d t i tok" using done_leased by blast
  with Inr assms done_row [of d t i tok u d' j] show ?thesis
    by (cases "row d j") (auto simp: leased_def)
qed

end

lemma update_leased_contract:
  assumes "\<And>t r. doc_ID (f t r) = doc_ID r"
  shows "leased_operation (\<lambda>t i tok. update_leased t i tok (f t)) f"
proof unfold_locales
  fix d t i tok
  assume keys: "keys_ok d" and no: "\<not> leased d t i tok"
  then have "\<not> holds_lease t i tok r" if "r \<in> set (documents d)" for r
    using rows_affected_0 [of "holds_lease t i tok" "documents d"] that
    by (simp add: rows_affected_lease)
  then have "update_where (holds_lease t i tok) (f t) (documents d) = documents d"
    by (rule update_where_unaffected)
  with keys no show "update_leased t i tok (f t) d = (Inl ErrLeaseLost, d)"
    by (simp add: update_leased_def Let_def rows_affected_lease)
next
  fix d t i tok e d'
  assume keys: "keys_ok d" and err: "update_leased t i tok (f t) d = (Inl e, d')"
  then have no: "rows_affected (holds_lease t i tok) (documents d) = 0"
    by (auto simp: update_leased_def Let_def rows_affected_lease split: if_splits)
  then have "update_where (holds_lease t i tok) (f t) (documents d) = documents d"
    by (intro update_where_unaffected) (simp add: rows_affected_0)
  with err show "d' = d" by (auto simp: update_leased_def Let_def split: if_splits)
next
  fix d t i tok u d' j
  assume keys: "keys_ok d" and ok: "update_leased t i tok (f t) d = (Inr u, d')"
  then have l: "leased d t i tok" and d': "d' = d\<lparr>documents := update_where (holds_lease t i tok) (f t) (documents d)\<rparr>"
    by (auto simp: update_leased_def Let_def rows_affected_lease split: if_splits)
  from l assms show "row d' j = (if j = i then map_option (f t) (row d j) else row d j)"
    unfolding d' by (cases "row d j") (auto simp: row_update leased_def holds_lease_def dest: row_ID)
next
  fix d t i tok r d'
  assume "keys_ok d" "update_leased t i tok (f t) d = (r, d')"
  then show "keys_ok d'" using assms
    by (auto simp: update_leased_def Let_def split: if_splits intro!: keys_ok_update_documents)
qed

interpretation renew: leased_operation "\<lambda>t i tok. RenewLease t now i tok dur" "\<lambda>t. renewed t now dur"
  for now dur
  unfolding RenewLease_def by (rule update_leased_contract) simp

interpretation retry: leased_operation "\<lambda>t i tok. Retry t now i tok next" "\<lambda>_. requeued now next"
  for now "next"
  unfolding Retry_def by (rule update_leased_contract) simp

interpretation fail: leased_operation "\<lambda>t i tok. Fail t now i tok message kind" "\<lambda>_. failed now message kind"
  for now message kind
  unfolding Fail_def by (rule update_leased_contract) simp

lemma insert_chunks_row [simp]: "insert_chunks accepts cs d = Inr d' \<Longrightarrow> row d' i = row d i"
  by (simp add: row_def insert_chunks_frame)

lemma insert_if_any:
  "(if cs \<noteq> [] then and_then (insert_chunks accepts cs d) (\<lambda>d. Inr ((), d)) else Inr ((), d))
   = and_then (insert_chunks accepts cs d) (\<lambda>d. Inr ((), d))"
  by (cases cs) simp_all

lemma Complete_cases:
  assumes keys: "keys_ok d"
    and call: "Complete accepts accepts_chunk t now i tok txt pages chunks d = (res, d')"
  obtains (lost) "\<not> leased d t i tok" "res = Inl ErrLeaseLost" "d' = d"
  | (rejected) "leased d t i tok" "res = Inl ErrConstraint" "d' = d"
  | (ok) mid where "leased d t i tok" "res = Inr ()"
      "mid = d\<lparr>documents := update_where (holds_lease t i tok) (completed now txt pages) (documents d),
        document_chunks := delete_where (\<lambda>c. ch_DocumentID c = i) (document_chunks d)\<rparr>"
      "insert_chunks accepts_chunk chunks mid = Inr d'"
proof -
  let ?mid = "d\<lparr>documents := update_where (holds_lease t i tok) (completed now txt pages) (documents d),
        document_chunks := delete_where (\<lambda>c. ch_DocumentID c = i) (document_chunks d)\<rparr>"
  have err: "e = ErrConstraint" if "insert_chunks accepts_chunk chunks D = Inl e" for e D
    using that by (induction accepts_chunk chunks D rule: insert_chunks.induct) (auto split: if_splits)
  show ?thesis
  proof (cases "leased d t i tok")
    case False
    then have "\<not> holds_lease t i tok r" if "r \<in> set (documents d)" for r
      using rows_affected_0 [of "holds_lease t i tok" "documents d"] that keys
      by (simp add: rows_affected_lease)
    with call False keys have "res = Inl ErrLeaseLost" "d' = d"
      by (auto simp: Complete_def transaction_def Let_def rows_affected_lease list_ex_iff split: if_splits)
    with False lost show ?thesis by blast
  next
    case True
    show ?thesis
    proof (cases "insert_chunks accepts_chunk chunks ?mid")
      case (Inl e)
      with err have "e = ErrConstraint" by blast
      moreover from Inl have "chunks \<noteq> []" by auto
      ultimately show ?thesis using call True keys Inl rejected
        by (auto simp: Complete_def transaction_def Let_def rows_affected_lease split: if_splits)
    next
      case (Inr D)
      show ?thesis
      proof (cases "list_ex (\<lambda>r. holds_lease t i tok r \<and> \<not> accepts (completed now txt pages r)) (documents d)")
        case False
        with call True keys Inr have "res = Inr () \<and> d' = D"
          by (simp add: Complete_def transaction_def Let_def rows_affected_lease insert_if_any)
        with True Inr ok [of ?mid] show ?thesis by blast
      next
        case bad: True
        with call have "res = Inl ErrConstraint" "d' = d" by (auto simp: Complete_def transaction_def Let_def)
        with True rejected show ?thesis by blast
      qed
    qed
  qed
qed

interpretation complete: leased_operation
    "\<lambda>t i tok. Complete accepts accepts_chunk t now i tok txt pages chunks" "\<lambda>_. completed now txt pages"
  for accepts accepts_chunk now "txt" pages chunks
proof unfold_locales
  fix d t i tok
  assume "keys_ok d" "\<not> leased d t i tok"
  then show "Complete accepts accepts_chunk t now i tok txt pages chunks d = (Inl ErrLeaseLost, d)"
    by (metis Complete_cases surj_pair)
next
  fix d t i tok e d'
  assume "keys_ok d" "Complete accepts accepts_chunk t now i tok txt pages chunks d = (Inl e, d')"
  then show "d' = d" by (auto elim: Complete_cases)
next
  fix d t i tok u d' j
  assume "keys_ok d" "Complete accepts accepts_chunk t now i tok txt pages chunks d = (Inr u, d')"
  then show "row d' j = (if j = i then map_option (completed now txt pages) (row d j) else row d j)"
  proof (cases rule: Complete_cases)
    case (ok mid)
    then have "documents d' = update_where (holds_lease t i tok) (completed now txt pages) (documents d)"
      by (simp add: insert_chunks_frame [OF ok(4)])
    then have "row d' j = map_option (\<lambda>r. if holds_lease t i tok r then completed now txt pages r else r) (row d j)"
      using row_update [where f = "completed now txt pages" and d = d and P = "holds_lease t i tok" and i = j]
      by (simp add: row_def)
    moreover have "holds_lease t i tok r \<longleftrightarrow> j = i" if "row d j = Some r" for r
      using that ok(1) row_ID [OF that] by (auto simp: leased_def) (simp add: holds_lease_def)
    ultimately show ?thesis by (cases "row d j") auto
  qed auto
next
  fix d t i tok r d'
  assume keys: "keys_ok d" and "Complete accepts accepts_chunk t now i tok txt pages chunks d = (r, d')"
  then show "keys_ok d'"
  proof (cases rule: Complete_cases)
    case (ok mid)
    have "keys_ok (d\<lparr>documents := update_where (holds_lease t i tok) (completed now txt pages) (documents d)\<rparr>)"
      by (rule keys_ok_update_documents [OF keys]) simp
    then have "keys_ok mid" using keys_ok_delete_chunks unfolding ok(3) by fastforce
    with ok(4) show ?thesis by (rule keys_ok_insert_chunks [rotated])
  qed (use keys in auto)
qed

section \<open>Claiming\<close>

definition exhausted :: "time \<Rightarrow> int \<Rightarrow> document \<Rightarrow> bool" where
  "exhausted t m r \<longleftrightarrow> m \<le> doc_AttemptCount r \<and> due t r"

definition eligible :: "string list \<Rightarrow> time \<Rightarrow> int \<Rightarrow> document \<Rightarrow> bool" where
  "eligible locked t m r \<longleftrightarrow> doc_AttemptCount r < m \<and> due t r \<and> doc_ID r \<notin> set locked"

definition swept :: "time \<Rightarrow> int \<Rightarrow> document \<Rightarrow> document" where
  "swept t m r = (if exhausted t m r then exhaust t r else r)"

lemma swept_ID [simp]: "doc_ID (swept t m r) = doc_ID r"
  by (simp add: swept_def)

lemma exhaust_not_due: "\<not> due t (exhaust t' r)"
  by (simp add: due_def exhaust_def)

lemma eligible_swept: "eligible locked t m (swept t m r) = eligible locked t m r \<and> (eligible locked t m r \<longrightarrow> swept t m r = r)"
  by (auto simp: swept_def eligible_def exhausted_def exhaust_not_due)

lemma filter_eligible_swept:
  "filter (eligible locked t m) (map (swept t m) rows) = filter (eligible locked t m) rows"
  using eligible_swept by (induction rows) auto

lemma sweep_rows: "update_where (\<lambda>r. doc_AttemptCount r \<ge> m \<and> due t r) (exhaust t) rows = map (swept t m) rows"
  by (simp add: update_where_def swept_def exhausted_def)

lemma candidates_eligible: "candidates locked t m rows = sort_key claim_key (filter (eligible locked t m) rows)"
  unfolding candidates_def eligible_def by (rule refl)

lemma candidates_swept: "candidates locked t m (map (swept t m) rows) = candidates locked t m rows"
  by (simp add: candidates_eligible filter_eligible_swept)

lemma ClaimNext_unfold:
  "ClaimNext locked t tok dur m d =
     (let rows = map (swept t m) (documents d)
      in case candidates locked t m (documents d) of
           [] \<Rightarrow> (Inl ErrRecordNotFound, d\<lparr>documents := rows\<rparr>)
         | r # _ \<Rightarrow>
             (if doc_ID r = '''' then Inl ErrRecordNotFound else Inr (claim t tok dur r),
              d\<lparr>documents := update_where (\<lambda>x. doc_ID x = doc_ID r) (claim t tok dur) rows\<rparr>))"
  by (simp add: ClaimNext_def sweep_rows candidates_swept Let_def split: list.splits)

lemma row_swept: "row (d\<lparr>documents := map (swept t m) (documents d)\<rparr>) i = map_option (swept t m) (row d i)"
  using row_update [where f = "exhaust t" and d = d and P = "exhausted t m" and i = i]
  by (simp add: update_where_def swept_def [abs_def])

lemma candidates_least:
  assumes "candidates locked t m rows = r # rest"
  shows "r \<in> set rows" "eligible locked t m r"
    "\<And>x. x \<in> set rows \<Longrightarrow> eligible locked t m x \<Longrightarrow> claim_key r \<le> claim_key x"
proof -
  have set_eq: "set (r # rest) = {x \<in> set rows. eligible locked t m x}"
    using assms by (metis candidates_eligible set_sort set_filter)
  then show "r \<in> set rows" "eligible locked t m r" by auto
  have "sorted (map claim_key (r # rest))" using assms by (metis candidates_eligible sorted_sort_key)
  then show "claim_key r \<le> claim_key x" if "x \<in> set rows" "eligible locked t m x" for x
    using that set_eq by auto
qed

lemma ClaimNext_found:
  assumes keys: "keys_ok d" and found: "candidates locked t m (documents d) = r # rest"
  shows "ClaimNext locked t tok dur m d = (Inr (claim t tok dur r),
    d\<lparr>documents := map (\<lambda>x. if doc_ID x = doc_ID r then claim t tok dur r else swept t m x) (documents d)\<rparr>)"
proof -
  note r = candidates_least [OF found]
  have "doc_ID r \<noteq> []" using keys r(1) by (metis keys_ok_def image_eqI)
  moreover have "swept t m x = r" if "x \<in> set (documents d)" "doc_ID x = doc_ID r" for x
    using same_key_same_row [OF keys_ok_docs [OF keys] that(1) r(1) that(2)] r(2) eligible_swept by metis
  then have "update_where (\<lambda>x. doc_ID x = doc_ID r) (claim t tok dur) (map (swept t m) (documents d))
      = map (\<lambda>x. if doc_ID x = doc_ID r then claim t tok dur r else swept t m x) (documents d)"
    by (auto simp: update_where_def)
  ultimately show ?thesis using found by (simp add: ClaimNext_unfold Let_def)
qed

lemma ClaimNext_cases:
  assumes keys: "keys_ok d" and call: "ClaimNext locked t tok dur m d = (res, d')"
  obtains (none) "res = Inl ErrRecordNotFound" "\<And>r. r \<in> set (documents d) \<Longrightarrow> \<not> eligible locked t m r"
      "\<And>i. row d' i = map_option (swept t m) (row d i)"
      "d' = d\<lparr>documents := map (swept t m) (documents d)\<rparr>"
  | (claimed) r where "res = Inr (claim t tok dur r)" "r \<in> set (documents d)" "eligible locked t m r"
      "\<And>x. x \<in> set (documents d) \<Longrightarrow> eligible locked t m x \<Longrightarrow> claim_key r \<le> claim_key x"
      "row d (doc_ID r) = Some r"
      "\<And>i. row d' i = (if i = doc_ID r then Some (claim t tok dur r) else map_option (swept t m) (row d i))"
      "d' = d\<lparr>documents := map (\<lambda>x. if doc_ID x = doc_ID r then claim t tok dur r else swept t m x) (documents d)\<rparr>"
proof (cases "candidates locked t m (documents d)")
  case Nil
  then have "set (filter (eligible locked t m) (documents d)) = {}"
    by (metis candidates_eligible set_sort list.set(1))
  then have empty: "\<not> eligible locked t m r" if "r \<in> set (documents d)" for r
    using that by auto
  from Nil call have "res = Inl ErrRecordNotFound" "d' = d\<lparr>documents := map (swept t m) (documents d)\<rparr>"
    by (auto simp: ClaimNext_unfold Let_def)
  with none empty row_swept show ?thesis by blast
next
  case (Cons r rest)
  note r = candidates_least [OF Cons]
  from ClaimNext_found [OF keys Cons] call have res: "res = Inr (claim t tok dur r)"
    and d': "d' = d\<lparr>documents := map (\<lambda>x. if doc_ID x = doc_ID r then claim t tok dur r else swept t m x) (documents d)\<rparr>"
    by auto
  have row: "row d (doc_ID r) = Some r" using row_in_set [OF keys r(1)] .
  have "find (\<lambda>x. doc_ID x = i) (map (\<lambda>x. if doc_ID x = doc_ID r then claim t tok dur r else swept t m x) rows)
      = (if i = doc_ID r then map_option (\<lambda>_. claim t tok dur r) (find (\<lambda>x. doc_ID x = i) rows)
         else map_option (swept t m) (find (\<lambda>x. doc_ID x = i) rows))" for i rows
    by (induction rows) auto
  then have "row d' i = (if i = doc_ID r then Some (claim t tok dur r) else map_option (swept t m) (row d i))" for i
    using row by (auto simp: row_def d')
  with claimed [OF res r(1,2) _ row _ d'] r(3) show ?thesis by blast
qed

lemma keys_ok_same_IDs:
  "keys_ok d \<Longrightarrow> map doc_ID rows = map doc_ID (documents d) \<Longrightarrow> keys_ok (d\<lparr>documents := rows\<rparr>)"
  by (simp add: keys_ok_def flip: set_map)

lemma keys_ok_ClaimNext:
  assumes keys: "keys_ok d" and call: "ClaimNext locked t tok dur m d = (res, d')"
  shows "keys_ok d'"
  using keys call
  by (cases rule: ClaimNext_cases) (auto intro!: keys_ok_same_IDs [OF keys])

text \<open>C27: a worker that asks for work gets the due document that comes first by
  \<^verbatim>\<open>COALESCE(next_attempt_at, created_at), created_at, id\<close> among those that still have an attempt
  left and are not locked, leased to its token, with one attempt more; documents that are due with
  no attempt left become failed; nothing else changes. When it gets nothing, no document was
  there to be claimed.\<close>

theorem claim_next_oldest_due:
  assumes "keys_ok d" and "ClaimNext locked t tok dur m d = (res, d')"
  shows "case res of
      Inl e \<Rightarrow> e = ErrRecordNotFound \<and> (\<forall>r \<in> set (documents d). \<not> eligible locked t m r) \<and>
               d' = d\<lparr>documents := map (swept t m) (documents d)\<rparr>
    | Inr r' \<Rightarrow> (\<exists>r \<in> set (documents d). eligible locked t m r \<and> r' = claim t tok dur r \<and>
               (\<forall>x \<in> set (documents d). eligible locked t m x \<longrightarrow> claim_key r \<le> claim_key x) \<and>
               d' = d\<lparr>documents := map (\<lambda>x. if doc_ID x = doc_ID r then r' else swept t m x) (documents d)\<rparr>)"
  using assms by (cases rule: ClaimNext_cases) auto

definition sample_document :: "string \<Rightarrow> time \<Rightarrow> document" where
  "sample_document i t = \<lparr>doc_ID = i, doc_OwnerID = ''o'', doc_OriginalFilename = ''a.pdf'',
     doc_StoredPath = ''documents/a/original.pdf'', doc_MIMEType = ''application/pdf'', doc_Size = 5,
     doc_PageCount = 0, doc_Status = ''queued'', doc_ExtractedTextPath = None, doc_ExtractedText = None,
     doc_Result = None, doc_ErrorMessage = None, doc_FailureKind = ''retryable'', doc_AttemptCount = 0,
     doc_NextAttemptAt = None, doc_LeaseToken = None, doc_LeaseExpiresAt = None, doc_CreatedAt = t,
     doc_UpdatedAt = t\<rparr>"

definition sample_db :: db where
  "sample_db = empty_db\<lparr>documents := [sample_document ''b'' 20, sample_document ''a'' 10]\<rparr>"

lemma sample_db_keys: "keys_ok sample_db"
  by (simp add: keys_ok_def sample_db_def sample_document_def)

lemma sample_claim:
  "ClaimNext [] 100 ''w'' time_Second 5 sample_db =
     (Inr (claim 100 ''w'' time_Second (sample_document ''a'' 10)),
      sample_db\<lparr>documents := [sample_document ''b'' 20, claim 100 ''w'' time_Second (sample_document ''a'' 10)]\<rparr>)"
  by code_simp

lemma claim_next_oldest_due_witness:
  "keys_ok sample_db \<and> (\<exists>r \<in> set (documents sample_db).
     claim 100 ''w'' time_Second (sample_document ''a'' 10) = claim 100 ''w'' time_Second r \<and> claim_key r \<le> claim_key (sample_document ''b'' 20))"
proof -
  have e: "eligible [] 100 5 (sample_document ''b'' 20)" by code_simp
  have m: "sample_document ''b'' 20 \<in> set (documents sample_db)" by (simp add: sample_db_def)
  from claim_next_oldest_due [OF sample_db_keys sample_claim] e m
  show ?thesis using sample_db_keys by auto
qed

text \<open>Workers that claim one after another, at one moment.\<close>

fun claim_all :: "time \<Rightarrow> duration \<Rightarrow> int \<Rightarrow> string list \<Rightarrow> db \<Rightarrow> string list" where
  "claim_all t dur m [] d = []"
| "claim_all t dur m (tok # toks) d =
     (case ClaimNext [] t tok dur m d of
        (Inl e, d') \<Rightarrow> []
      | (Inr r, d') \<Rightarrow> doc_ID r # claim_all t dur m toks d')"

lemma lease_in_future: "time_Millisecond \<le> dur \<Longrightarrow> t < t + Milliseconds dur * time_Millisecond"
proof -
  assume "time_Millisecond \<le> dur"
  then have "0 < Milliseconds dur" by (simp add: Milliseconds_def pos_imp_zdiv_pos_iff)
  then show ?thesis by simp
qed

lemma claimed_not_due: "time_Millisecond \<le> dur \<Longrightarrow> \<not> due t (claim t tok dur r)"
  using lease_in_future [of dur t] by (auto simp: due_def claim_def null_or_past_def)

lemma filter_eligible_claimed:
  assumes "time_Millisecond \<le> dur"
  shows "filter (eligible locked t m) (map (\<lambda>x. if doc_ID x = i then claim t tok dur r else swept t m x) rows)
       = filter (\<lambda>x. doc_ID x \<noteq> i) (filter (eligible locked t m) rows)"
proof (induction rows)
  case (Cons x rows)
  have "\<not> eligible locked t m (claim t tok dur r)"
    using claimed_not_due [OF assms] by (simp add: eligible_def)
  then show ?case using Cons eligible_swept [of locked t m x] by auto
qed simp

lemma candidates_after_claim:
  assumes "keys_ok d" "time_Millisecond \<le> dur" "candidates locked t m (documents d) = r # rest"
  shows "candidates locked t m (map (\<lambda>x. if doc_ID x = doc_ID r then claim t tok dur r else swept t m x) (documents d)) = rest"
proof -
  let ?E = "filter (eligible locked t m) (documents d)"
  have sorted_E: "sort_key claim_key ?E = r # rest" using assms(3) by (simp add: candidates_eligible)
  have "distinct (map doc_ID ?E)" using keys_ok_docs [OF assms(1)] by (rule distinct_map_filter)
  then have "distinct (map doc_ID (sort_key claim_key ?E))" by (simp add: distinct_map)
  then have rest: "filter (\<lambda>x. doc_ID x \<noteq> doc_ID r) (r # rest) = rest"
    unfolding sorted_E by (auto simp: filter_id_conv image_iff)
  have "candidates locked t m (map (\<lambda>x. if doc_ID x = doc_ID r then claim t tok dur r else swept t m x) (documents d))
      = filter (\<lambda>x. doc_ID x \<noteq> doc_ID r) (sort_key claim_key ?E)"
    unfolding candidates_eligible filter_eligible_claimed [OF assms(2)] by (rule filter_sort [symmetric])
  with sorted_E rest show ?thesis by simp
qed

lemma queue_served:
  assumes "keys_ok d" and "time_Millisecond \<le> dur"
  shows "claim_all t dur m toks d = take (length toks) (map doc_ID (candidates [] t m (documents d)))"
  using assms(1)
proof (induction toks arbitrary: d)
  case (Cons tok toks)
  show ?case
  proof (cases "candidates [] t m (documents d)")
    case Nil
    then show ?thesis by (simp add: ClaimNext_unfold Let_def)
  next
    case found: (Cons r rest)
    let ?d = "d\<lparr>documents := map (\<lambda>x. if doc_ID x = doc_ID r then claim t tok dur r else swept t m x) (documents d)\<rparr>"
    have call: "ClaimNext [] t tok dur m d = (Inr (claim t tok dur r), ?d)"
      by (rule ClaimNext_found [OF Cons.prems found])
    have "keys_ok ?d" by (rule keys_ok_ClaimNext [OF Cons.prems call])
    from Cons.IH [OF this] candidates_after_claim [OF Cons.prems assms(2) found] call found
    show ?thesis by simp
  qed
qed simp

text \<open>The queue is served completely and in order: workers asking one after another get all
  the documents that are there to be claimed, each once, in the order of the queue; with enough
  workers none is left over.\<close>

theorem queue_served_in_order:
  assumes "keys_ok d" and "time_Millisecond \<le> dur"
  shows "claim_all t dur m toks d = take (length toks) (map doc_ID (candidates [] t m (documents d)))"
  by (rule queue_served [OF assms])

lemma queue_served_in_order_witness:
  "keys_ok sample_db \<and> time_Millisecond \<le> time_Second \<and>
   claim_all 100 time_Second 5 [''u'', ''v'', ''w''] sample_db = [''a'', ''b'']"
proof -
  have "map doc_ID (candidates [] 100 5 (documents sample_db)) = [''a'', ''b'']" by code_simp
  with queue_served_in_order [OF sample_db_keys, of time_Second 100 5 "[''u'', ''v'', ''w'']"] sample_db_keys
  show ?thesis by simp
qed

end
