(* ===== verification/Job_Machine.thy ===== *)
theory Job_Machine
  imports Job_Store
begin

text \<open>
  The life of a document's processing job under everything that the workers, the owners and the
  upload handler do to the documents table, in any order and at any times (\<^verbatim>\<open>api/database.go\<close>).
  \<open>exec\<close> runs one operation of \<open>Job_Store\<close>; \<open>row_step\<close> says what it may do to the
  row of one document, and \<open>exec_row_step\<close> that it does nothing else. From that follow the
  invariant of the table, the life cycle of a job, the fencing of workers that lost their lease,
  the bound on attempts and that no job is lost.
\<close>

section \<open>Events\<close>

record queueConfig =
  qc_accepts :: "document \<Rightarrow> bool"
  qc_accepts_chunk :: "documentChunk \<Rightarrow> bool"
  qc_maxAttempts :: int

datatype job_event =
    CreateDoc string document
  | ClaimDoc "string list" string duration
  | RenewDoc string string duration
  | RetryDoc string string time
  | CompleteDoc string string string "32 word" "documentChunk list"
  | FailDoc string string string string
  | RetryByOwner string string
  | DeleteByOwner string string
  | DeleteDoc string

text \<open>One operation at the database time \<open>t\<close> and the caller's time \<open>now\<close>; a claim
  returns the document.\<close>

fun exec :: "queueConfig \<Rightarrow> time \<Rightarrow> time \<Rightarrow> job_event \<Rightarrow> document option op" where
  "exec cfg t now (CreateDoc ownerID doc) d =
     apfst (map_sum id (\<lambda>_. None)) (CreateOwned (qc_accepts cfg) ownerID doc d)"
| "exec cfg t now (ClaimDoc locked tok dur) d =
     apfst (map_sum id Some) (ClaimNext locked t tok dur (qc_maxAttempts cfg) d)"
| "exec cfg t now (RenewDoc i tok dur) d = apfst (map_sum id (\<lambda>_. None)) (RenewLease t now i tok dur d)"
| "exec cfg t now (RetryDoc i tok at) d = apfst (map_sum id (\<lambda>_. None)) (Retry t now i tok at d)"
| "exec cfg t now (CompleteDoc i tok content pages chunks) d =
     apfst (map_sum id (\<lambda>_. None))
       (Complete (qc_accepts cfg) (qc_accepts_chunk cfg) t now i tok content pages chunks d)"
| "exec cfg t now (FailDoc i tok message kind) d =
     apfst (map_sum id (\<lambda>_. None)) (Fail t now i tok message kind d)"
| "exec cfg t now (RetryByOwner ownerID i) d = apfst (map_sum id (\<lambda>_. None)) (RetryOwned now ownerID i d)"
| "exec cfg t now (DeleteByOwner ownerID i) d = apfst (map_sum id (\<lambda>_. None)) (DeleteOwned ownerID i d)"
| "exec cfg t now (DeleteDoc i) d = apfst (map_sum id (\<lambda>_. None)) (Delete i d)"

text \<open>What the callers pass: \<^verbatim>\<open>Upload\<close> creates queued documents, \<^verbatim>\<open>processNext\<close> fails
  jobs with one of the two failure kinds and completes a document with chunks of that document.\<close>

definition new_document :: "document \<Rightarrow> bool" where
  "new_document r \<longleftrightarrow> doc_Status r = ''queued'' \<and> doc_AttemptCount r = 0 \<and> doc_NextAttemptAt r = None \<and>
     doc_LeaseToken r = None \<and> doc_LeaseExpiresAt r = None \<and> doc_ErrorMessage r = None \<and>
     doc_ExtractedText r = None \<and> doc_FailureKind r \<in> {'''', ''retryable''}"

fun event_ok :: "job_event \<Rightarrow> bool" where
  "event_ok (CreateDoc ownerID doc) = new_document doc"
| "event_ok (CompleteDoc i tok content pages chunks) = list_all (\<lambda>c. ch_DocumentID c = i) chunks"
| "event_ok (FailDoc i tok message kind) = (kind \<in> {''permanent'', ''retryable''})"
| "event_ok _ = True"

section \<open>What an event does to one row\<close>

definition stored_document :: "string \<Rightarrow> document \<Rightarrow> document" where
  "stored_document ownerID doc = doc\<lparr>doc_OwnerID := ownerID,
     doc_FailureKind := (if doc_FailureKind doc = '''' then ''retryable'' else doc_FailureKind doc)\<rparr>"

definition reset_by_owner :: "time \<Rightarrow> document \<Rightarrow> document" where
  "reset_by_owner now r = r\<lparr>doc_Status := ''queued'', doc_ErrorMessage := None, doc_FailureKind := ''retryable'',
     doc_NextAttemptAt := None, doc_LeaseToken := None, doc_LeaseExpiresAt := None,
     doc_AttemptCount := 0, doc_UpdatedAt := now\<rparr>"

inductive row_step ::
    "queueConfig \<Rightarrow> time \<Rightarrow> time \<Rightarrow> job_event \<Rightarrow> document option \<Rightarrow> document option \<Rightarrow> bool"
  for cfg t now where
  keep: "row_step cfg t now e x x"
| create: "row_step cfg t now (CreateDoc ownerID doc) None (Some (stored_document ownerID doc))"
| sweep: "exhausted t (qc_maxAttempts cfg) r \<Longrightarrow>
    row_step cfg t now (ClaimDoc locked tok dur) (Some r) (Some (exhaust t r))"
| claim: "eligible locked t (qc_maxAttempts cfg) r \<Longrightarrow>
    row_step cfg t now (ClaimDoc locked tok dur) (Some r) (Some (claim t tok dur r))"
| renew: "holds_lease t i tok r \<Longrightarrow>
    row_step cfg t now (RenewDoc i tok dur) (Some r) (Some (renewed t now dur r))"
| requeue: "holds_lease t i tok r \<Longrightarrow>
    row_step cfg t now (RetryDoc i tok at) (Some r) (Some (requeued now at r))"
| complete: "holds_lease t i tok r \<Longrightarrow>
    row_step cfg t now (CompleteDoc i tok content pages chunks) (Some r) (Some (completed now content pages r))"
| fail: "holds_lease t i tok r \<Longrightarrow>
    row_step cfg t now (FailDoc i tok message kind) (Some r) (Some (failed now message kind r))"
| reset: "doc_ID r = i \<Longrightarrow> doc_Status r = ''failed'' \<Longrightarrow> doc_FailureKind r \<noteq> ''permanent'' \<Longrightarrow>
    row_step cfg t now (RetryByOwner ownerID i) (Some r) (Some (reset_by_owner now r))"
| remove: "doc_ID r = i \<Longrightarrow> row_step cfg t now (DeleteByOwner ownerID i) (Some r) None"
| remove_any: "doc_ID r = i \<Longrightarrow> row_step cfg t now (DeleteDoc i) (Some r) None"

lemma Create_row:
  assumes "CreateOwned accepts ownerID doc d = (res, d')"
  shows "row d' i = row d i \<or> (row d i = None \<and> i = doc_ID doc \<and> row d' i = Some (stored_document ownerID doc))"
  using assms row_insert [of accepts "doc\<lparr>doc_OwnerID := ownerID\<rparr>" d]
  by (auto simp: CreateOwned_def Create_def stored_document_def split: sum.splits)

lemma Create_keys: "keys_ok d \<Longrightarrow> CreateOwned accepts ownerID doc d = (res, d') \<Longrightarrow> keys_ok d'"
  by (auto simp: CreateOwned_def Create_def split: sum.splits intro: keys_ok_insert_document)

lemma find_row_where:
  assumes "keys_ok d"
  shows "find (\<lambda>r. doc_ID r = i \<and> Q r) (documents d) =
    (case row d i of Some r \<Rightarrow> (if Q r then Some r else None) | None \<Rightarrow> None)"
proof -
  have "find (\<lambda>r. doc_ID r = i \<and> Q r) rows =
      (case find (\<lambda>r. doc_ID r = i) rows of Some r \<Rightarrow> (if Q r then Some r else None) | None \<Rightarrow> None)"
    if "distinct (map doc_ID rows)" for rows
    using that
  proof (induction rows)
    case (Cons a rows)
    show ?case
    proof (cases "doc_ID a = i")
      case True
      with Cons.prems have "i \<notin> doc_ID ` set rows" by simp
      then have "find (\<lambda>r. doc_ID r = i) rows = None" by (auto simp: find_None_iff)
      with Cons True show ?thesis by simp
    qed (use Cons in simp)
  qed simp
  from this [OF keys_ok_docs [OF assms]] show ?thesis by (simp add: row_def)
qed

lemma FindOwned_row:
  assumes "keys_ok d"
  shows "FindOwned ownerID i d =
    (case row d i of Some r \<Rightarrow> (if doc_OwnerID r = ownerID then Inr r else Inl ErrRecordNotFound)
     | None \<Rightarrow> Inl ErrRecordNotFound)"
  by (simp add: FindOwned_def find_row_where [OF assms] first_or_not_found_def split: option.splits)

lemma row_count:
  assumes "keys_ok d"
  shows "rows_affected (\<lambda>r. doc_ID r = i) (documents d) = (if row d i = None then 0 else 1)"
proof -
  have "rows_affected (\<lambda>r. doc_ID r = i) (documents d) \<le> 1"
    by (rule rows_affected_le_1 [OF keys_ok_docs [OF assms]]) simp
  moreover have "rows_affected (\<lambda>r. doc_ID r = i) (documents d) = 0 \<longleftrightarrow> row d i = None"
    by (auto simp: rows_affected_0 row_None)
  ultimately show ?thesis by auto
qed

lemma delete_documents_frame:
  "delete_documents (\<lambda>r. doc_ID r = i) (d\<lparr>document_chunks := delete_where (\<lambda>c. ch_DocumentID c = i) (document_chunks d)\<rparr>)
   = delete_documents (\<lambda>r. doc_ID r = i) d" if "keys_ok d" "row d i \<noteq> None"
proof -
  have "set (map doc_ID (filter (\<lambda>r. doc_ID r = i) (documents d))) = {i}"
    using that(2) row_None [of d i] by auto
  then show ?thesis by (simp add: delete_documents_def Let_def delete_where_def)
qed

lemma Delete_result:
  assumes keys: "keys_ok d"
  shows "Delete i d = (if row d i = None then (Inl ErrRecordNotFound, d)
    else (Inr (), delete_documents (\<lambda>r. doc_ID r = i) d))"
  using delete_documents_frame [OF keys, of i]
  by (simp add: Delete_def transaction_def Let_def row_count [OF keys])

lemma DeleteOwned_result:
  assumes keys: "keys_ok d"
  shows "DeleteOwned ownerID i d =
    (case row d i of
       Some r \<Rightarrow> (if doc_OwnerID r = ownerID then (Inr (), delete_documents (\<lambda>r. doc_ID r = i) d)
                  else (Inl ErrRecordNotFound, d))
     | None \<Rightarrow> (Inl ErrRecordNotFound, d))"
proof (cases "row d i")
  case (Some r)
  then have gone: "set (map doc_ID (filter (\<lambda>r. doc_ID r = i) (documents d))) = {i}"
    using row_None [of d i] by auto
  have questions: "filter (\<lambda>q. q_DocumentID q \<noteq> i) (filter (\<lambda>q. q_DocumentID q = i \<longrightarrow> q_OwnerID q \<noteq> ownerID) qs)
      = filter (\<lambda>q. q_DocumentID q \<noteq> i) qs" "filter (\<lambda>c. ch_DocumentID c \<noteq> i) (filter (\<lambda>c. ch_DocumentID c \<noteq> i) cs)
      = filter (\<lambda>c. ch_DocumentID c \<noteq> i) cs" for qs and cs :: "documentChunk list"
    by (induction qs) (auto simp del: filter_filter)
  have "delete_documents (\<lambda>r. doc_ID r = i) (d\<lparr>document_chunks := delete_where (\<lambda>c. ch_DocumentID c = i) (document_chunks d),
      document_questions := delete_where (\<lambda>q. q_DocumentID q = i \<and> q_OwnerID q = ownerID) (document_questions d)\<rparr>)
    = delete_documents (\<lambda>r. doc_ID r = i) d"
    using gone by (simp add: delete_documents_def Let_def delete_where_def questions del: filter_filter)
  with Some row_ID [OF Some] show ?thesis
    by (simp add: DeleteOwned_def transaction_def FindOwned_row [OF keys] Let_def)
qed (simp add: DeleteOwned_def transaction_def FindOwned_row [OF keys])

lemma RetryOwned_row:
  assumes keys: "keys_ok d" and call: "RetryOwned now ownerID i d = (res, d')"
  shows "(d' = d \<and> (\<exists>e. res = Inl e)) \<or>
    (\<exists>r. row d i = Some r \<and> doc_OwnerID r = ownerID \<and> doc_Status r = ''failed'' \<and> doc_FailureKind r \<noteq> ''permanent'' \<and>
       res = Inr () \<and> keys_ok d' \<and> (\<forall>j. row d' j = (if j = i then Some (reset_by_owner now r) else row d j)))"
proof (cases "\<exists>r. row d i = Some r \<and> doc_OwnerID r = ownerID \<and> doc_Status r = ''failed'' \<and> doc_FailureKind r \<noteq> ''permanent''")
  case True
  then obtain r where r: "row d i = Some r" "doc_OwnerID r = ownerID" "doc_Status r = ''failed''"
    "doc_FailureKind r \<noteq> ''permanent''" by blast
  let ?P = "\<lambda>r. doc_ID r = i \<and> doc_OwnerID r = ownerID \<and> doc_Status r = ''failed'' \<and> doc_FailureKind r \<noteq> ''permanent''"
  let ?d = "d\<lparr>documents := update_where ?P (reset_by_owner now) (documents d)\<rparr>"
  have keep: "doc_ID (reset_by_owner now x) = doc_ID x" for x by (simp add: reset_by_owner_def)
  have "res = Inr () \<and> d' = ?d"
    using call r by (simp add: RetryOwned_def transaction_def find_row_where [OF keys] first_or_not_found_def reset_by_owner_def [abs_def])
  moreover have "row ?d j = (if j = i then Some (reset_by_owner now r) else row d j)" for j
    using r row_update [where f = "reset_by_owner now" and P = ?P and d = d and i = j, OF keep]
    by (cases "row d j") (auto dest: row_ID)
  moreover have "keys_ok ?d" by (rule keys_ok_update_documents [OF keys keep])
  ultimately show ?thesis using r by blast
next
  case False
  with call have "d' = d \<and> (\<exists>e. res = Inl e)"
    by (auto simp: RetryOwned_def transaction_def find_row_where [OF keys] first_or_not_found_def
        split: option.splits if_splits)
  then show ?thesis by blast
qed

section \<open>The machine respects the row steps\<close>

lemma apfst_eq: "(apfst f p = (res, d')) = (\<exists>r. p = (r, d') \<and> res = f r)"
  by (cases p) auto

lemma exec_keys:
  assumes "keys_ok d" "exec cfg t now e d = (res, d')"
  shows "keys_ok d'"
  using assms
proof (cases e)
  case (RetryByOwner ownerID i)
  with assms RetryOwned_row [OF assms(1), of now ownerID i] show ?thesis
    by (fastforce simp: apfst_eq)
qed (auto simp: apfst_eq Delete_result DeleteOwned_result split: option.splits if_splits
    intro: Create_keys keys_ok_ClaimNext renew.keeps_keys retry.keeps_keys complete.keeps_keys
      fail.keeps_keys keys_ok_delete_documents)

lemma exec_row_step:
  assumes keys: "keys_ok d" and call: "exec cfg t now e d = (res, d')"
  shows "row_step cfg t now e (row d i) (row d' i)"
proof (cases e)
  case (CreateDoc ownerID doc)
  with call obtain r where "CreateOwned (qc_accepts cfg) ownerID doc d = (r, d')" by (auto simp: apfst_eq)
  from Create_row [OF this, of i] show ?thesis unfolding CreateDoc
    by (elim disjE conjE) (simp_all add: row_step.keep row_step.create)
next
  case (ClaimDoc locked tok dur)
  then obtain res' where "ClaimNext locked t tok dur (qc_maxAttempts cfg) d = (res', d')"
    using call by (auto simp: apfst_eq)
  with keys show ?thesis
  proof (cases rule: ClaimNext_cases)
    case none
    then show ?thesis using ClaimDoc by (cases "row d i") (auto simp: swept_def row_step.intros)
  next
    case (claimed r)
    then show ?thesis using ClaimDoc by (cases "row d i") (auto simp: swept_def row_step.intros)
  qed
next
  case (RenewDoc j tok dur)
  then show ?thesis using call renew.row_effect [OF keys, of t now j tok dur _ d' i]
    by (auto simp: apfst_eq row_step.intros)
next
  case (RetryDoc j tok at)
  then show ?thesis using call retry.row_effect [OF keys, of t now j tok at _ d' i]
    by (auto simp: apfst_eq row_step.intros)
next
  case (CompleteDoc j tok content pages chunks)
  then show ?thesis using call complete.row_effect [OF keys, of "qc_accepts cfg" "qc_accepts_chunk cfg" t now j tok content pages chunks _ d' i]
    by (auto simp: apfst_eq row_step.intros)
next
  case (FailDoc j tok message kind)
  then show ?thesis using call fail.row_effect [OF keys, of t now j tok message kind _ d' i]
    by (auto simp: apfst_eq row_step.intros)
next
  case (RetryByOwner ownerID j)
  with call obtain r where "RetryOwned now ownerID j d = (r, d')" by (auto simp: apfst_eq)
  from RetryOwned_row [OF keys this] show ?thesis
    using RetryByOwner row_step.reset [OF row_ID [THEN conjunct1]] by (auto simp: row_step.keep)
next
  case (DeleteByOwner ownerID j)
  then show ?thesis using call row_step.remove [OF row_ID [THEN conjunct1]]
    by (cases "row d i") (auto simp: apfst_eq DeleteOwned_result [OF keys] row_delete row_step.keep
        split: option.splits if_splits)
next
  case (DeleteDoc j)
  then show ?thesis using call row_step.remove_any [OF row_ID [THEN conjunct1]]
    by (cases "row d i") (auto simp: apfst_eq Delete_result [OF keys] row_delete row_step.keep
        split: option.splits if_splits)
qed

section \<open>The invariant\<close>

text \<open>A job holds a lease exactly while it is processing; only a waiting job has a next attempt;
  an error message is shown exactly while it is failed, a permanent failure only then; the attempts
  are within the limit, and a processing job has used one.\<close>

definition job_ok :: "int \<Rightarrow> document \<Rightarrow> bool" where
  "job_ok m r \<longleftrightarrow>
     doc_Status r \<in> {''queued'', ''processing'', ''completed'', ''failed''} \<and>
     (doc_LeaseToken r \<noteq> None \<longleftrightarrow> doc_Status r = ''processing'') \<and>
     (doc_LeaseExpiresAt r \<noteq> None \<longleftrightarrow> doc_Status r = ''processing'') \<and>
     (doc_NextAttemptAt r \<noteq> None \<longrightarrow> doc_Status r = ''queued'') \<and>
     (doc_ErrorMessage r \<noteq> None \<longleftrightarrow> doc_Status r = ''failed'') \<and>
     (doc_ExtractedText r \<noteq> None \<longleftrightarrow> doc_Status r = ''completed'') \<and>
     doc_FailureKind r \<in> {''permanent'', ''retryable''} \<and>
     (doc_FailureKind r = ''permanent'' \<longrightarrow> doc_Status r = ''failed'') \<and>
     0 \<le> doc_AttemptCount r \<and> doc_AttemptCount r \<le> m \<and>
     (doc_Status r = ''processing'' \<longrightarrow> 1 \<le> doc_AttemptCount r)"

lemmas event_defs = row_changes stored_document_def reset_by_owner_def new_document_def
  eligible_def exhausted_def due_def holds_lease_def

lemma job_ok_processing:
  "job_ok m r \<Longrightarrow> doc_Status r = ''processing'' \<Longrightarrow>
     doc_FailureKind r = ''retryable'' \<and> doc_ErrorMessage r = None \<and> doc_ExtractedText r = None \<and>
     doc_NextAttemptAt r = None \<and> 1 \<le> doc_AttemptCount r \<and> doc_AttemptCount r \<le> m \<and>
     (\<exists>tok. doc_LeaseToken r = Some tok) \<and> (\<exists>t. doc_LeaseExpiresAt r = Some t)"
  by (simp add: job_ok_def) auto

lemma job_ok_queued:
  "job_ok m r \<Longrightarrow> doc_Status r = ''queued'' \<Longrightarrow>
     doc_FailureKind r = ''retryable'' \<and> doc_ErrorMessage r = None \<and> doc_ExtractedText r = None \<and>
     0 \<le> doc_AttemptCount r \<and> doc_AttemptCount r \<le> m"
  by (simp add: job_ok_def) auto

lemma due_status: "due t r \<Longrightarrow> doc_Status r = ''queued'' \<or> doc_Status r = ''processing''"
  by (auto simp: due_def)

lemma job_ok_due:
  "job_ok m r \<Longrightarrow> due t r \<Longrightarrow>
     doc_FailureKind r = ''retryable'' \<and> doc_ErrorMessage r = None \<and> doc_ExtractedText r = None \<and>
     0 \<le> doc_AttemptCount r \<and> doc_AttemptCount r \<le> m"
  using due_status job_ok_queued job_ok_processing by fastforce

lemma job_ok_held:
  "job_ok m r \<Longrightarrow> holds_lease t i tok r \<Longrightarrow>
     doc_Status r = ''processing'' \<and> doc_FailureKind r = ''retryable'' \<and> doc_ErrorMessage r = None \<and>
     doc_ExtractedText r = None \<and> doc_NextAttemptAt r = None \<and> 1 \<le> doc_AttemptCount r \<and>
     doc_AttemptCount r \<le> m \<and> doc_LeaseToken r = Some tok"
  using job_ok_processing [of m r] by (simp add: holds_lease_def)

lemma job_ok_changes:
  "job_ok m r \<Longrightarrow> exhausted t m r \<Longrightarrow> job_ok m (exhaust t r)"
  "job_ok m r \<Longrightarrow> eligible locked t m r \<Longrightarrow> job_ok m (claim t tok dur r)"
  "job_ok m r \<Longrightarrow> holds_lease t i tok r \<Longrightarrow> job_ok m (renewed t now dur r)"
  "job_ok m r \<Longrightarrow> holds_lease t i tok r \<Longrightarrow> job_ok m (requeued now at r)"
  "job_ok m r \<Longrightarrow> holds_lease t i tok r \<Longrightarrow> job_ok m (completed now content pages r)"
  "job_ok m r \<Longrightarrow> holds_lease t i tok r \<Longrightarrow> kind \<in> {''permanent'', ''retryable''} \<Longrightarrow>
     job_ok m (Job_Store.failed now message kind r)"
proof -
  assume r: "job_ok m r"
  show "job_ok m (exhaust t r)" if "exhausted t m r"
    using job_ok_due [OF r, of t] that unfolding exhaust_def exhausted_def by (simp add: job_ok_def)
  show "job_ok m (claim t tok dur r)" if "eligible locked t m r"
    using job_ok_due [OF r, of t] that unfolding claim_def eligible_def by (simp add: job_ok_def)
  assume h: "holds_lease t i tok r"
  note held = job_ok_held [OF r h]
  show "job_ok m (renewed t now dur r)" using held unfolding renewed_def by (simp add: job_ok_def)
  show "job_ok m (requeued now at r)" using held unfolding requeued_def by (simp add: job_ok_def)
  show "job_ok m (completed now content pages r)" using held unfolding completed_def by (simp add: job_ok_def)
  show "job_ok m (Job_Store.failed now message kind r)" if "kind \<in> {''permanent'', ''retryable''}"
    using held that unfolding failed_def by (simp add: job_ok_def)
qed

lemma job_ok_starts:
  "job_ok m r \<Longrightarrow> doc_Status r = ''failed'' \<Longrightarrow> job_ok m (reset_by_owner now r)"
  "0 \<le> m \<Longrightarrow> new_document r \<Longrightarrow> job_ok m (stored_document ownerID r)"
  by (auto simp: job_ok_def reset_by_owner_def stored_document_def new_document_def)

lemma row_step_job_ok:
  assumes "row_step cfg t now e x y" "event_ok e" "0 \<le> qc_maxAttempts cfg"
    "case x of None \<Rightarrow> True | Some r \<Rightarrow> job_ok (qc_maxAttempts cfg) r"
  shows "case y of None \<Rightarrow> True | Some r \<Rightarrow> job_ok (qc_maxAttempts cfg) r"
  using assms by (cases rule: row_step.cases) (simp_all add: job_ok_changes job_ok_starts)

inductive reachable :: "queueConfig \<Rightarrow> db \<Rightarrow> bool" for cfg where
  start: "reachable cfg empty_db"
| step: "reachable cfg d \<Longrightarrow> event_ok e \<Longrightarrow> exec cfg t now e d = (res, d') \<Longrightarrow> reachable cfg d'"

definition table_ok :: "queueConfig \<Rightarrow> db \<Rightarrow> bool" where
  "table_ok cfg d \<longleftrightarrow> keys_ok d \<and> (\<forall>i r. row d i = Some r \<longrightarrow> job_ok (qc_maxAttempts cfg) r)"

lemma table_ok_exec:
  assumes "table_ok cfg d" "event_ok e" "0 \<le> qc_maxAttempts cfg" "exec cfg t now e d = (res, d')"
  shows "table_ok cfg d'"
proof -
  have keys: "keys_ok d" using assms(1) by (simp add: table_ok_def)
  have "job_ok (qc_maxAttempts cfg) r" if "row d' i = Some r" for i r
    using row_step_job_ok [OF exec_row_step [OF keys assms(4), of i] assms(2,3)] assms(1) that
    by (auto simp: table_ok_def split: option.splits)
  with exec_keys [OF keys assms(4)] show ?thesis by (simp add: table_ok_def)
qed

lemma reachable_table_ok: "reachable cfg d \<Longrightarrow> 0 \<le> qc_maxAttempts cfg \<Longrightarrow> table_ok cfg d"
  by (induction rule: reachable.induct) (simp add: table_ok_def row_def, blast intro: table_ok_exec)

text \<open>C24: in every state the operations can bring the tables to, the keys are intact and every
  document satisfies \<open>job_ok\<close>.\<close>

theorem job_table_invariant:
  assumes "reachable cfg d" and "0 \<le> qc_maxAttempts cfg"
  shows "keys_ok d \<and> (\<forall>r \<in> set (documents d). job_ok (qc_maxAttempts cfg) r)"
  using reachable_table_ok [OF assms] row_in_set by (auto simp: table_ok_def)

definition sample_config :: queueConfig where
  "sample_config = \<lparr>qc_accepts = (\<lambda>_. True), qc_accepts_chunk = (\<lambda>_. True), qc_maxAttempts = 2\<rparr>"

definition sample_queued :: db where
  "sample_queued = empty_db\<lparr>documents := [sample_document ''a'' 10]\<rparr>"

lemma sample_queued_reachable: "reachable sample_config sample_queued"
proof (rule reachable.step [OF reachable.start])
  show "event_ok (CreateDoc ''o'' (sample_document ''a'' 10))"
    by (simp add: new_document_def sample_document_def)
  show "exec sample_config 10 10 (CreateDoc ''o'' (sample_document ''a'' 10)) empty_db = (Inr None, sample_queued)"
    by code_simp
qed

lemma job_table_invariant_witness:
  "0 \<le> qc_maxAttempts sample_config \<and> keys_ok sample_queued \<and> documents sample_queued \<noteq> []"
  using job_table_invariant [OF sample_queued_reachable] by (simp add: sample_config_def sample_queued_def)

section \<open>The life cycle\<close>

text \<open>What a job is to its owner: the abstract states and the changes between them.\<close>

datatype job_state = Absent | Queued | Processing string | Completed | Failed bool

fun job_state_of :: "document option \<Rightarrow> job_state" where
  "job_state_of None = Absent"
| "job_state_of (Some r) =
     (if doc_Status r = ''queued'' then Queued
      else if doc_Status r = ''processing''
      then Processing (case doc_LeaseToken r of None \<Rightarrow> '''' | Some tok \<Rightarrow> tok)
      else if doc_Status r = ''completed'' then Completed
      else Failed (doc_FailureKind r = ''permanent''))"

inductive lifecycle :: "job_state \<Rightarrow> job_state \<Rightarrow> bool" where
  created: "lifecycle Absent Queued"
| claimed: "lifecycle Queued (Processing tok)"
| taken_over: "lifecycle (Processing tok) (Processing tok')"
| retried: "lifecycle (Processing tok) Queued"
| finished: "lifecycle (Processing tok) Completed"
| failed: "lifecycle (Processing tok) (Failed p)"
| gave_up: "lifecycle Queued (Failed False)"
| reset: "lifecycle (Failed False) Queued"
| removed: "lifecycle s Absent"

text \<open>C26: the table implements that life cycle. Whatever operation runs, the job of any one
  document stays as it is or makes one of the listed changes; in particular a completed or a
  permanently failed job never changes except by being deleted.\<close>

theorem jobs_follow_lifecycle:
  assumes "reachable cfg d" and "0 \<le> qc_maxAttempts cfg" and "event_ok e"
    and "exec cfg t now e d = (res, d')"
  shows "job_state_of (row d' i) = job_state_of (row d i) \<or>
         lifecycle (job_state_of (row d i)) (job_state_of (row d' i))"
proof -
  have ok: "keys_ok d" "\<And>r. row d i = Some r \<Longrightarrow> job_ok (qc_maxAttempts cfg) r"
    using reachable_table_ok [OF assms(1,2)] by (auto simp: table_ok_def)
  from exec_row_step [OF ok(1) assms(4), of i] show ?thesis
  proof (cases rule: row_step.cases)
    case (sweep r locked tok dur)
    then have "doc_FailureKind r = ''retryable''" "due t r"
      using ok(2) [of r] job_ok_due by (auto simp: exhausted_def)
    with sweep show ?thesis using due_status [of t r] by (auto simp: exhaust_def lifecycle.intros)
  next
    case (claim locked r tok dur)
    then show ?thesis using due_status [of t r]
      by (auto simp: eligible_def claim_def lifecycle.intros)
  next
    case (create ownerID doc)
    then show ?thesis using assms(3) by (simp add: new_document_def stored_document_def lifecycle.intros)
  qed (simp_all add: holds_lease_def row_changes reset_by_owner_def lifecycle.intros)
qed

lemma jobs_follow_lifecycle_witness:
  "lifecycle (job_state_of (row sample_queued ''a''))
     (job_state_of (row (snd (exec sample_config 20 20 (ClaimDoc [] ''w'' time_Second) sample_queued)) ''a''))"
proof -
  obtain res d' where ex: "exec sample_config 20 20 (ClaimDoc [] ''w'' time_Second) sample_queued = (res, d')"
    by force
  have "job_state_of (row (snd (exec sample_config 20 20 (ClaimDoc [] ''w'' time_Second) sample_queued)) ''a'') = Processing ''w''"
    "job_state_of (row sample_queued ''a'') = Queued"
    by code_simp+
  with jobs_follow_lifecycle [OF sample_queued_reachable _ _ ex, of "''a''"] ex show ?thesis
    by (simp add: sample_config_def)
qed

section \<open>Runs\<close>

type_synonym timed_event = "time \<times> time \<times> job_event"

fun run :: "queueConfig \<Rightarrow> timed_event list \<Rightarrow> db \<Rightarrow> db" where
  "run cfg [] d = d"
| "run cfg ((t, now, e) # es) d = run cfg es (snd (exec cfg t now e d))"

definition events_ok :: "timed_event list \<Rightarrow> bool" where
  "events_ok es = list_all (\<lambda>(t, now, e). event_ok e) es"

lemma run_table_ok:
  "table_ok cfg d \<Longrightarrow> events_ok es \<Longrightarrow> 0 \<le> qc_maxAttempts cfg \<Longrightarrow> table_ok cfg (run cfg es d)"
proof (induction cfg es d rule: run.induct)
  case (2 cfg t now e es d)
  obtain res d' where "exec cfg t now e d = (res, d')" by force
  with 2 table_ok_exec [OF "2.prems"(1) _ "2.prems"(3), of e t now res d'] show ?case
    by (simp add: events_ok_def)
qed simp

lemma run_keys: "keys_ok d \<Longrightarrow> keys_ok (run cfg es d)"
proof (induction cfg es d rule: run.induct)
  case (2 cfg t now e es d)
  then show ?case using exec_keys [OF "2.prems"] by (metis run.simps(2) prod.collapse)
qed simp

text \<open>A property of one row that every event of the run keeps.\<close>

lemma run_row_invariant:
  assumes "keys_ok d" "P (row d i)"
    and "\<And>t now e x y. (t, now, e) \<in> set es \<Longrightarrow> row_step cfg t now e x y \<Longrightarrow>
      (\<And>r. y = Some r \<Longrightarrow> doc_ID r = i) \<Longrightarrow> P x \<Longrightarrow> P y"
  shows "P (row (run cfg es d) i)"
  using assms
proof (induction es arbitrary: d)
  case (Cons te es)
  obtain t now e where te: "te = (t, now, e)" by (cases te)
  obtain res d' where ex: "exec cfg t now e d = (res, d')" by force
  have "P (row d' i)"
    using Cons.prems(3) [OF _ exec_row_step [OF Cons.prems(1) ex, of i]] Cons.prems(2) te row_ID [of d' i] by simp
  then have "P (row (run cfg es d') i)"
    by (rule Cons.IH [OF exec_keys [OF Cons.prems(1) ex]]) (erule Cons.prems(3) [rotated], simp_all)
  with te ex show ?case by simp
qed simp

subsection \<open>Attempts\<close>

fun claim_of :: "error + document option \<Rightarrow> string option" where
  "claim_of (Inr (Some r)) = Some (doc_ID r)"
| "claim_of _ = None"

fun claims :: "queueConfig \<Rightarrow> string \<Rightarrow> timed_event list \<Rightarrow> db \<Rightarrow> nat" where
  "claims cfg i [] d = 0"
| "claims cfg i ((t, now, e) # es) d =
     (case exec cfg t now e d of (res, d') \<Rightarrow>
        (if claim_of res = Some i then 1 else 0) + claims cfg i es d')"

fun starts_over :: "string \<Rightarrow> job_event \<Rightarrow> bool" where
  "starts_over i (CreateDoc ownerID doc) = (doc_ID doc = i)"
| "starts_over i (RetryByOwner ownerID j) = (j = i)"
| "starts_over i _ = False"

lemma no_claim [simp]: "claim_of (map_sum id (\<lambda>_. None) r) = None"
  by (cases r) simp_all

lemma exec_claim:
  assumes "keys_ok d" "exec cfg t now e d = (res, d')" "claim_of res = Some i"
  obtains locked tok dur r where "e = ClaimDoc locked tok dur" "row d i = Some r"
    "eligible locked t (qc_maxAttempts cfg) r" "row d' i = Some (claim t tok dur r)"
proof -
  from assms(2,3) obtain locked tok dur where e: "e = ClaimDoc locked tok dur"
    by (cases e) (auto simp: apfst_eq)
  with assms(2) obtain res' where cl: "ClaimNext locked t tok dur (qc_maxAttempts cfg) d = (res', d')"
    "res = map_sum id Some res'"
    by (auto simp: apfst_eq)
  from assms(1) cl(1) show thesis
  proof (cases rule: ClaimNext_cases)
    case (claimed r)
    with cl(2) assms(3) e that show thesis by auto
  qed (use cl assms(3) in auto)
qed

definition attempts :: "int \<Rightarrow> document option \<Rightarrow> int" where
  "attempts m x = (case x of None \<Rightarrow> m | Some r \<Rightarrow> doc_AttemptCount r)"

lemma attempts_step:
  assumes "row_step cfg t now e x y" "\<not> starts_over i e" "\<And>r. x = Some r \<Longrightarrow> doc_ID r = i"
    "\<And>r. y = Some r \<Longrightarrow> doc_ID r = i" "attempts m x \<le> m"
  shows "attempts m x \<le> attempts m y"
  using assms(1)
proof (cases rule: row_step.cases)
  case (create ownerID doc)
  with assms(2) assms(4) [of "stored_document ownerID doc"] show ?thesis by (simp add: stored_document_def)
next
  case (reset r j ownerID)
  with assms(2) assms(3) [of r] show ?thesis by simp
qed (use assms(5) in \<open>simp_all add: attempts_def row_changes\<close>)

lemma claims_bounded:
  "table_ok cfg d \<Longrightarrow> 0 \<le> qc_maxAttempts cfg \<Longrightarrow> events_ok es \<Longrightarrow>
     list_all (\<lambda>(t, now, e). \<not> starts_over i e) es \<Longrightarrow>
     attempts (qc_maxAttempts cfg) (row d i) + int (claims cfg i es d) \<le> qc_maxAttempts cfg"
proof (induction cfg i es d rule: claims.induct)
  case (1 cfg i d)
  then show ?case by (auto simp: table_ok_def attempts_def job_ok_def split: option.splits)
next
  case (2 cfg i t now e es d)
  let ?m = "qc_maxAttempts cfg"
  obtain res d' where ex: "exec cfg t now e d = (res, d')" by force
  have keys: "keys_ok d" using "2.prems"(1) by (simp add: table_ok_def)
  have "event_ok e" using "2.prems"(3) by (simp add: events_ok_def)
  then have ok': "table_ok cfg d'" using table_ok_exec [OF "2.prems"(1) _ "2.prems"(2) ex] by blast
  have le: "attempts ?m (row d i) \<le> ?m"
    using "2.prems"(1,2) by (auto simp: table_ok_def attempts_def job_ok_def split: option.splits)
  have IH: "attempts ?m (row d' i) + int (claims cfg i es d') \<le> ?m"
    using "2.IH" [OF ex [symmetric]] ok' "2.prems" by (simp add: events_ok_def)
  show ?case
  proof (cases "claim_of res = Some i")
    case True
    from exec_claim [OF keys ex True] obtain tok dur r where
      "row d i = Some r" "row d' i = Some (claim t tok dur r)" by metis
    with IH ex True show ?thesis by (simp add: attempts_def claim_def)
  next
    case False
    have "attempts ?m (row d i) \<le> attempts ?m (row d' i)"
      by (rule attempts_step [OF exec_row_step [OF keys ex], of i])
        (use "2.prems"(4) le in \<open>auto dest: row_ID\<close>)
    with IH ex False show ?thesis by simp
  qed
qed

text \<open>Until its owner asks for a retry, a document is handed to workers at most
  \<^verbatim>\<open>maxAttempts\<close> times, however the workers crash, lose their leases or retry.\<close>

theorem attempts_bounded:
  assumes "reachable cfg d" and "0 \<le> qc_maxAttempts cfg" and "events_ok es"
    and "list_all (\<lambda>(t, now, e). \<not> starts_over i e) es"
  shows "int (claims cfg i es d) \<le> qc_maxAttempts cfg"
proof -
  have ok: "table_ok cfg d" by (rule reachable_table_ok [OF assms(1,2)])
  then have "0 \<le> attempts (qc_maxAttempts cfg) (row d i)"
    using assms(2) by (auto simp: table_ok_def attempts_def job_ok_def split: option.splits)
  with claims_bounded [OF ok assms(2-4)] show ?thesis by simp
qed

definition three_crashes :: "timed_event list" where
  "three_crashes = [(20, 20, ClaimDoc [] ''u'' time_Second), (20 + 2 * time_Second, 0, ClaimDoc [] ''v'' time_Second),
     (20 + 4 * time_Second, 0, ClaimDoc [] ''w'' time_Second)]"

lemma attempts_bounded_witness:
  "claims sample_config ''a'' three_crashes sample_queued = 2 \<and> (2 :: int) \<le> qc_maxAttempts sample_config"
proof -
  have c: "claims sample_config ''a'' three_crashes sample_queued = 2" by code_simp
  have "events_ok three_crashes" "list_all (\<lambda>(t, now, e). \<not> starts_over ''a'' e) three_crashes"
    by (simp_all add: events_ok_def three_crashes_def)
  with attempts_bounded [OF sample_queued_reachable, of three_crashes "''a''"] c
  show ?thesis by (simp add: sample_config_def)
qed

subsection \<open>Leases\<close>

fun claims_with :: "string \<Rightarrow> job_event \<Rightarrow> bool" where
  "claims_with tok (ClaimDoc locked tok' dur) = (tok' = tok)"
| "claims_with tok _ = False"

definition not_holder :: "string \<Rightarrow> document option \<Rightarrow> bool" where
  "not_holder tok x \<longleftrightarrow> (case x of None \<Rightarrow> True | Some r \<Rightarrow> doc_LeaseToken r \<noteq> Some tok)"

lemma not_holder_step:
  assumes "row_step cfg t now e x y" "event_ok e" "\<not> claims_with tok e" "not_holder tok x"
  shows "not_holder tok y"
  using assms(1)
proof (cases rule: row_step.cases)
  case (create ownerID doc)
  with assms(2) show ?thesis by (simp add: not_holder_def new_document_def stored_document_def)
qed (use assms(3,4) in \<open>simp_all add: not_holder_def row_changes reset_by_owner_def\<close>)

lemma not_holder_not_leased: "not_holder tok (row d i) \<Longrightarrow> \<not> leased d t i tok"
  by (auto simp: not_holder_def leased_def holds_lease_def split: option.splits)

text \<open>C4: a worker that lost a document to another worker is fenced off for good: whatever happens
  later (short of a claim with its own token), its renewal, retry, failure report and completion
  are all refused with \<^verbatim>\<open>errLeaseLost\<close> and change nothing.\<close>

theorem stale_worker_fenced:
  assumes "keys_ok d0" and "ClaimNext locked t0 tok' dur0 m d0 = (Inr r, d1)" and "tok' \<noteq> tok"
    and "events_ok es" and "list_all (\<lambda>(t, now, e). \<not> claims_with tok e) es"
    and "d = run cfg es d1"
  shows "RenewLease t now (doc_ID r) tok dur d = (Inl ErrLeaseLost, d) \<and>
         Retry t now (doc_ID r) tok at d = (Inl ErrLeaseLost, d) \<and>
         Fail t now (doc_ID r) tok message kind d = (Inl ErrLeaseLost, d) \<and>
         Complete accepts accepts_chunk t now (doc_ID r) tok content pages chunks d = (Inl ErrLeaseLost, d)"
proof -
  have keys1: "keys_ok d1" by (rule keys_ok_ClaimNext [OF assms(1,2)])
  from assms(1,2) have "not_holder tok (row d1 (doc_ID r))"
    by (cases rule: ClaimNext_cases) (use assms(3) in \<open>auto simp: not_holder_def claim_def\<close>)
  then have "not_holder tok (row d (doc_ID r))"
    unfolding assms(6)
  proof (rule run_row_invariant [OF keys1])
    fix t now e x y
    assume "(t, now, e) \<in> set es" "row_step cfg t now e x y" "not_holder tok x"
    then show "not_holder tok y"
      using not_holder_step assms(4,5) by (fastforce simp: events_ok_def list_all_iff)
  qed
  then have "\<not> leased d t (doc_ID r) tok" by (rule not_holder_not_leased)
  moreover have "keys_ok d" unfolding assms(6) by (rule run_keys [OF keys1])
  ultimately show ?thesis
    by (simp add: renew.no_lease retry.no_lease fail.no_lease complete.no_lease)
qed

definition sample_taken :: db where
  "sample_taken = sample_queued\<lparr>documents := [claim 20 ''u'' time_Second (sample_document ''a'' 10)]\<rparr>"

lemma sample_taken_over:
  "ClaimNext [] (20 + 2 * time_Second) ''v'' time_Second 2 sample_taken =
     (Inr (claim (20 + 2 * time_Second) ''v'' time_Second (claim 20 ''u'' time_Second (sample_document ''a'' 10))),
      sample_taken\<lparr>documents := [claim (20 + 2 * time_Second) ''v'' time_Second (claim 20 ''u'' time_Second (sample_document ''a'' 10))]\<rparr>)"
  by code_simp

lemma sample_taken_keys: "keys_ok sample_taken"
  by (simp add: keys_ok_def sample_taken_def sample_queued_def sample_document_def claim_def)

lemma stale_worker_fenced_witness:
  "fst (Fail (21 + 2 * time_Second) 0 ''a'' ''u'' ''late'' ''retryable''
     (snd (ClaimNext [] (20 + 2 * time_Second) ''v'' time_Second 2 sample_taken))) = Inl ErrLeaseLost"
  using stale_worker_fenced [OF sample_taken_keys sample_taken_over, of "''u''" "[]" _ sample_config "21 + 2 * time_Second" 0]
    sample_taken_over
  by (simp add: events_ok_def claim_def sample_document_def)

text \<open>While the holder keeps its lease.\<close>

fun gives_up :: "string \<Rightarrow> string \<Rightarrow> job_event \<Rightarrow> bool" where
  "gives_up i tok (RetryDoc j tok' at) = (j = i \<and> tok' = tok)"
| "gives_up i tok (CompleteDoc j tok' content pages chunks) = (j = i \<and> tok' = tok)"
| "gives_up i tok (FailDoc j tok' message kind) = (j = i \<and> tok' = tok)"
| "gives_up i tok (DeleteByOwner ownerID j) = (j = i)"
| "gives_up i tok (DeleteDoc j) = (j = i)"
| "gives_up i tok _ = False"

text \<open>Events of the lease's time at which the holder at most renews, by the same duration.\<close>

fun within_lease :: "time \<Rightarrow> duration \<Rightarrow> string \<Rightarrow> string \<Rightarrow> timed_event \<Rightarrow> bool" where
  "within_lease t0 dur i tok (t, now, e) =
     (t0 \<le> t \<and> t < t0 + Milliseconds dur * time_Millisecond \<and> \<not> gives_up i tok e \<and>
      (case e of RenewDoc j tok' dur' \<Rightarrow> j = i \<and> tok' = tok \<longrightarrow> dur' = dur | _ \<Rightarrow> True))"

definition lease_until :: "string \<Rightarrow> string \<Rightarrow> time \<Rightarrow> document option \<Rightarrow> bool" where
  "lease_until i tok u x \<longleftrightarrow>
     (\<exists>r v. x = Some r \<and> doc_ID r = i \<and> doc_Status r = ''processing'' \<and> doc_LeaseToken r = Some tok \<and>
        doc_LeaseExpiresAt r = Some v \<and> u \<le> v)"

lemma lease_until_step:
  assumes "row_step cfg t now e x y" "within_lease t0 dur i tok (t, now, e)"
    "lease_until i tok (t0 + Milliseconds dur * time_Millisecond) x"
  shows "lease_until i tok (t0 + Milliseconds dur * time_Millisecond) y \<and>
    (\<forall>locked tok' dur'. e = ClaimDoc locked tok' dur' \<longrightarrow> y = x)"
  using assms(1)
proof (cases rule: row_step.cases)
  case (sweep r locked tok dur)
  with assms(2,3) show ?thesis by (auto simp: lease_until_def exhausted_def due_def null_or_past_def)
next
  case (claim locked r tok dur)
  with assms(2,3) show ?thesis by (auto simp: lease_until_def eligible_def due_def null_or_past_def)
next
  case (renew j tok' r dur')
  with assms(2,3) show ?thesis by (auto simp: lease_until_def holds_lease_def renewed_def)
next
  case (reset r j ownerID)
  with assms(2,3) show ?thesis by (auto simp: lease_until_def)
qed (use assms(2,3) in \<open>auto simp: lease_until_def holds_lease_def\<close>)

lemma run_within_lease:
  "keys_ok d \<Longrightarrow> lease_until i tok (t0 + Milliseconds dur * time_Millisecond) (row d i) \<Longrightarrow>
     list_all (within_lease t0 dur i tok) es \<Longrightarrow>
     claims cfg i es d = 0 \<and> lease_until i tok (t0 + Milliseconds dur * time_Millisecond) (row (run cfg es d) i)"
proof (induction cfg i es d rule: claims.induct)
  case (2 cfg i t now e es d)
  obtain res d' where ex: "exec cfg t now e d = (res, d')" by force
  have w: "within_lease t0 dur i tok (t, now, e)" using "2.prems"(3) by simp
  note st = lease_until_step [OF exec_row_step [OF "2.prems"(1) ex] w "2.prems"(2)]
  have "claim_of res \<noteq> Some i"
  proof
    assume "claim_of res = Some i"
    from exec_claim [OF "2.prems"(1) ex this] obtain locked tok' dur' r where
      c: "e = ClaimDoc locked tok' dur'" "row d i = Some r" "row d' i = Some (claim t tok' dur' r)" by metis
    with st have "claim t tok' dur' r = r" by simp
    then have "doc_AttemptCount (claim t tok' dur' r) = doc_AttemptCount r" by simp
    then show False by (simp add: claim_def)
  qed
  moreover have "claims cfg i es d' = 0 \<and> lease_until i tok (t0 + Milliseconds dur * time_Millisecond) (row (run cfg es d') i)"
    using "2.IH" [OF ex [symmetric]] exec_keys [OF "2.prems"(1) ex] st "2.prems"(3) by simp
  ultimately show ?case using ex by simp
qed simp

text \<open>C19: a claimed document is its worker's alone for the duration of the lease: as long as the
  worker neither gives it back nor finishes it, and the document is not deleted, no other worker
  gets it before the lease runs out, and the worker may still finish it.\<close>

theorem lease_excludes_others:
  assumes "keys_ok d0" and "ClaimNext locked t0 tok dur m d0 = (Inr r, d1)"
    and "list_all (within_lease t0 dur (doc_ID r) tok) es"
    and "t < t0 + Milliseconds dur * time_Millisecond"
  shows "claims cfg (doc_ID r) es d1 = 0 \<and> leased (run cfg es d1) t (doc_ID r) tok"
proof -
  have keys1: "keys_ok d1" by (rule keys_ok_ClaimNext [OF assms(1,2)])
  from assms(1,2) have "lease_until (doc_ID r) tok (t0 + Milliseconds dur * time_Millisecond) (row d1 (doc_ID r))"
    by (cases rule: ClaimNext_cases) (auto simp: lease_until_def claim_def)
  note run = run_within_lease [OF keys1 this assms(3), of cfg]
  then obtain x v where "row (run cfg es d1) (doc_ID r) = Some x" "doc_ID x = doc_ID r"
    "doc_Status x = ''processing''" "doc_LeaseToken x = Some tok" "doc_LeaseExpiresAt x = Some v"
    "t0 + Milliseconds dur * time_Millisecond \<le> v"
    by (auto simp: lease_until_def)
  with run assms(4) show ?thesis by (simp add: leased_def holds_lease_def)
qed

lemma lease_excludes_others_witness:
  "claims sample_config ''a'' [(21, 0, ClaimDoc [] ''v'' time_Second)] sample_taken = 0"
proof -
  have c: "ClaimNext [] 20 ''u'' time_Second 2 sample_queued =
      (Inr (claim 20 ''u'' time_Second (sample_document ''a'' 10)), sample_taken)"
    by code_simp
  have k: "keys_ok sample_queued" using reachable_table_ok [OF sample_queued_reachable]
    by (simp add: table_ok_def sample_config_def)
  have "list_all (within_lease 20 time_Second ''a'' ''u'') [(21, 0, ClaimDoc [] ''v'' time_Second)]"
    by (simp add: Milliseconds_def)
  with lease_excludes_others [OF k c, of "[(21, 0, ClaimDoc [] ''v'' time_Second)]" 21 sample_config]
  show ?thesis by (simp add: claim_def sample_document_def Milliseconds_def)
qed

subsection \<open>Results\<close>

definition chunks_of :: "db \<Rightarrow> string \<Rightarrow> documentChunk list" where
  "chunks_of d i = filter (\<lambda>c. ch_DocumentID c = i) (document_chunks d)"

lemma ListChunks_chunks_of: "ListChunks i d = sort_key ch_ChunkIndex (chunks_of d i)"
  by (simp add: ListChunks_def chunks_of_def)

lemma chunks_of_delete: "j \<noteq> i \<Longrightarrow> keys_ok d \<Longrightarrow> chunks_of (delete_documents (\<lambda>r. doc_ID r = j) d) i = chunks_of d i"
  by (auto simp: chunks_of_def delete_documents_def Let_def delete_where_def intro!: filter_cong)

lemma Complete_chunks:
  assumes "keys_ok d" "Complete accepts accepts_chunk t now i tok content pages chunks d = (Inr u, d')"
    "list_all (\<lambda>c. ch_DocumentID c = i) chunks"
  shows "chunks_of d' j = (if j = i then chunks else chunks_of d j)"
  using assms(1,2)
proof (cases rule: Complete_cases)
  case (ok mid)
  have "document_chunks d' = filter (\<lambda>c. ch_DocumentID c \<noteq> i) (document_chunks d) @ chunks"
    using insert_chunks_frame [OF ok(4)] ok(3) by (simp add: delete_where_def)
  moreover have "filter (\<lambda>c. ch_DocumentID c = j) chunks = (if j = i then chunks else [])"
    using assms(3) by (auto simp: list_all_iff filter_empty_conv filter_id_conv)
  ultimately show ?thesis by (auto simp: chunks_of_def filter_empty_conv intro!: filter_cong)
qed auto

lemma leased_frame:
  "ClaimNext locked t tok dur m d = (res, d') \<Longrightarrow> document_chunks d' = document_chunks d"
  "update_leased t i tok f d = (res1, d') \<Longrightarrow> document_chunks d' = document_chunks d"
  "RetryOwned now ownerID i d = (res2, d') \<Longrightarrow> document_chunks d' = document_chunks d"
  "CreateOwned accepts ownerID doc d = (res3, d') \<Longrightarrow> document_chunks d' = document_chunks d"
  by (auto simp: ClaimNext_def update_leased_def RetryOwned_def CreateOwned_def Create_def insert_document_def
      transaction_def and_then_def Let_def split: list.splits if_splits sum.splits)

lemma exec_chunks:
  assumes keys: "keys_ok d" and ex: "exec cfg t now e d = (res, d')" and ok: "event_ok e"
    and r: "row d i = Some r" "doc_Status r = ''completed''" and r': "row d' i \<noteq> None"
  shows "row d' i = Some r \<and> chunks_of d' i = chunks_of d i"
proof -
  have "row d' i = Some r"
    using exec_row_step [OF keys ex, of i] unfolding r(1)
    by (cases rule: row_step.cases)
      (use r(2) r' in \<open>auto simp: exhausted_def eligible_def due_def holds_lease_def\<close>)
  moreover have "chunks_of d' i = chunks_of d i"
  proof (cases e)
    case (CompleteDoc j tok content pages chunks)
    then obtain res' where c: "Complete (qc_accepts cfg) (qc_accepts_chunk cfg) t now j tok content pages chunks d = (res', d')"
      using ex by (auto simp: apfst_eq)
    show ?thesis
    proof (cases res')
      case (Inl err)
      with c complete.failed_unchanged [OF keys] show ?thesis by blast
    next
      case (Inr u)
      from complete.done_leased [OF keys c [unfolded Inr]] have "leased d t j tok" .
      with r have "j \<noteq> i" by (auto simp: leased_def holds_lease_def)
      with Complete_chunks [OF keys c [unfolded Inr]] ok CompleteDoc show ?thesis by simp
    qed
  next
    case (DeleteByOwner ownerID j)
    with ex r' keys show ?thesis
      by (auto simp: apfst_eq DeleteOwned_result row_delete chunks_of_delete split: option.splits if_splits)
  next
    case (DeleteDoc j)
    with ex r' keys show ?thesis
      by (auto simp: apfst_eq Delete_result row_delete chunks_of_delete split: if_splits)
  qed (use ex in \<open>auto simp: apfst_eq chunks_of_def RenewLease_def Retry_def Fail_def leased_frame\<close>)
  ultimately show ?thesis by blast
qed

lemma completed_stays:
  "keys_ok d \<Longrightarrow> events_ok es \<Longrightarrow> list_all (\<lambda>(t, now, e). \<not> starts_over i e) es \<Longrightarrow>
     row d i = Some r \<Longrightarrow> doc_Status r = ''completed'' \<Longrightarrow>
     row (run cfg es d) i = None \<or> row (run cfg es d) i = Some r \<and> chunks_of (run cfg es d) i = chunks_of d i"
proof (induction cfg es d rule: run.induct)
  case (2 cfg t now e es d)
  obtain res d' where ex: "exec cfg t now e d = (res, d')" by force
  note keys' = exec_keys [OF "2.prems"(1) ex]
  show ?case
  proof (cases "row d' i")
    case None
    have "row (run cfg es d') i = None"
    proof (rule run_row_invariant [OF keys', of "\<lambda>x. x = None", OF None])
      fix t now e x y
      assume e: "(t, now, e) \<in> set es" "row_step cfg t now e x y" "x = None"
        and y: "\<And>r. y = Some r \<Longrightarrow> doc_ID r = i"
      from e(1) "2.prems"(3) have "\<not> starts_over i e" by (auto simp: list_all_iff)
      with e(2) show "y = None"
        by (cases rule: row_step.cases) (use e(3) y in \<open>auto simp: stored_document_def\<close>)
    qed
    with ex show ?thesis by simp
  next
    case (Some r')
    with exec_chunks [OF "2.prems"(1) ex _ "2.prems"(4,5)] "2.prems"(2)
    have same: "row d' i = Some r" "chunks_of d' i = chunks_of d i" by (auto simp: events_ok_def)
    with "2.IH" keys' "2.prems" ex show ?thesis by (simp add: events_ok_def)
  qed
qed simp

text \<open>C25: the result a worker was allowed to store is final: later operations of other workers and
  owners leave the document's text, page count and chunks as they are; it can only be deleted.\<close>

theorem completed_result_final:
  assumes "keys_ok d0"
    and "Complete accepts accepts_chunk t now i tok content pages chunks d0 = (Inr u, d1)"
    and "list_all (\<lambda>c. ch_DocumentID c = i) chunks"
    and "events_ok es" and "list_all (\<lambda>(t, now, e). \<not> starts_over i e) es"
    and "d = run cfg es d1"
  shows "row d i = None \<or>
    (\<exists>r. row d i = Some r \<and> doc_Status r = ''completed'' \<and> doc_ExtractedText r = Some content \<and>
       doc_PageCount r = pages \<and> ListChunks i d = sort_key ch_ChunkIndex chunks)"
proof -
  note done_row = complete.done_row [OF assms(1,2), of i] and keys1 = complete.keeps_keys [OF assms(1,2)]
  from complete.done_leased [OF assms(1,2)] obtain r0 where "row d0 i = Some r0"
    by (auto simp: leased_def split: option.splits)
  with done_row have r1: "row d1 i = Some (completed now content pages r0)" by simp
  have "chunks_of d1 i = chunks" using Complete_chunks [OF assms(1-3)] by simp
  with completed_stays [OF keys1 assms(4,5) r1, of cfg] show ?thesis
    unfolding assms(6) by (auto simp: completed_def ListChunks_chunks_of)
qed

definition sample_chunk :: documentChunk where
  "sample_chunk = \<lparr>ch_ID = ''c'', ch_DocumentID = ''a'', ch_ChunkIndex = 0, ch_Text = ''hi'', ch_StartOffset = 0,
     ch_EndOffset = 2, ch_PageStart = 1, ch_PageEnd = 1, ch_Embedding = ''[0]'', ch_CreatedAt = 21\<rparr>"

definition sample_done :: db where
  "sample_done = snd (Complete (\<lambda>_. True) (\<lambda>_. True) 21 21 ''a'' ''u'' ''hi'' 1 [sample_chunk] sample_taken)"

lemma completed_result_final_witness:
  "ListChunks ''a'' (run sample_config [(30, 30, ClaimDoc [] ''v'' time_Second)] sample_done) = [sample_chunk]"
proof -
  have c: "Complete (\<lambda>_. True) (\<lambda>_. True) 21 21 ''a'' ''u'' ''hi'' 1 [sample_chunk] sample_taken = (Inr (), sample_done)"
    and some: "row (run sample_config [(30, 30, ClaimDoc [] ''v'' time_Second)] sample_done) ''a'' \<noteq> None"
    by code_simp+
  have "list_all (\<lambda>c. ch_DocumentID c = ''a'') [sample_chunk]"
    "events_ok [(30, 30, ClaimDoc [] ''v'' time_Second)]"
    "list_all (\<lambda>(t, now, e). \<not> starts_over ''a'' e) [(30 :: int, 30 :: int, ClaimDoc [] ''v'' time_Second)]"
    by (simp_all add: sample_chunk_def events_ok_def)
  from completed_result_final [OF sample_taken_keys c this refl, of sample_config] some show ?thesis by auto
qed

subsection \<open>No job is lost\<close>

lemma eventually_due:
  assumes "doc_Status r = ''queued'' \<or> doc_Status r = ''processing''"
  obtains t0 where "\<And>t. t0 \<le> t \<Longrightarrow> due t r"
proof -
  let ?t = "if doc_Status r = ''queued'' then doc_NextAttemptAt r else doc_LeaseExpiresAt r"
  have "due t r" if "(case ?t of None \<Rightarrow> 0 | Some u \<Rightarrow> u) \<le> t" for t
    using that assms by (auto simp: due_def null_or_past_def split: option.splits)
  then show thesis by (rule that)
qed

lemma claim_all_complete:
  assumes "keys_ok d" "time_Millisecond \<le> dur" "length (documents d) \<le> length toks"
    "r \<in> set (documents d)" "eligible [] t m r"
  shows "doc_ID r \<in> set (claim_all t dur m toks d)"
proof -
  let ?c = "candidates [] t m (documents d)"
  have "length ?c \<le> length toks"
    using order.trans [OF length_filter_le assms(3)] by (simp add: candidates_eligible)
  then have "claim_all t dur m toks d = map doc_ID ?c"
    using queue_served [OF assms(1,2)] by simp
  with assms(4,5) show ?thesis by (auto simp: candidates_eligible)
qed

text \<open>C11: no job is lost. Whatever became of a document that is waiting or being processed - its
  worker may have died - from some time on as many workers as there are documents get it among
  them, or, when its attempts are used up, the next worker that asks marks it failed.\<close>

theorem no_job_lost:
  assumes "keys_ok d" and "row d i = Some r"
    and "doc_Status r = ''queued'' \<or> doc_Status r = ''processing''"
    and "time_Millisecond \<le> dur"
  shows "\<exists>t0. \<forall>t toks tok. t0 \<le> t \<and> length (documents d) \<le> length toks \<longrightarrow>
    (if doc_AttemptCount r < m then i \<in> set (claim_all t dur m toks d)
     else map_option doc_Status (row (snd (ClaimNext [] t tok dur m d)) i) = Some ''failed'')"
proof -
  from row_ID [OF assms(2)] have r: "doc_ID r = i" "r \<in> set (documents d)" by auto
  from assms(3) obtain t0 where t0: "\<And>t. t0 \<le> t \<Longrightarrow> due t r" by (rule eventually_due) blast
  have "i \<in> set (claim_all t dur m toks d)"
    if "t0 \<le> t" "length (documents d) \<le> length toks" "doc_AttemptCount r < m" for t toks
    using claim_all_complete [OF assms(1,4) that(2) r(2), of t m] t0 [OF that(1)] that(3) r(1)
    by (simp add: eligible_def)
  moreover have "map_option doc_Status (row (snd (ClaimNext [] t tok dur m d)) i) = Some ''failed''"
    if "t0 \<le> t" "\<not> doc_AttemptCount r < m" for t tok
  proof -
    obtain res d' where c: "ClaimNext [] t tok dur m d = (res, d')" by force
    have sw: "doc_Status (swept t m r) = ''failed''"
      using t0 [OF that(1)] that(2) by (simp add: swept_def exhausted_def exhaust_def)
    from assms(1) c show ?thesis
    proof (cases rule: ClaimNext_cases)
      case (claimed x)
      then have "doc_ID x \<noteq> i" using that(2) assms(2) by (auto simp: eligible_def)
      with claimed c sw assms(2) show ?thesis by simp
    qed (use c sw assms(2) in simp)
  qed
  ultimately show ?thesis by (intro exI [of _ t0]) simp
qed

lemma no_job_lost_witness:
  "\<exists>t. ''a'' \<in> set (claim_all t time_Second 2 [''v''] sample_taken)"
proof -
  have r: "row sample_taken ''a'' = Some (claim 20 ''u'' time_Second (sample_document ''a'' 10))" by code_simp
  have "doc_Status (claim 20 ''u'' time_Second (sample_document ''a'' 10)) = ''processing''"
    and a: "doc_AttemptCount (claim 20 ''u'' time_Second (sample_document ''a'' 10)) < 2"
    by (simp_all add: claim_def sample_document_def)
  with no_job_lost [OF sample_taken_keys r, of time_Second 2] obtain t0 where
    "\<forall>t toks tok. t0 \<le> t \<and> length (documents sample_taken) \<le> length toks \<longrightarrow>
       ''a'' \<in> set (claim_all t time_Second 2 toks sample_taken)" by auto
  then have "''a'' \<in> set (claim_all t0 time_Second 2 [''v''] sample_taken)"
    by (elim allE [of _ t0] allE [of _ "[''v'']"]) (simp add: sample_taken_def)
  then show ?thesis by blast
qed

end
