(* ===== verification/Quota_Store.thy ===== *)
theory Quota_Store
  imports Job_Machine Admission
begin

text \<open>
  The durable quotas (\<^verbatim>\<open>quotaStore\<close> of \<^verbatim>\<open>api/database.go\<close>): every owner's usage row, the
  reservations made before an upload or an answer, their commit, release and expiry, and the
  recovery that recomputes a usage row from the documents and reservations themselves. Each
  operation is one transaction. The several readings of the clock in one operation are one
  argument \<open>now\<close>; they differ only in what they leave in the time stamps.

  Go's sums of the counters wrap around, PostgreSQL's refuse a bigint out of range.
\<close>

section \<open>Usage rows\<close>

definition new_usage :: "time \<Rightarrow> string \<Rightarrow> dbOwnerUsage" where
  "new_usage now ownerID = \<lparr>us_OwnerID = ownerID, us_CommittedBytes = 0, us_CommittedDocuments = 0,
     us_ReservedBytes = 0, us_ReservedDocuments = 0, us_ActiveAnswers = 0, us_UpdatedAt = now\<rparr>"

definition lockOwnerUsage :: "time \<Rightarrow> string \<Rightarrow> db \<Rightarrow> db" where
  "lockOwnerUsage now ownerID d =
     (if ownerID \<in> us_OwnerID ` set (db_owner_usages d) then d
      else d\<lparr>db_owner_usages := db_owner_usages d @ [new_usage now ownerID]\<rparr>)"

text \<open>\<open>SELECT * FROM db_owner_usages WHERE owner_id = ?\<close> into a fresh struct.\<close>

definition scan_usage :: "string \<Rightarrow> db \<Rightarrow> dbOwnerUsage" where
  "scan_usage ownerID d =
     (case find (\<lambda>u. us_OwnerID u = ownerID) (db_owner_usages d) of Some u \<Rightarrow> u | None \<Rightarrow> new_usage 0 ownerID)"

definition bigint_ok :: "dbOwnerUsage \<Rightarrow> bool" where
  "bigint_ok u \<longleftrightarrow> is_int64 (us_CommittedBytes u) \<and> is_int64 (us_CommittedDocuments u) \<and>
     is_int64 (us_ReservedBytes u) \<and> is_int64 (us_ReservedDocuments u) \<and> is_int64 (us_ActiveAnswers u)"

definition update_usage :: "string \<Rightarrow> (dbOwnerUsage \<Rightarrow> dbOwnerUsage) \<Rightarrow> db \<Rightarrow> error + db" where
  "update_usage ownerID f d =
     (if list_ex (\<lambda>u. us_OwnerID u = ownerID \<and> \<not> bigint_ok (f u)) (db_owner_usages d) then Inl ErrOutOfRange
      else Inr (d\<lparr>db_owner_usages := update_where (\<lambda>u. us_OwnerID u = ownerID) f (db_owner_usages d)\<rparr>))"

section \<open>What documents and reservations add up to\<close>

definition doc_bytes :: "string \<Rightarrow> db \<Rightarrow> int" where
  "doc_bytes ownerID d = sum_where (\<lambda>r. doc_OwnerID r = ownerID) doc_Size (documents d)"

definition doc_count :: "string \<Rightarrow> db \<Rightarrow> int" where
  "doc_count ownerID d = count_where (\<lambda>r. doc_OwnerID r = ownerID) (documents d)"

definition reserved_by :: "string \<Rightarrow> uploadReservation \<Rightarrow> bool" where
  "reserved_by ownerID r \<longleftrightarrow> ur_OwnerID r = ownerID \<and> ur_State r = ''reserved''"

definition res_bytes :: "string \<Rightarrow> db \<Rightarrow> int" where
  "res_bytes ownerID d = sum_where (reserved_by ownerID) ur_Bytes (upload_reservations d)"

definition res_count :: "string \<Rightarrow> db \<Rightarrow> int" where
  "res_count ownerID d = count_where (reserved_by ownerID) (upload_reservations d)"

definition active_count :: "string \<Rightarrow> db \<Rightarrow> int" where
  "active_count ownerID d =
     count_where (\<lambda>r. ar_OwnerID r = ownerID \<and> ar_State r = ''active'') (answer_reservations d)"

section \<open>Recovery\<close>

definition release_expired :: "time \<Rightarrow> string \<Rightarrow> db \<Rightarrow> db" where
  "release_expired now ownerID d =
     d\<lparr>upload_reservations :=
       foldl (\<lambda>t r. update_where (\<lambda>x. ur_ID x = ur_ID r \<and> (ur_State x = ''reserved'' \<and> ur_ExpiresAt x \<le> now))
               (\<lambda>x. x\<lparr>ur_State := ''released'', ur_ReleasedAt := Some now\<rparr>) t)
         (upload_reservations d)
         (filter (\<lambda>x. ur_OwnerID x = ownerID \<and> (ur_State x = ''reserved'' \<and> ur_ExpiresAt x \<le> now)) (upload_reservations d))\<rparr>"

definition expire_answers :: "time \<Rightarrow> string \<Rightarrow> db \<Rightarrow> db" where
  "expire_answers now ownerID d =
     d\<lparr>answer_reservations :=
       foldl (\<lambda>t r. update_where (\<lambda>x. ar_ID x = ar_ID r \<and> (ar_State x = ''active'' \<and> ar_ExpiresAt x \<le> now))
               (\<lambda>x. x\<lparr>ar_State := ''expired'', ar_FinishedAt := Some now\<rparr>) t)
         (answer_reservations d)
         (filter (\<lambda>x. ar_OwnerID x = ownerID \<and> (ar_State x = ''active'' \<and> ar_ExpiresAt x \<le> now)) (answer_reservations d))\<rparr>"

definition recount :: "time \<Rightarrow> string \<Rightarrow> db \<Rightarrow> error + db" where
  "recount now ownerID d =
     update_usage ownerID
       (\<lambda>u. u\<lparr>us_CommittedBytes := doc_bytes ownerID d, us_CommittedDocuments := doc_count ownerID d,
              us_ReservedBytes := res_bytes ownerID d, us_ReservedDocuments := res_count ownerID d,
              us_ActiveAnswers := active_count ownerID d, us_UpdatedAt := now\<rparr>) d"

fun recover_owners :: "time \<Rightarrow> string list \<Rightarrow> db \<Rightarrow> error + db" where
  "recover_owners now [] d = Inr d"
| "recover_owners now (ownerID # owners) d =
     and_then (recount now ownerID (expire_answers now ownerID (release_expired now ownerID (lockOwnerUsage now ownerID d))))
       (recover_owners now owners)"

definition all_owners :: "db \<Rightarrow> string list" where
  "all_owners d = sort (remdups (map us_OwnerID (db_owner_usages d) @ map doc_OwnerID (documents d) @
     map ur_OwnerID (upload_reservations d) @ map ar_OwnerID (answer_reservations d)))"

definition recoverExpiredReservations :: "string option \<Rightarrow> time \<Rightarrow> db \<Rightarrow> error + db" where
  "recoverExpiredReservations ownerID now d =
     recover_owners now (case ownerID of Some ownerID \<Rightarrow> [ownerID] | None \<Rightarrow> all_owners d) d"

definition RecoverExpiredReservations :: "time \<Rightarrow> unit op" where
  "RecoverExpiredReservations now = transaction (\<lambda>d.
     and_then (recoverExpiredReservations None now d) (\<lambda>d. Inr ((), d)))"

text \<open>\<open>initialize\<close>: usage rows for the owners of documents that have none, then recovery.
  The statement and the recovery are two transactions.\<close>

definition seed_usages :: "time \<Rightarrow> db \<Rightarrow> error + db" where
  "seed_usages sqlnow d =
     (let missing = filter (\<lambda>o'. o' \<notin> us_OwnerID ` set (db_owner_usages d)) (remdups (map doc_OwnerID (documents d)));
          rows = map (\<lambda>o'. (new_usage sqlnow o')\<lparr>us_CommittedBytes := doc_bytes o' d, us_CommittedDocuments := doc_count o' d\<rparr>) missing
      in if list_ex (\<lambda>u. \<not> bigint_ok u) rows then Inl ErrOutOfRange
         else Inr (d\<lparr>db_owner_usages := db_owner_usages d @ rows\<rparr>))"

definition initialize :: "time \<Rightarrow> time \<Rightarrow> unit op" where
  "initialize sqlnow now d =
     (case seed_usages sqlnow d of Inl e \<Rightarrow> (Inl e, d) | Inr d \<Rightarrow> RecoverExpiredReservations now d)"

section \<open>Uploads\<close>

definition insert_reservation :: "uploadReservation \<Rightarrow> db \<Rightarrow> error + db" where
  "insert_reservation r d =
     (if ur_ID r \<in> ur_ID ` set (upload_reservations d) \<or> \<not> is_int64 (ur_Bytes r) then Inl ErrConstraint
      else Inr (d\<lparr>upload_reservations := upload_reservations d @ [r]\<rparr>))"

definition ReserveUpload :: "time \<Rightarrow> string \<Rightarrow> string \<Rightarrow> string \<Rightarrow> int \<Rightarrow> time \<Rightarrow> unit op" where
  "ReserveUpload now ownerID reservationID documentID sz expiresAt = transaction (\<lambda>d.
     let d = lockOwnerUsage now ownerID d
     in and_then (recoverExpiredReservations (Some ownerID) now d) (\<lambda>d.
          let usage = scan_usage ownerID d
          in if wrap64 (wrap64 (us_CommittedBytes usage + us_ReservedBytes usage) + sz) > maxOwnerStorage
                \<or> wrap64 (wrap64 (us_CommittedDocuments usage + us_ReservedDocuments usage) + 1) > maxOwnerDocuments
             then Inl ErrQuotaExceeded
             else and_then (update_usage ownerID (\<lambda>u. u\<lparr>us_ReservedBytes := us_ReservedBytes u + sz,
                    us_ReservedDocuments := us_ReservedDocuments u + 1, us_UpdatedAt := now\<rparr>) d) (\<lambda>d.
               and_then (insert_reservation \<lparr>ur_ID = reservationID, ur_OwnerID = ownerID, ur_DocumentID = documentID,
                    ur_Bytes = sz, ur_State = ''reserved'', ur_ExpiresAt = expiresAt, ur_CreatedAt = now,
                    ur_CommittedAt = None, ur_ReleasedAt = None\<rparr> d) (\<lambda>d. Inr ((), d)))))"

definition find_reservation :: "string \<Rightarrow> db \<Rightarrow> error + uploadReservation" where
  "find_reservation reservationID d =
     first_or_not_found (find (\<lambda>r. ur_ID r = reservationID) (upload_reservations d))"

definition set_reservation :: "string \<Rightarrow> (uploadReservation \<Rightarrow> uploadReservation) \<Rightarrow> db \<Rightarrow> db" where
  "set_reservation reservationID f d =
     d\<lparr>upload_reservations := update_where (\<lambda>r. ur_ID r = reservationID) f (upload_reservations d)\<rparr>"

definition commit_usage :: "time \<Rightarrow> int \<Rightarrow> dbOwnerUsage \<Rightarrow> dbOwnerUsage" where
  "commit_usage now b u = u\<lparr>us_ReservedBytes := us_ReservedBytes u - b,
     us_ReservedDocuments := us_ReservedDocuments u - 1, us_CommittedBytes := us_CommittedBytes u + b,
     us_CommittedDocuments := us_CommittedDocuments u + 1, us_UpdatedAt := now\<rparr>"

definition CommitUpload :: "time \<Rightarrow> string \<Rightarrow> unit op" where
  "CommitUpload now reservationID = transaction (\<lambda>d.
     and_then (find_reservation reservationID d) (\<lambda>reservation.
       let d = lockOwnerUsage now (ur_OwnerID reservation) d
       in and_then (find_reservation reservationID d) (\<lambda>reservation.
            if ur_State reservation \<noteq> ''reserved'' then Inr ((), d)
            else and_then (update_usage (ur_OwnerID reservation) (commit_usage now (ur_Bytes reservation)) d) (\<lambda>d.
              Inr ((), set_reservation reservationID
                (\<lambda>r. r\<lparr>ur_State := ''committed'', ur_CommittedAt := Some now\<rparr>) d)))))"

definition ReleaseUpload :: "time \<Rightarrow> string \<Rightarrow> unit op" where
  "ReleaseUpload now reservationID = transaction (\<lambda>d.
     and_then (find_reservation reservationID d) (\<lambda>reservation.
       let d = lockOwnerUsage now (ur_OwnerID reservation) d
       in and_then (find_reservation reservationID d) (\<lambda>reservation.
            if ur_State reservation \<noteq> ''reserved'' then Inr ((), d)
            else and_then (update_usage (ur_OwnerID reservation)
                (\<lambda>u. u\<lparr>us_ReservedBytes := max (us_ReservedBytes u - ur_Bytes reservation) 0,
                       us_ReservedDocuments := max (us_ReservedDocuments u - 1) 0, us_UpdatedAt := now\<rparr>) d) (\<lambda>d.
              Inr ((), set_reservation reservationID
                (\<lambda>r. r\<lparr>ur_State := ''released'', ur_ReleasedAt := Some now\<rparr>) d)))))"

definition CreateOwnedAndCommitUpload ::
    "(document \<Rightarrow> bool) \<Rightarrow> time \<Rightarrow> string \<Rightarrow> document \<Rightarrow> string \<Rightarrow> unit op" where
  "CreateOwnedAndCommitUpload accepts now ownerID doc reservationID = transaction (\<lambda>d.
     let d = lockOwnerUsage now ownerID d
     in and_then (find_reservation reservationID d) (\<lambda>reservation.
          if ur_State reservation \<noteq> ''reserved'' \<or> ur_OwnerID reservation \<noteq> ownerID
             \<or> ur_DocumentID reservation \<noteq> doc_ID doc
          then Inl ErrReservationUnavailable
          else and_then (insert_document accepts (doc\<lparr>doc_OwnerID := ownerID\<rparr>) d) (\<lambda>d.
            and_then (update_usage ownerID (commit_usage now (ur_Bytes reservation)) d) (\<lambda>d.
              Inr ((), set_reservation reservationID
                (\<lambda>r. r\<lparr>ur_State := ''committed'', ur_CommittedAt := Some now\<rparr>) d)))))"

section \<open>Answers\<close>

definition insert_answer :: "answerReservation \<Rightarrow> db \<Rightarrow> error + db" where
  "insert_answer r d =
     (if ar_ID r \<in> ar_ID ` set (answer_reservations d) \<or> ar_RequestID r \<in> ar_RequestID ` set (answer_reservations d)
      then Inl ErrConstraint
      else Inr (d\<lparr>answer_reservations := answer_reservations d @ [r]\<rparr>))"

definition BeginAnswer :: "time \<Rightarrow> string \<Rightarrow> string \<Rightarrow> time \<Rightarrow> unit op" where
  "BeginAnswer now ownerID requestID expiresAt = transaction (\<lambda>d.
     let d = lockOwnerUsage now ownerID d
     in and_then (recoverExpiredReservations (Some ownerID) now d) (\<lambda>d.
          if us_ActiveAnswers (scan_usage ownerID d) \<ge> maxActiveAnswers then Inl ErrQuotaExceeded
          else and_then (update_usage ownerID
              (\<lambda>u. u\<lparr>us_ActiveAnswers := us_ActiveAnswers u + 1, us_UpdatedAt := now\<rparr>) d) (\<lambda>d.
            and_then (insert_answer \<lparr>ar_ID = requestID, ar_OwnerID = ownerID, ar_RequestID = requestID,
                ar_State = ''active'', ar_ExpiresAt = expiresAt, ar_CreatedAt = now, ar_FinishedAt = None\<rparr> d) (\<lambda>d.
              Inr ((), d)))))"

definition find_answer :: "string \<Rightarrow> db \<Rightarrow> error + answerReservation" where
  "find_answer reservationID d =
     first_or_not_found (find (\<lambda>r. ar_ID r = reservationID) (answer_reservations d))"

definition EndAnswer :: "time \<Rightarrow> string \<Rightarrow> string \<Rightarrow> unit op" where
  "EndAnswer now reservationID state = transaction (\<lambda>d.
     and_then (find_answer reservationID d) (\<lambda>reservation.
       let d = lockOwnerUsage now (ar_OwnerID reservation) d
       in and_then (find_answer reservationID d) (\<lambda>reservation.
            if ar_State reservation \<noteq> ''active'' then Inr ((), d)
            else and_then (update_usage (ar_OwnerID reservation)
                (\<lambda>u. u\<lparr>us_ActiveAnswers := max (us_ActiveAnswers u - 1) 0, us_UpdatedAt := now\<rparr>) d) (\<lambda>d.
              Inr ((), d\<lparr>answer_reservations := update_where (\<lambda>r. ar_ID r = reservationID)
                (\<lambda>r. r\<lparr>ar_State := state, ar_FinishedAt := Some now\<rparr>) (answer_reservations d)\<rparr>)))))"

section \<open>Deleting\<close>

text \<open>The first statement reads the document, the second waits for the lock of the usage row; what
  follows is \<open>delete_locked\<close>, which works with the document as it was read.\<close>

definition release_usage :: "time \<Rightarrow> int \<Rightarrow> dbOwnerUsage \<Rightarrow> dbOwnerUsage" where
  "release_usage now b u = u\<lparr>us_CommittedBytes := max (us_CommittedBytes u - b) 0,
     us_CommittedDocuments := max (us_CommittedDocuments u - 1) 0, us_UpdatedAt := now\<rparr>"

definition delete_locked :: "time \<Rightarrow> string \<Rightarrow> string \<Rightarrow> document \<Rightarrow> db \<Rightarrow> error + document \<times> db" where
  "delete_locked now ownerID i deleted d =
     (let d = d\<lparr>document_chunks := delete_where (\<lambda>c. ch_DocumentID c = i) (document_chunks d)\<rparr>;
          d = d\<lparr>document_questions :=
            delete_where (\<lambda>q. q_DocumentID q = i \<and> q_OwnerID q = ownerID) (document_questions d)\<rparr>;
          d = delete_documents (\<lambda>r. doc_ID r = doc_ID deleted) d
      in and_then (update_usage ownerID (release_usage now (doc_Size deleted)) d) (\<lambda>d. Inr (deleted, d)))"

definition DeleteOwnedWithUsage :: "time \<Rightarrow> string \<Rightarrow> string \<Rightarrow> document op" where
  "DeleteOwnedWithUsage now ownerID i = transaction (\<lambda>d.
     and_then (FindOwned ownerID i d) (\<lambda>deleted. delete_locked now ownerID i deleted d))"

section \<open>The books\<close>

type_synonym counters = "int \<times> int \<times> int \<times> int \<times> int"

definition counters :: "dbOwnerUsage \<Rightarrow> counters" where
  "counters u = (us_CommittedBytes u, us_CommittedDocuments u, us_ReservedBytes u, us_ReservedDocuments u, us_ActiveAnswers u)"

definition truth :: "string \<Rightarrow> db \<Rightarrow> counters" where
  "truth ownerID d = (doc_bytes ownerID d, doc_count ownerID d, res_bytes ownerID d, res_count ownerID d, active_count ownerID d)"

text \<open>What the schema keeps unique, non-negative sizes, and every owner within the limits.\<close>

definition tables_ok :: "db \<Rightarrow> bool" where
  "tables_ok d \<longleftrightarrow> keys_ok d \<and> distinct (map us_OwnerID (db_owner_usages d)) \<and>
     distinct (map ur_ID (upload_reservations d)) \<and> distinct (map ar_ID (answer_reservations d)) \<and>
     (\<forall>r \<in> set (documents d). 0 \<le> doc_Size r) \<and> (\<forall>r \<in> set (upload_reservations d). 0 \<le> ur_Bytes r)"

definition within_quota :: "string \<Rightarrow> db \<Rightarrow> bool" where
  "within_quota ownerID d \<longleftrightarrow> doc_bytes ownerID d + res_bytes ownerID d \<le> maxOwnerStorage \<and>
     doc_count ownerID d + res_count ownerID d \<le> maxOwnerDocuments \<and> active_count ownerID d \<le> maxActiveAnswers"

definition books_ok :: "db \<Rightarrow> bool" where
  "books_ok d \<longleftrightarrow> tables_ok d \<and> (\<forall>ownerID. within_quota ownerID d)"

definition reconciled :: "string \<Rightarrow> db \<Rightarrow> bool" where
  "reconciled ownerID d \<longleftrightarrow> counters (scan_usage ownerID d) = truth ownerID d"

lemmas truth_defs = truth_def doc_bytes_def doc_count_def res_bytes_def res_count_def active_count_def

lemma truth_frame [simp]:
  "truth o' (d\<lparr>db_owner_usages := us\<rparr>) = truth o' d"
  "truth o' (d\<lparr>document_chunks := cs\<rparr>) = truth o' d"
  "truth o' (d\<lparr>document_questions := qs\<rparr>) = truth o' d"
  by (simp_all add: truth_defs)

lemma truth_eq_quota: "truth o' d' = truth o' d \<Longrightarrow> within_quota o' d' = within_quota o' d"
  by (simp add: truth_def within_quota_def)

lemma doc_sums_nonneg: "tables_ok d \<Longrightarrow> 0 \<le> doc_bytes o' d \<and> 0 \<le> doc_count o' d \<and> 0 \<le> res_bytes o' d \<and> 0 \<le> res_count o' d \<and> 0 \<le> active_count o' d"
  by (auto simp: tables_ok_def truth_defs intro!: sum_where_nonneg)

lemma books_int64:
  assumes "books_ok d"
  shows "is_int64 (doc_bytes o' d)" "is_int64 (doc_count o' d)" "is_int64 (res_bytes o' d)"
    "is_int64 (res_count o' d)" "is_int64 (active_count o' d)"
proof -
  have "within_quota o' d" "0 \<le> doc_bytes o' d \<and> 0 \<le> doc_count o' d \<and> 0 \<le> res_bytes o' d \<and> 0 \<le> res_count o' d \<and> 0 \<le> active_count o' d"
    using assms doc_sums_nonneg by (auto simp: books_ok_def)
  then show "is_int64 (doc_bytes o' d)" "is_int64 (doc_count o' d)" "is_int64 (res_bytes o' d)"
    "is_int64 (res_count o' d)" "is_int64 (active_count o' d)"
    by (auto simp: within_quota_def is_int64_def quota_limits)
qed

subsection \<open>Locking\<close>

lemma lock_frame [simp]:
  "documents (lockOwnerUsage now o' d) = documents d"
  "document_chunks (lockOwnerUsage now o' d) = document_chunks d"
  "document_questions (lockOwnerUsage now o' d) = document_questions d"
  "upload_reservations (lockOwnerUsage now o' d) = upload_reservations d"
  "answer_reservations (lockOwnerUsage now o' d) = answer_reservations d"
  "rate_limit_buckets (lockOwnerUsage now o' d) = rate_limit_buckets d"
  "truth p (lockOwnerUsage now o' d) = truth p d"
  by (simp_all add: lockOwnerUsage_def truth_defs)

lemma lock_owner [simp]: "o' \<in> us_OwnerID ` set (db_owner_usages (lockOwnerUsage now o' d))"
  by (simp add: lockOwnerUsage_def new_usage_def)

lemma keys_ok_frame [simp]:
  "keys_ok (d\<lparr>db_owner_usages := us\<rparr>) = keys_ok d"
  "keys_ok (d\<lparr>upload_reservations := rs\<rparr>) = keys_ok d"
  "keys_ok (d\<lparr>answer_reservations := as\<rparr>) = keys_ok d"
  by (simp_all add: keys_ok_def)

lemma lock_tables [simp]: "tables_ok (lockOwnerUsage now o' d) = tables_ok d"
  by (auto simp: tables_ok_def lockOwnerUsage_def new_usage_def)

lemma lock_books [simp]: "books_ok (lockOwnerUsage now o' d) = books_ok d"
  by (simp add: books_ok_def truth_eq_quota [OF lock_frame(7)])

lemma lock_scan [simp]: "counters (scan_usage p (lockOwnerUsage now o' d)) = counters (scan_usage p d)"
  by (auto simp: lockOwnerUsage_def scan_usage_def find_append counters_def new_usage_def find_None_iff
      split: option.splits dest: find_SomeD)

subsection \<open>Updating a usage row\<close>

lemma find_update_usage:
  assumes "\<And>u. us_OwnerID (f u) = us_OwnerID u"
  shows "find (\<lambda>u. us_OwnerID u = p) (update_where (\<lambda>u. us_OwnerID u = o') f us)
       = map_option (\<lambda>u. if p = o' then f u else u) (find (\<lambda>u. us_OwnerID u = p) us)"
  by (induction us) (auto simp: assms)

lemma scan_usage_in:
  "o' \<in> us_OwnerID ` set (db_owner_usages d) \<Longrightarrow>
     scan_usage o' d \<in> set (db_owner_usages d) \<and> us_OwnerID (scan_usage o' d) = o'"
  by (auto simp: scan_usage_def find_None_iff split: option.splits dest: find_SomeD)

lemma update_usage_ok:
  assumes "tables_ok d" "o' \<in> us_OwnerID ` set (db_owner_usages d)"
    and "\<And>u. us_OwnerID (f u) = us_OwnerID u" "bigint_ok (f (scan_usage o' d))"
  shows "\<exists>d'. update_usage o' f d = Inr d' \<and>
    d' = d\<lparr>db_owner_usages := update_where (\<lambda>u. us_OwnerID u = o') f (db_owner_usages d)\<rparr> \<and>
    tables_ok d' \<and> scan_usage o' d' = f (scan_usage o' d) \<and> (\<forall>p. p \<noteq> o' \<longrightarrow> scan_usage p d' = scan_usage p d) \<and>
    us_OwnerID ` set (db_owner_usages d') = us_OwnerID ` set (db_owner_usages d)"
proof -
  let ?us = "update_where (\<lambda>u. us_OwnerID u = o') f (db_owner_usages d)"
  note s = scan_usage_in [OF assms(2)]
  have dist: "distinct (map us_OwnerID (db_owner_usages d))" using assms(1) by (simp add: tables_ok_def)
  have "u = scan_usage o' d" if "u \<in> set (db_owner_usages d)" "us_OwnerID u = o'" for u
    using same_key_same_row [OF dist that(1)] s that(2) by auto
  then have "update_usage o' f d = Inr (d\<lparr>db_owner_usages := ?us\<rparr>)"
    using assms(4) by (auto simp: update_usage_def list_ex_iff)
  moreover have m: "map us_OwnerID ?us = map us_OwnerID (db_owner_usages d)"
    by (rule map_update_where_key) (rule assms(3))
  moreover from m have "us_OwnerID ` set ?us = us_OwnerID ` set (db_owner_usages d)" by (metis set_map)
  moreover have "find (\<lambda>u. us_OwnerID u = o') (db_owner_usages d) \<noteq> None"
    using assms(2) by (auto simp: find_None_iff)
  ultimately show ?thesis using assms(1)
    by (auto simp: tables_ok_def scan_usage_def find_update_usage assms(3) split: option.splits)
qed

lemma update_usage_cases:
  assumes "update_usage o' f d = r"
  obtains "r = Inl ErrOutOfRange" | d' where "r = Inr d'"
    "d' = d\<lparr>db_owner_usages := update_where (\<lambda>u. us_OwnerID u = o') f (db_owner_usages d)\<rparr>"
  using assms by (auto simp: update_usage_def split: if_splits)

subsection \<open>Recovering one owner\<close>

definition expired_upload :: "time \<Rightarrow> uploadReservation \<Rightarrow> bool" where
  "expired_upload now r \<longleftrightarrow> ur_State r = ''reserved'' \<and> ur_ExpiresAt r \<le> now"

definition expired_answer :: "time \<Rightarrow> answerReservation \<Rightarrow> bool" where
  "expired_answer now r \<longleftrightarrow> ar_State r = ''active'' \<and> ar_ExpiresAt r \<le> now"

lemma release_expired_eq:
  assumes "tables_ok d"
  shows "release_expired now o' d = d\<lparr>upload_reservations :=
    update_where (\<lambda>x. ur_OwnerID x = o' \<and> expired_upload now x)
      (\<lambda>x. x\<lparr>ur_State := ''released'', ur_ReleasedAt := Some now\<rparr>) (upload_reservations d)\<rparr>"
  unfolding release_expired_def expired_upload_def
  by (subst foldl_update_selected) (use assms in \<open>simp_all add: tables_ok_def\<close>)

lemma expire_answers_eq:
  assumes "tables_ok d"
  shows "expire_answers now o' d = d\<lparr>answer_reservations :=
    update_where (\<lambda>x. ar_OwnerID x = o' \<and> expired_answer now x)
      (\<lambda>x. x\<lparr>ar_State := ''expired'', ar_FinishedAt := Some now\<rparr>) (answer_reservations d)\<rparr>"
  unfolding expire_answers_def expired_answer_def
  by (subst foldl_update_selected) (use assms in \<open>simp_all add: tables_ok_def\<close>)

text \<open>What an owner holds once everything expired is given back.\<close>

definition live_truth :: "time \<Rightarrow> string \<Rightarrow> db \<Rightarrow> counters" where
  "live_truth now o' d =
     (doc_bytes o' d, doc_count o' d,
      sum_where (\<lambda>r. reserved_by o' r \<and> now < ur_ExpiresAt r) ur_Bytes (upload_reservations d),
      count_where (\<lambda>r. reserved_by o' r \<and> now < ur_ExpiresAt r) (upload_reservations d),
      count_where (\<lambda>r. ar_OwnerID r = o' \<and> ar_State r = ''active'' \<and> now < ar_ExpiresAt r) (answer_reservations d))"

definition swept_books :: "time \<Rightarrow> string \<Rightarrow> db \<Rightarrow> db" where
  "swept_books now o' d = expire_answers now o' (release_expired now o' (lockOwnerUsage now o' d))"

lemma sum_where_update_keep:
  "(\<And>x. P x \<Longrightarrow> \<not> Q x) \<Longrightarrow> (\<And>x. P x \<Longrightarrow> \<not> Q (f x)) \<Longrightarrow> sum_where Q v (update_where P f t) = sum_where Q v t"
  by (induction t) auto

lemma swept_books:
  assumes ok: "tables_ok d"
  shows "tables_ok (swept_books now o' d)" "truth o' (swept_books now o' d) = live_truth now o' d"
    "p \<noteq> o' \<Longrightarrow> truth p (swept_books now o' d) = truth p d"
    "db_owner_usages (swept_books now o' d) = db_owner_usages (lockOwnerUsage now o' d)"
    "documents (swept_books now o' d) = documents d"
    "document_chunks (swept_books now o' d) = document_chunks d"
    "map ur_ID (upload_reservations (swept_books now o' d)) = map ur_ID (upload_reservations d)"
    "map ar_ID (answer_reservations (swept_books now o' d)) = map ar_ID (answer_reservations d)"
    "map ar_RequestID (answer_reservations (swept_books now o' d)) = map ar_RequestID (answer_reservations d)"
proof -
  let ?l = "lockOwnerUsage now o' d"
  let ?f = "\<lambda>x. x\<lparr>ur_State := ''released'', ur_ReleasedAt := Some now\<rparr>"
  let ?g = "\<lambda>x. x\<lparr>ar_State := ''expired'', ar_FinishedAt := Some now\<rparr>"
  let ?ur = "update_where (\<lambda>x. ur_OwnerID x = o' \<and> expired_upload now x) ?f (upload_reservations d)"
  let ?ar = "update_where (\<lambda>x. ar_OwnerID x = o' \<and> expired_answer now x) ?g (answer_reservations d)"
  have mu: "map ur_ID ?ur = map ur_ID (upload_reservations d)" by (rule map_update_where_key) simp
  have ma: "map ar_ID ?ar = map ar_ID (answer_reservations d)" by (rule map_update_where_key) simp
  have mr: "map ar_RequestID ?ar = map ar_RequestID (answer_reservations d)" by (rule map_update_where_key) simp
  have b: "\<forall>r \<in> set ?ur. 0 \<le> ur_Bytes r" using ok by (auto simp: in_update_where tables_ok_def)
  have r: "release_expired now o' ?l = ?l\<lparr>upload_reservations := ?ur\<rparr>"
    using ok by (simp add: release_expired_eq)
  have "tables_ok (?l\<lparr>upload_reservations := ?ur\<rparr>)"
    using ok mu b lock_tables [of now o' d] by (simp add: tables_ok_def)
  then have s: "swept_books now o' d = ?l\<lparr>upload_reservations := ?ur, answer_reservations := ?ar\<rparr>"
    by (simp add: swept_books_def r expire_answers_eq)
  show "tables_ok (swept_books now o' d)"
    using ok mu ma b lock_tables [of now o' d] by (simp add: s tables_ok_def)
  have "sum_where (reserved_by o') v ?ur = sum_where (\<lambda>r. reserved_by o' r \<and> now < ur_ExpiresAt r) v (upload_reservations d)"
    for v :: "uploadReservation \<Rightarrow> int"
    by (subst sum_where_update_out) (auto simp: reserved_by_def expired_upload_def intro!: sum_where_cong)
  moreover have "sum_where (\<lambda>r. ar_OwnerID r = o' \<and> ar_State r = ''active'') v ?ar
      = sum_where (\<lambda>r. ar_OwnerID r = o' \<and> ar_State r = ''active'' \<and> now < ar_ExpiresAt r) v (answer_reservations d)"
    for v :: "answerReservation \<Rightarrow> int"
    by (subst sum_where_update_out) (auto simp: expired_answer_def intro!: sum_where_cong)
  ultimately show "truth o' (swept_books now o' d) = live_truth now o' d"
    by (simp add: s truth_defs live_truth_def count_where_sum)
  show "truth p (swept_books now o' d) = truth p d" if "p \<noteq> o'"
  proof -
    have "sum_where (reserved_by p) v ?ur = sum_where (reserved_by p) v (upload_reservations d)" for v
      by (rule sum_where_update_keep) (use that in \<open>auto simp: reserved_by_def\<close>)
    moreover have "sum_where (\<lambda>r. ar_OwnerID r = p \<and> ar_State r = ''active'') v ?ar
        = sum_where (\<lambda>r. ar_OwnerID r = p \<and> ar_State r = ''active'') v (answer_reservations d)" for v
      by (rule sum_where_update_keep) (use that in auto)
    ultimately show ?thesis by (simp add: s truth_defs count_where_sum)
  qed
  show "db_owner_usages (swept_books now o' d) = db_owner_usages ?l" "documents (swept_books now o' d) = documents d"
    "document_chunks (swept_books now o' d) = document_chunks d"
    "map ur_ID (upload_reservations (swept_books now o' d)) = map ur_ID (upload_reservations d)"
    "map ar_ID (answer_reservations (swept_books now o' d)) = map ar_ID (answer_reservations d)"
    "map ar_RequestID (answer_reservations (swept_books now o' d)) = map ar_RequestID (answer_reservations d)"
    by (simp_all add: s mu ma mr)
qed

lemma live_truth_le:
  assumes "tables_ok d"
  shows "sum_where (\<lambda>r. reserved_by o' r \<and> now < ur_ExpiresAt r) ur_Bytes (upload_reservations d) \<le> res_bytes o' d"
    "count_where (\<lambda>r. reserved_by o' r \<and> now < ur_ExpiresAt r) (upload_reservations d) \<le> res_count o' d"
    "count_where (\<lambda>r. ar_OwnerID r = o' \<and> ar_State r = ''active'' \<and> now < ar_ExpiresAt r) (answer_reservations d) \<le> active_count o' d"
    "0 \<le> sum_where (\<lambda>r. reserved_by o' r \<and> now < ur_ExpiresAt r) ur_Bytes (upload_reservations d)"
  using assms by (auto simp: tables_ok_def truth_defs count_where_sum intro!: sum_where_le sum_where_nonneg)

lemma swept_books_ok: "books_ok d \<Longrightarrow> books_ok (swept_books now o' d)"
proof -
  assume ok: "books_ok d"
  then have t: "tables_ok d" by (simp add: books_ok_def)
  have "within_quota p (swept_books now o' d)" for p
  proof (cases "p = o'")
    case True
    from swept_books(2) [OF t, where now = now and o' = o'] live_truth_le [OF t, where now = now and o' = o'] ok show ?thesis
      unfolding True by (auto simp: books_ok_def truth_def live_truth_def within_quota_def) (smt (verit))+
  next
    case False
    with truth_eq_quota [OF swept_books(3) [OF t False]] ok show ?thesis by (simp add: books_ok_def)
  qed
  with swept_books(1) [OF t] show ?thesis by (simp add: books_ok_def)
qed

text \<open>Recovery of one owner of correct tables: it never fails, gives back what is expired and makes
  the owner's row say what the tables say, whatever it said before.\<close>

definition recovered :: "time \<Rightarrow> string \<Rightarrow> db \<Rightarrow> db" where
  "recovered now o' d = (case recover_owners now [o'] d of Inr d' \<Rightarrow> d' | Inl e \<Rightarrow> d)"

lemma recover_one:
  assumes ok: "books_ok d"
  shows "recover_owners now [o'] d = Inr (recovered now o' d)" "books_ok (recovered now o' d)"
    "truth o' (recovered now o' d) = live_truth now o' d"
    "p \<noteq> o' \<Longrightarrow> truth p (recovered now o' d) = truth p d"
    "counters (scan_usage o' (recovered now o' d)) = live_truth now o' d"
    "p \<noteq> o' \<Longrightarrow> counters (scan_usage p (recovered now o' d)) = counters (scan_usage p d)"
    "o' \<in> us_OwnerID ` set (db_owner_usages (recovered now o' d))"
    "documents (recovered now o' d) = documents d"
    "map ur_ID (upload_reservations (recovered now o' d)) = map ur_ID (upload_reservations d)"
    "map ar_ID (answer_reservations (recovered now o' d)) = map ar_ID (answer_reservations d)"
    "map ar_RequestID (answer_reservations (recovered now o' d)) = map ar_RequestID (answer_reservations d)"
proof -
  let ?s = "swept_books now o' d"
  let ?f = "\<lambda>u. u\<lparr>us_CommittedBytes := doc_bytes o' ?s, us_CommittedDocuments := doc_count o' ?s,
              us_ReservedBytes := res_bytes o' ?s, us_ReservedDocuments := res_count o' ?s,
              us_ActiveAnswers := active_count o' ?s, us_UpdatedAt := now\<rparr>"
  have t: "tables_ok d" using ok by (simp add: books_ok_def)
  note s = swept_books [OF t, where now = now and o' = o']
  note s_ok = swept_books_ok [OF ok, where now = now and o' = o']
  have "o' \<in> us_OwnerID ` set (db_owner_usages ?s)" by (simp add: s(4))
  moreover have "bigint_ok (?f (scan_usage o' ?s))" by (simp add: bigint_ok_def books_int64 [OF s_ok])
  ultimately obtain d' where d': "recount now o' ?s = Inr d'"
    "d' = ?s\<lparr>db_owner_usages := update_where (\<lambda>u. us_OwnerID u = o') ?f (db_owner_usages ?s)\<rparr>"
    "tables_ok d'" "scan_usage o' d' = ?f (scan_usage o' ?s)" "\<forall>p. p \<noteq> o' \<longrightarrow> scan_usage p d' = scan_usage p ?s"
    "us_OwnerID ` set (db_owner_usages d') = us_OwnerID ` set (db_owner_usages ?s)"
    using update_usage_ok [OF s(1), of o' ?f] by (auto simp: recount_def)
  show r: "recover_owners now [o'] d = Inr (recovered now o' d)"
    using d'(1) by (simp add: recovered_def swept_books_def)
  have eq: "recovered now o' d = d'" using d'(1) by (simp add: recovered_def swept_books_def)
  have tr: "truth p d' = truth p ?s" for p unfolding d'(2) by simp
  show "books_ok (recovered now o' d)"
    using d'(3) s_ok truth_eq_quota [OF tr] by (simp add: eq books_ok_def)
  show "truth o' (recovered now o' d) = live_truth now o' d" by (simp add: eq tr s(2))
  show "p \<noteq> o' \<Longrightarrow> truth p (recovered now o' d) = truth p d" by (simp add: eq tr s(3))
  show "counters (scan_usage o' (recovered now o' d)) = live_truth now o' d"
    using s(2) by (simp add: eq d'(4) counters_def truth_def)
  have "scan_usage p ?s = scan_usage p (lockOwnerUsage now o' d)" for p by (simp add: scan_usage_def s(4))
  then show "p \<noteq> o' \<Longrightarrow> counters (scan_usage p (recovered now o' d)) = counters (scan_usage p d)"
    using d'(5) by (simp add: eq)
  show "o' \<in> us_OwnerID ` set (db_owner_usages (recovered now o' d))" by (simp add: eq d'(6) s(4))
  show "documents (recovered now o' d) = documents d"
    "map ur_ID (upload_reservations (recovered now o' d)) = map ur_ID (upload_reservations d)"
    "map ar_ID (answer_reservations (recovered now o' d)) = map ar_ID (answer_reservations d)"
    "map ar_RequestID (answer_reservations (recovered now o' d)) = map ar_RequestID (answer_reservations d)"
    by (simp_all add: eq d'(2) s)
qed

section \<open>The operations on correct books\<close>

lemma live_truth_lock [simp]: "live_truth now p (lockOwnerUsage now' o' d) = live_truth now p d"
  by (simp add: live_truth_def doc_bytes_def doc_count_def)

definition opened :: "time \<Rightarrow> string \<Rightarrow> db \<Rightarrow> db" where
  "opened now o' d = recovered now o' (lockOwnerUsage now o' d)"

lemma opened:
  assumes "books_ok d"
  shows "recoverExpiredReservations (Some o') now (lockOwnerUsage now o' d) = Inr (opened now o' d)"
    "books_ok (opened now o' d)" "truth o' (opened now o' d) = live_truth now o' d"
    "p \<noteq> o' \<Longrightarrow> truth p (opened now o' d) = truth p d"
    "counters (scan_usage o' (opened now o' d)) = live_truth now o' d"
    "p \<noteq> o' \<Longrightarrow> counters (scan_usage p (opened now o' d)) = counters (scan_usage p d)"
    "o' \<in> us_OwnerID ` set (db_owner_usages (opened now o' d))"
    "documents (opened now o' d) = documents d"
    "map ur_ID (upload_reservations (opened now o' d)) = map ur_ID (upload_reservations d)"
    "map ar_ID (answer_reservations (opened now o' d)) = map ar_ID (answer_reservations d)"
    "map ar_RequestID (answer_reservations (opened now o' d)) = map ar_RequestID (answer_reservations d)"
proof -
  have ok: "books_ok (lockOwnerUsage now o' d)" using assms by simp
  show "recoverExpiredReservations (Some o') now (lockOwnerUsage now o' d) = Inr (opened now o' d)"
    using recover_one(1) [OF ok] by (simp add: recoverExpiredReservations_def opened_def del: recover_owners.simps)
qed (use recover_one(2-) [where d = "lockOwnerUsage now o' d" and now = now and o' = o'] assms in \<open>simp_all add: opened_def\<close>)

definition exceeds :: "time \<Rightarrow> string \<Rightarrow> int \<Rightarrow> db \<Rightarrow> bool" where
  "exceeds now o' sz d =
     (case live_truth now o' d of (cb, cd, rb, rc, _) \<Rightarrow> cb + rb + sz > maxOwnerStorage \<or> cd + rc + 1 > maxOwnerDocuments)"

fun add_counters :: "counters \<Rightarrow> counters \<Rightarrow> counters" where
  "add_counters (a, b, c, e, f) (a', b', c', e', f') = (a + a', b + b', c + c', e + e', f + f')"

lemma update_usage_counters:
  assumes "tables_ok d" "o' \<in> us_OwnerID ` set (db_owner_usages d)"
    and "\<And>u. us_OwnerID (f u) = us_OwnerID u" "update_usage o' f d = Inr d'"
  shows "tables_ok d'" "\<And>p. truth p d' = truth p d"
    "counters (scan_usage o' d') = counters (f (scan_usage o' d))"
    "\<And>p. p \<noteq> o' \<Longrightarrow> counters (scan_usage p d') = counters (scan_usage p d)"
    "\<exists>us. d' = d\<lparr>db_owner_usages := us\<rparr>"
proof -
  have "bigint_ok (f (scan_usage o' d))"
    using scan_usage_in [OF assms(2)] assms(4) by (auto simp: update_usage_def list_ex_iff split: if_splits)
  from update_usage_ok [OF assms(1-3) this] assms(4) show
    "tables_ok d'" "\<And>p. truth p d' = truth p d" "counters (scan_usage o' d') = counters (f (scan_usage o' d))"
    "\<And>p. p \<noteq> o' \<Longrightarrow> counters (scan_usage p d') = counters (scan_usage p d)" "\<exists>us. d' = d\<lparr>db_owner_usages := us\<rparr>"
    by auto
qed

lemma scan_usage_frame [simp]:
  "scan_usage p (d\<lparr>upload_reservations := rs\<rparr>) = scan_usage p d"
  "scan_usage p (d\<lparr>answer_reservations := as\<rparr>) = scan_usage p d"
  "scan_usage p (d\<lparr>documents := ds\<rparr>) = scan_usage p d"
  "scan_usage p (d\<lparr>document_chunks := cs\<rparr>) = scan_usage p d"
  "scan_usage p (d\<lparr>document_questions := qs\<rparr>) = scan_usage p d"
  by (simp_all add: scan_usage_def)

lemma ReserveUpload_cases:
  assumes ok: "books_ok d" and sz: "0 \<le> sz" "sz \<le> maxInt64_minus_storage"
    and call: "ReserveUpload now o' rid did sz expiresAt d = (res, d')"
  obtains (refused) "exceeds now o' sz d" "res = Inl ErrQuotaExceeded" "d' = d"
  | (clash) "\<not> exceeds now o' sz d" "rid \<in> ur_ID ` set (upload_reservations d)" "res = Inl ErrConstraint" "d' = d"
  | (granted) "\<not> exceeds now o' sz d" "rid \<notin> ur_ID ` set (upload_reservations d)" "res = Inr ()"
      "books_ok d'" "documents d' = documents d"
      "truth o' d' = add_counters (live_truth now o' d) (0, 0, sz, 1, 0)" "\<And>p. p \<noteq> o' \<Longrightarrow> truth p d' = truth p d"
      "counters (scan_usage o' d') = truth o' d'" "\<And>p. p \<noteq> o' \<Longrightarrow> counters (scan_usage p d') = counters (scan_usage p d)"
proof -
  let ?d = "opened now o' d"
  note o1 = opened [OF ok, where o' = o' and now = now]
  have t: "tables_ok ?d" using o1(2) by (simp add: books_ok_def)
  obtain cb cd rb rc ac where live: "live_truth now o' d = (cb, cd, rb, rc, ac)" by (metis prod_cases5)
  have u: "us_CommittedBytes (scan_usage o' ?d) = cb" "us_CommittedDocuments (scan_usage o' ?d) = cd"
    "us_ReservedBytes (scan_usage o' ?d) = rb" "us_ReservedDocuments (scan_usage o' ?d) = rc"
    "us_ActiveAnswers (scan_usage o' ?d) = ac"
    using o1(5) live by (simp_all add: counters_def)
  have b: "0 \<le> cb" "0 \<le> rb" "0 \<le> cd" "0 \<le> rc" "0 \<le> ac" "cb + rb \<le> maxOwnerStorage" "cd + rc \<le> maxOwnerDocuments"
    "ac \<le> maxActiveAnswers"
    using o1(2,3) live doc_sums_nonneg [OF t, of o'] by (auto simp: books_ok_def within_quota_def truth_def)
  then have w: "wrap64 (wrap64 (cb + rb) + sz) = cb + rb + sz" "wrap64 (wrap64 (cd + rc) + 1) = cd + rc + 1"
    using sz by (simp_all add: is_int64_def quota_limits maxInt64_minus_storage_def)
  let ?f = "\<lambda>u. u\<lparr>us_ReservedBytes := us_ReservedBytes u + sz, us_ReservedDocuments := us_ReservedDocuments u + 1,
      us_UpdatedAt := now\<rparr>"
  let ?r = "\<lparr>ur_ID = rid, ur_OwnerID = o', ur_DocumentID = did, ur_Bytes = sz, ur_State = ''reserved'',
      ur_ExpiresAt = expiresAt, ur_CreatedAt = now, ur_CommittedAt = None, ur_ReleasedAt = None\<rparr>"
  have ids: "ur_ID ` set (upload_reservations ?d) = ur_ID ` set (upload_reservations d)"
    using o1(9) by (metis set_map)
  show thesis
  proof (cases "exceeds now o' sz d")
    case True
    with call have "res = Inl ErrQuotaExceeded" "d' = d"
      by (auto simp: ReserveUpload_def transaction_def o1(1) Let_def u w exceeds_def live)
    with True refused show thesis by blast
  next
    case False
    have "bigint_ok (?f (scan_usage o' ?d))"
      using b sz by (simp add: bigint_ok_def u is_int64_def quota_limits maxInt64_minus_storage_def)
    then obtain d2 where upd: "update_usage o' ?f ?d = Inr d2"
      using update_usage_ok [OF t o1(7), of ?f] by auto
    note d2 = update_usage_counters [OF t o1(7) _ upd, simplified]
    from d2(5) obtain us where d2_eq: "d2 = ?d\<lparr>db_owner_usages := us\<rparr>" by blast
    have int: "is_int64 sz" using sz by (simp add: is_int64_def quota_limits maxInt64_minus_storage_def)
    show thesis
    proof (cases "rid \<in> ur_ID ` set (upload_reservations d)")
      case True
      with False call ids upd have "res = Inl ErrConstraint" "d' = d"
        by (auto simp: ReserveUpload_def transaction_def o1(1) Let_def u w exceeds_def live insert_reservation_def d2_eq)
      with True False clash show thesis by blast
    next
      case new: False
      with False call ids upd int have r: "res = Inr ()" and d': "d' = d2\<lparr>upload_reservations := upload_reservations d2 @ [?r]\<rparr>"
        by (auto simp: ReserveUpload_def transaction_def o1(1) Let_def u w exceeds_def live insert_reservation_def d2_eq)
      have tr: "truth o' d' = add_counters (live_truth now o' d) (0, 0, sz, 1, 0)"
        using o1(3) by (simp add: d' d2_eq truth_defs reserved_by_def live)
      have tr': "truth p d' = truth p d" if "p \<noteq> o'" for p
        using o1(4) [OF that] that by (simp add: d' d2_eq truth_defs reserved_by_def)
      have "tables_ok d'" using d2(1) new ids sz by (auto simp: d' tables_ok_def d2_eq)
      moreover have "within_quota p d'" for p
      proof (cases "p = o'")
        case True
        with tr False b(8) show ?thesis by (auto simp: exceeds_def live truth_def within_quota_def)
      next
        case False
        with truth_eq_quota [OF tr'] ok show ?thesis by (simp add: books_ok_def)
      qed
      ultimately have "books_ok d'" by (simp add: books_ok_def)
      moreover have "counters (scan_usage o' d') = truth o' d'"
        unfolding tr using d2(3) by (simp add: d' live counters_def u)
      moreover have "counters (scan_usage p d') = counters (scan_usage p d)" if "p \<noteq> o'" for p
        using d2(4) o1(6) that by (simp add: d')
      ultimately show thesis using granted [OF False new r] tr tr' o1(8) by (simp add: d' d2_eq)
    qed
  qed
qed

subsection \<open>Settling a reservation\<close>

lemma settle_upload:
  assumes ok: "tables_ok d" and r: "r \<in> set (upload_reservations d)" "ur_State r = ''reserved''"
    and f: "\<And>x. ur_ID (f x) = ur_ID x" "\<And>x. ur_Bytes (f x) = ur_Bytes x" "\<And>x. ur_State (f x) \<noteq> ''reserved''"
  shows "tables_ok (set_reservation (ur_ID r) f d)"
    "truth p (set_reservation (ur_ID r) f d) =
      (if p = ur_OwnerID r then add_counters (truth p d) (0, 0, - ur_Bytes r, - 1, 0) else truth p d)"
    "scan_usage p (set_reservation (ur_ID r) f d) = scan_usage p d"
proof -
  let ?t = "update_where (\<lambda>x. ur_ID x = ur_ID r) f (upload_reservations d)"
  have dist: "distinct (map ur_ID (upload_reservations d))" using ok by (simp add: tables_ok_def)
  have "map ur_ID ?t = map ur_ID (upload_reservations d)" by (rule map_update_where_key) (rule f)
  moreover have "\<forall>x \<in> set ?t. 0 \<le> ur_Bytes x" using ok f(2) by (auto simp: in_update_where tables_ok_def)
  ultimately show "tables_ok (set_reservation (ur_ID r) f d)"
    using ok by (simp add: tables_ok_def set_reservation_def)
  have "sum_where (reserved_by p) v ?t = sum_where (reserved_by p) v (upload_reservations d) - (if p = ur_OwnerID r then v r else 0)" for v
    by (subst sum_where_update_key [OF dist r(1)]) (use r(2) f(3) in \<open>auto simp: reserved_by_def\<close>)
  then show "truth p (set_reservation (ur_ID r) f d) =
      (if p = ur_OwnerID r then add_counters (truth p d) (0, 0, - ur_Bytes r, - 1, 0) else truth p d)"
    by (simp add: set_reservation_def truth_defs count_where_sum)
  show "scan_usage p (set_reservation (ur_ID r) f d) = scan_usage p d" by (simp add: set_reservation_def)
qed

lemma settle_answer:
  assumes ok: "tables_ok d" and r: "r \<in> set (answer_reservations d)" "ar_State r = ''active''"
    and f: "\<And>x. ar_ID (f x) = ar_ID x" "\<And>x. ar_State (f x) \<noteq> ''active''"
  defines "d' \<equiv> d\<lparr>answer_reservations := update_where (\<lambda>x. ar_ID x = ar_ID r) f (answer_reservations d)\<rparr>"
  shows "tables_ok d'"
    "truth p d' = (if p = ar_OwnerID r then add_counters (truth p d) (0, 0, 0, 0, - 1) else truth p d)"
    "scan_usage p d' = scan_usage p d"
proof -
  let ?t = "update_where (\<lambda>x. ar_ID x = ar_ID r) f (answer_reservations d)"
  have dist: "distinct (map ar_ID (answer_reservations d))" using ok by (simp add: tables_ok_def)
  have "map ar_ID ?t = map ar_ID (answer_reservations d)" by (rule map_update_where_key) (rule f)
  then show "tables_ok d'" using ok by (simp add: tables_ok_def d'_def)
  have "sum_where (\<lambda>x. ar_OwnerID x = p \<and> ar_State x = ''active'') v ?t =
      sum_where (\<lambda>x. ar_OwnerID x = p \<and> ar_State x = ''active'') v (answer_reservations d) - (if p = ar_OwnerID r then v r else 0)" for v
    by (subst sum_where_update_key [OF dist r(1)]) (use r(2) f(2) in auto)
  then show "truth p d' = (if p = ar_OwnerID r then add_counters (truth p d) (0, 0, 0, 0, - 1) else truth p d)"
    by (simp add: d'_def truth_defs count_where_sum)
  show "scan_usage p d' = scan_usage p d" by (simp add: d'_def)
qed

lemma find_reservation_ok:
  "find_reservation rid d = Inr r \<Longrightarrow> r \<in> set (upload_reservations d) \<and> ur_ID r = rid"
  by (auto simp: find_reservation_def first_or_not_found_def split: option.splits dest: find_SomeD)

lemma find_answer_ok:
  "find_answer rid d = Inr r \<Longrightarrow> r \<in> set (answer_reservations d) \<and> ar_ID r = rid"
  by (auto simp: find_answer_def first_or_not_found_def split: option.splits dest: find_SomeD)

lemma find_lock [simp]:
  "find_reservation rid (lockOwnerUsage now o' d) = find_reservation rid d"
  "find_answer rid (lockOwnerUsage now o' d) = find_answer rid d"
  by (simp_all add: find_reservation_def find_answer_def)

lemma books_less:
  assumes "books_ok d" "tables_ok d'"
    and "\<And>p. truth p d' = truth p d \<or> (\<exists>a b c e f. truth p d' = add_counters (truth p d) (a, b, c, e, f) \<and>
      a + c \<le> 0 \<and> b + e \<le> 0 \<and> f \<le> 0)"
  shows "books_ok d'"
proof -
  have "within_quota p d'" for p
    using assms(1) assms(3) [of p] by (auto simp: books_ok_def within_quota_def truth_def) (smt (verit))+
  with assms(2) show ?thesis by (simp add: books_ok_def)
qed

lemma ReleaseUpload_cases:
  assumes ok: "tables_ok d" and call: "ReleaseUpload now rid d = (res, d')"
  obtains (error) e where "res = Inl e" "d' = d"
  | (settled) r where "find_reservation rid d = Inr r" "ur_State r \<noteq> ''reserved''" "res = Inr ()"
      "d' = lockOwnerUsage now (ur_OwnerID r) d"
  | (released) r where "find_reservation rid d = Inr r" "ur_State r = ''reserved''" "res = Inr ()" "tables_ok d'"
      "\<And>p. truth p d' = (if p = ur_OwnerID r then add_counters (truth p d) (0, 0, - ur_Bytes r, - 1, 0) else truth p d)"
      "\<And>p. counters (scan_usage p d') = (if p = ur_OwnerID r then
         (case counters (scan_usage p d) of (a, b, c, e, f) \<Rightarrow> (a, b, max (c - ur_Bytes r) 0, max (e - 1) 0, f))
         else counters (scan_usage p d))"
proof (cases res)
  case (Inl e)
  with call error transaction_error show thesis unfolding ReleaseUpload_def by blast
next
  case (Inr u)
  with call obtain r where r: "find_reservation rid d = Inr r"
    by (auto simp: ReleaseUpload_def transaction_ok and_then_Inr)
  let ?l = "lockOwnerUsage now (ur_OwnerID r) d"
  let ?f = "\<lambda>u. u\<lparr>us_ReservedBytes := max (us_ReservedBytes u - ur_Bytes r) 0,
     us_ReservedDocuments := max (us_ReservedDocuments u - 1) 0, us_UpdatedAt := now\<rparr>"
  let ?g = "\<lambda>r. r\<lparr>ur_State := ''released'', ur_ReleasedAt := Some now\<rparr>"
  note rin = find_reservation_ok [OF r]
  show thesis
  proof (cases "ur_State r = ''reserved''")
    case False
    with Inr call r settled show thesis by (auto simp: ReleaseUpload_def transaction_ok Let_def)
  next
    case True
    with Inr call r obtain d2 where upd: "update_usage (ur_OwnerID r) ?f ?l = Inr d2" and d': "d' = set_reservation rid ?g d2"
      by (auto simp: ReleaseUpload_def transaction_ok Let_def and_then_Inr)
    have t: "tables_ok ?l" using ok by simp
    note d2 = update_usage_counters [OF t lock_owner _ upd, simplified]
    have r2: "r \<in> set (upload_reservations d2)" using d2(5) rin by auto
    note s = settle_upload [OF d2(1) r2 True, of ?g, simplified rin, simplified, folded d']
    have "counters (scan_usage p d') = (if p = ur_OwnerID r then
         (case counters (scan_usage p d) of (a, b, c, e, f) \<Rightarrow> (a, b, max (c - ur_Bytes r) 0, max (e - 1) 0, f))
         else counters (scan_usage p d))" for p
      using d2(3,4) lock_scan [of p now "ur_OwnerID r" d] s(3) [of p] by (auto simp: counters_def)
    with released [OF r True] Inr s(1,2) d2(2) show thesis by simp
  qed
qed

subsection \<open>Committing\<close>

lemma insert_document_books:
  assumes ok: "tables_ok d" and sz: "0 \<le> doc_Size doc"
    and ins: "insert_document accepts (doc\<lparr>doc_OwnerID := o'\<rparr>) d = Inr d'"
  shows "tables_ok d'" "upload_reservations d' = upload_reservations d"
    "db_owner_usages d' = db_owner_usages d"
    "truth p d' = (if p = o' then add_counters (truth p d) (doc_Size doc, 1, 0, 0, 0) else truth p d)"
proof -
  have "keys_ok d'" using keys_ok_insert_document ins ok by (auto simp: tables_ok_def)
  with ok sz ins show "tables_ok d'" by (auto simp: tables_ok_def insert_document_def split: if_splits)
  show "upload_reservations d' = upload_reservations d" "db_owner_usages d' = db_owner_usages d"
    "truth p d' = (if p = o' then add_counters (truth p d) (doc_Size doc, 1, 0, 0, 0) else truth p d)"
    using ins by (auto simp: insert_document_def truth_defs split: if_splits)
qed

lemma commit_counters: "counters (commit_usage now b u) = add_counters (counters u) (b, 1, - b, - 1, 0)"
  by (simp add: counters_def commit_usage_def)

lemma CreateOwnedAndCommitUpload_cases:
  assumes ok: "tables_ok d" and sz: "0 \<le> doc_Size doc"
    and call: "CreateOwnedAndCommitUpload accepts now o' doc rid d = (res, d')"
  obtains (error) e where "res = Inl e" "d' = d"
  | (committed) r d2 where "find_reservation rid d = Inr r" "ur_State r = ''reserved''" "ur_OwnerID r = o'"
      "ur_DocumentID r = doc_ID doc" "res = Inr ()" "tables_ok d'"
      "insert_document accepts (doc\<lparr>doc_OwnerID := o'\<rparr>) (lockOwnerUsage now o' d) = Inr d2" "documents d' = documents d2"
      "\<And>p. truth p d' = (if p = o' then add_counters (truth p d) (doc_Size doc, 1, - ur_Bytes r, - 1, 0) else truth p d)"
      "\<And>p. counters (scan_usage p d') = (if p = o' then add_counters (counters (scan_usage p d)) (ur_Bytes r, 1, - ur_Bytes r, - 1, 0)
         else counters (scan_usage p d))"
proof (cases res)
  case (Inl e)
  with call error transaction_error show thesis unfolding CreateOwnedAndCommitUpload_def by blast
next
  case (Inr u)
  let ?l = "lockOwnerUsage now o' d"
  let ?g = "\<lambda>r. r\<lparr>ur_State := ''committed'', ur_CommittedAt := Some now\<rparr>"
  from Inr call obtain r d2 d3 where r: "find_reservation rid d = Inr r" "ur_State r = ''reserved''" "ur_OwnerID r = o'"
      "ur_DocumentID r = doc_ID doc"
    and ins: "insert_document accepts (doc\<lparr>doc_OwnerID := o'\<rparr>) ?l = Inr d2"
    and upd: "update_usage o' (commit_usage now (ur_Bytes r)) d2 = Inr d3" and d': "d' = set_reservation rid ?g d3"
    by (auto simp: CreateOwnedAndCommitUpload_def transaction_ok Let_def and_then_Inr split: if_splits)
  note rin = find_reservation_ok [OF r(1)]
  have t: "tables_ok ?l" using ok by simp
  note d2 = insert_document_books [OF t sz ins]
  have "o' \<in> us_OwnerID ` set (db_owner_usages d2)" by (simp add: d2(3))
  note d3 = update_usage_counters [OF d2(1) this _ upd, unfolded commit_counters, unfolded commit_usage_def, simplified]
  have "upload_reservations d3 = upload_reservations d2" using d3(5) by auto
  with rin have r3: "r \<in> set (upload_reservations d3)" by (simp add: d2(2))
  note s = settle_upload [OF d3(1) r3 r(2), of ?g, simplified rin, simplified, folded d']
  have tr: "truth p d' = (if p = o' then add_counters (truth p d) (doc_Size doc, 1, - ur_Bytes r, - 1, 0) else truth p d)" for p
    using s(2) [of p] d3(2) [of p] d2(4) [of p] r(3) by (cases "truth p d") auto
  have "scan_usage p d2 = scan_usage p ?l" for p by (simp add: scan_usage_def d2(3))
  then have "counters (scan_usage p d2) = counters (scan_usage p d)" for p by simp
  with d3(3,4) s(3) have "counters (scan_usage p d') = (if p = o' then add_counters (counters (scan_usage p d)) (ur_Bytes r, 1, - ur_Bytes r, - 1, 0)
         else counters (scan_usage p d))" for p by simp
  moreover have "documents d' = documents d2" using d3(5) by (auto simp: d' set_reservation_def)
  ultimately show thesis using committed [OF r _ s(1) ins _ tr] Inr by simp
qed

lemma CommitUpload_cases:
  assumes ok: "tables_ok d" and call: "CommitUpload now rid d = (res, d')"
  obtains (error) e where "res = Inl e" "d' = d"
  | (settled) r where "find_reservation rid d = Inr r" "ur_State r \<noteq> ''reserved''" "res = Inr ()"
      "d' = lockOwnerUsage now (ur_OwnerID r) d"
  | (committed) r where "find_reservation rid d = Inr r" "ur_State r = ''reserved''" "res = Inr ()" "tables_ok d'"
      "\<And>p. truth p d' = (if p = ur_OwnerID r then add_counters (truth p d) (0, 0, - ur_Bytes r, - 1, 0) else truth p d)"
      "\<And>p. counters (scan_usage p d') = (if p = ur_OwnerID r
         then add_counters (counters (scan_usage p d)) (ur_Bytes r, 1, - ur_Bytes r, - 1, 0)
         else counters (scan_usage p d))"
proof (cases res)
  case (Inl e)
  with call error transaction_error show thesis unfolding CommitUpload_def by blast
next
  case (Inr u)
  with call obtain r where r: "find_reservation rid d = Inr r"
    by (auto simp: CommitUpload_def transaction_ok and_then_Inr)
  let ?l = "lockOwnerUsage now (ur_OwnerID r) d"
  let ?g = "\<lambda>r. r\<lparr>ur_State := ''committed'', ur_CommittedAt := Some now\<rparr>"
  note rin = find_reservation_ok [OF r]
  show thesis
  proof (cases "ur_State r = ''reserved''")
    case False
    with Inr call r settled show thesis by (auto simp: CommitUpload_def transaction_ok Let_def)
  next
    case True
    with Inr call r obtain d2 where upd: "update_usage (ur_OwnerID r) (commit_usage now (ur_Bytes r)) ?l = Inr d2"
      and d': "d' = set_reservation rid ?g d2"
      by (auto simp: CommitUpload_def transaction_ok Let_def and_then_Inr)
    have t: "tables_ok ?l" using ok by simp
    note d2 = update_usage_counters [OF t lock_owner _ upd, unfolded commit_counters, unfolded commit_usage_def, simplified]
    have r2: "r \<in> set (upload_reservations d2)" using d2(5) rin by auto
    note s = settle_upload [OF d2(1) r2 True, of ?g, simplified rin, simplified, folded d']
    have "counters (scan_usage p d') = (if p = ur_OwnerID r
         then add_counters (counters (scan_usage p d)) (ur_Bytes r, 1, - ur_Bytes r, - 1, 0)
         else counters (scan_usage p d))" for p
      using d2(3,4) s(3) [of p] by simp
    with committed [OF r True] Inr s(1,2) d2(2) show thesis by simp
  qed
qed

subsection \<open>Answers\<close>

lemma BeginAnswer_cases:
  assumes ok: "books_ok d" and call: "BeginAnswer now o' rid expiresAt d = (res, d')"
  obtains (error) e where "res = Inl e" "d' = d"
      "e = ErrQuotaExceeded \<longleftrightarrow> (case live_truth now o' d of (_, _, _, _, ac) \<Rightarrow> maxActiveAnswers \<le> ac)"
  | (granted) "(case live_truth now o' d of (_, _, _, _, ac) \<Rightarrow> ac < maxActiveAnswers)" "res = Inr ()" "books_ok d'"
      "truth o' d' = add_counters (live_truth now o' d) (0, 0, 0, 0, 1)" "\<And>p. p \<noteq> o' \<Longrightarrow> truth p d' = truth p d"
      "counters (scan_usage o' d') = truth o' d'" "\<And>p. p \<noteq> o' \<Longrightarrow> counters (scan_usage p d') = counters (scan_usage p d)"
      "documents d' = documents d"
proof -
  let ?d = "opened now o' d"
  let ?f = "\<lambda>u. u\<lparr>us_ActiveAnswers := us_ActiveAnswers u + 1, us_UpdatedAt := now\<rparr>"
  let ?r = "\<lparr>ar_ID = rid, ar_OwnerID = o', ar_RequestID = rid, ar_State = ''active'', ar_ExpiresAt = expiresAt,
      ar_CreatedAt = now, ar_FinishedAt = None\<rparr>"
  note o1 = opened [OF ok, where o' = o' and now = now]
  have t: "tables_ok ?d" using o1(2) by (simp add: books_ok_def)
  obtain cb cd rb rc ac where live: "live_truth now o' d = (cb, cd, rb, rc, ac)" by (metis prod_cases5)
  have u: "us_ActiveAnswers (scan_usage o' ?d) = ac" using o1(5) live by (simp add: counters_def)
  show thesis
  proof (cases "maxActiveAnswers \<le> ac")
    case True
    with call have "res = Inl ErrQuotaExceeded" "d' = d"
      by (auto simp: BeginAnswer_def transaction_def o1(1) Let_def u)
    with True live error show thesis by auto
  next
    case False
    have b: "cb + rb \<le> maxOwnerStorage" "cd + rc \<le> maxOwnerDocuments"
      using o1(2,3) live by (auto simp: books_ok_def within_quota_def truth_def)
    show thesis
    proof (cases res)
      case (Inl e)
      with call have "d' = d" using transaction_error unfolding BeginAnswer_def by blast
      moreover have "e \<noteq> ErrQuotaExceeded"
        using Inl call False
        by (auto simp: BeginAnswer_def transaction_def o1(1) Let_def u and_then_def update_usage_def insert_answer_def
            split: if_splits sum.splits)
      ultimately show thesis using error Inl live False by auto
    next
      case (Inr v)
      with call False obtain d2 where upd: "update_usage o' ?f ?d = Inr d2"
        and ins: "insert_answer ?r d2 = Inr d'"
        by (auto simp: BeginAnswer_def transaction_ok o1(1) Let_def u and_then_Inr)
      note d2 = update_usage_counters [OF t o1(7) _ upd, simplified]
      from d2(5) obtain us where d2_eq: "d2 = ?d\<lparr>db_owner_usages := us\<rparr>" by blast
      from ins have d': "d' = d2\<lparr>answer_reservations := answer_reservations d2 @ [?r]\<rparr>"
        and fresh: "rid \<notin> ar_ID ` set (answer_reservations d2)"
        by (auto simp: insert_answer_def split: if_splits)
      have tr: "truth o' d' = add_counters (live_truth now o' d) (0, 0, 0, 0, 1)"
        using o1(3) by (simp add: d' d2_eq truth_defs live)
      have tr': "truth p d' = truth p d" if "p \<noteq> o'" for p
        using o1(4) [OF that] that by (simp add: d' d2_eq truth_defs)
      have "tables_ok d'" using d2(1) fresh by (auto simp: d' tables_ok_def)
      moreover have "within_quota p d'" for p
      proof (cases "p = o'")
        case True
        with tr False b live show ?thesis by (auto simp: truth_def within_quota_def)
      next
        case False
        with truth_eq_quota [OF tr'] ok show ?thesis by (simp add: books_ok_def)
      qed
      ultimately have "books_ok d'" by (simp add: books_ok_def)
      moreover have "counters (scan_usage o' d') = truth o' d'"
        unfolding tr using d2(3) o1(5) live by (simp add: d' counters_def)
      moreover have "counters (scan_usage p d') = counters (scan_usage p d)" if "p \<noteq> o'" for p
        using d2(4) o1(6) that by (simp add: d')
      ultimately show thesis using granted Inr tr tr' False live o1(8) by (simp add: d' d2_eq)
    qed
  qed
qed

lemma EndAnswer_cases:
  assumes ok: "tables_ok d" and call: "EndAnswer now rid state d = (res, d')" and st: "state \<noteq> ''active''"
  obtains (error) e where "res = Inl e" "d' = d"
  | (settled) r where "find_answer rid d = Inr r" "ar_State r \<noteq> ''active''" "res = Inr ()"
      "d' = lockOwnerUsage now (ar_OwnerID r) d"
  | (ended) r where "find_answer rid d = Inr r" "ar_State r = ''active''" "res = Inr ()" "tables_ok d'"
      "\<And>p. truth p d' = (if p = ar_OwnerID r then add_counters (truth p d) (0, 0, 0, 0, - 1) else truth p d)"
      "\<And>p. counters (scan_usage p d') = (if p = ar_OwnerID r
         then (case counters (scan_usage p d) of (a, b, c, e, f) \<Rightarrow> (a, b, c, e, max (f - 1) 0))
         else counters (scan_usage p d))"
proof (cases res)
  case (Inl e)
  with call error transaction_error show thesis unfolding EndAnswer_def by blast
next
  case (Inr u)
  with call obtain r where r: "find_answer rid d = Inr r"
    by (auto simp: EndAnswer_def transaction_ok and_then_Inr)
  let ?l = "lockOwnerUsage now (ar_OwnerID r) d"
  let ?f = "\<lambda>u. u\<lparr>us_ActiveAnswers := max (us_ActiveAnswers u - 1) 0, us_UpdatedAt := now\<rparr>"
  let ?g = "\<lambda>r. r\<lparr>ar_State := state, ar_FinishedAt := Some now\<rparr>"
  note rin = find_answer_ok [OF r]
  show thesis
  proof (cases "ar_State r = ''active''")
    case False
    with Inr call r settled show thesis by (auto simp: EndAnswer_def transaction_ok Let_def)
  next
    case True
    with Inr call r obtain d2 where upd: "update_usage (ar_OwnerID r) ?f ?l = Inr d2"
      and d': "d' = d2\<lparr>answer_reservations := update_where (\<lambda>x. ar_ID x = rid) ?g (answer_reservations d2)\<rparr>"
      by (auto simp: EndAnswer_def transaction_ok Let_def and_then_Inr)
    have t: "tables_ok ?l" using ok by simp
    note d2 = update_usage_counters [OF t lock_owner _ upd, simplified]
    have r2: "r \<in> set (answer_reservations d2)" using d2(5) rin by auto
    note s = settle_answer [OF d2(1) r2 True, of ?g, simplified rin, simplified st, simplified, folded d']
    have "counters (scan_usage p d') = (if p = ar_OwnerID r
         then (case counters (scan_usage p d) of (a, b, c, e, f) \<Rightarrow> (a, b, c, e, max (f - 1) 0))
         else counters (scan_usage p d))" for p
      using d2(3,4) lock_scan [of p now "ar_OwnerID r" d] by (auto simp: counters_def d')
    with ended [OF r True] Inr s(1,2) [OF st] d2(2) show thesis by simp
  qed
qed

end
