(* ===== verification/Quota_Machine.thy ===== *)
theory Quota_Machine
  imports Quota_Store
begin

text \<open>
  The durable quotas over any run: uploads and answers of all owners, deletions, recovery and the
  workers' operations on the same documents, one transaction after another in any order and at any
  times. No owner ever exceeds the quotas, and the usage rows always say what the documents and the
  reservations say. Recovery restores that from any state of the usage rows.
\<close>

section \<open>Deleting\<close>

lemma delete_documents_books:
  assumes ok: "tables_ok d" and r: "row d i = Some r"
  shows "tables_ok (delete_documents (\<lambda>x. doc_ID x = i) d)"
    "truth p (delete_documents (\<lambda>x. doc_ID x = i) d) =
      (if p = doc_OwnerID r then add_counters (truth p d) (- doc_Size r, - 1, 0, 0, 0) else truth p d)"
    "db_owner_usages (delete_documents (\<lambda>x. doc_ID x = i) d) = db_owner_usages d"
proof -
  note rin = row_ID [OF r]
  have dist: "distinct (map doc_ID (documents d))" using ok by (simp add: tables_ok_def keys_ok_def)
  have keys: "keys_ok (delete_documents (\<lambda>x. doc_ID x = i) d)"
    using ok by (intro keys_ok_delete_documents) (simp add: tables_ok_def)
  show "db_owner_usages (delete_documents (\<lambda>x. doc_ID x = i) d) = db_owner_usages d"
    by (simp add: delete_documents_def Let_def)
  from keys ok show "tables_ok (delete_documents (\<lambda>x. doc_ID x = i) d)"
    by (auto simp: tables_ok_def delete_documents_def Let_def)
  have "sum_where (\<lambda>x. doc_OwnerID x = p) v (delete_where (\<lambda>x. doc_ID x = doc_ID r) (documents d)) =
      sum_where (\<lambda>x. doc_OwnerID x = p) v (documents d) - (if doc_OwnerID r = p then v r else 0)" for v
    by (rule sum_where_delete_key [OF dist]) (use rin in simp)
  with rin show "truth p (delete_documents (\<lambda>x. doc_ID x = i) d) =
      (if p = doc_OwnerID r then add_counters (truth p d) (- doc_Size r, - 1, 0, 0, 0) else truth p d)"
    by (auto simp: delete_documents_def Let_def truth_defs count_where_sum)
qed

lemma delete_locked_eq:
  assumes "keys_ok d" "row d i = Some r"
  shows "delete_locked now o' i r d =
    and_then (update_usage o' (release_usage now (doc_Size r)) (delete_documents (\<lambda>x. doc_ID x = i) d)) (\<lambda>d. Inr (r, d))"
proof -
  have gone: "set (map doc_ID (filter (\<lambda>r. doc_ID r = i) (documents d))) = {i}"
    using assms(2) row_None [of d i] by auto
  have twice: "filter (\<lambda>q. q_DocumentID q \<noteq> i) (filter (\<lambda>q. q_DocumentID q = i \<longrightarrow> q_OwnerID q \<noteq> o') qs)
      = filter (\<lambda>q. q_DocumentID q \<noteq> i) qs" "filter (\<lambda>c. ch_DocumentID c \<noteq> i) (filter (\<lambda>c. ch_DocumentID c \<noteq> i) cs)
      = filter (\<lambda>c. ch_DocumentID c \<noteq> i) cs" for qs and cs :: "documentChunk list"
    by (induction qs) (auto simp del: filter_filter)
  show ?thesis using row_ID [OF assms(2)] gone
    by (simp add: delete_locked_def delete_documents_def Let_def delete_where_def twice del: filter_filter)
qed

lemma DeleteOwnedWithUsage_cases:
  assumes ok: "tables_ok d" and call: "DeleteOwnedWithUsage now o' i d = (res, d')"
  obtains (error) e where "res = Inl e" "d' = d"
  | (deleted) r where "row d i = Some r" "doc_OwnerID r = o'" "res = Inr r" "tables_ok d'"
      "documents d' = delete_where (\<lambda>x. doc_ID x = i) (documents d)"
      "\<And>p. truth p d' = (if p = o' then add_counters (truth p d) (- doc_Size r, - 1, 0, 0, 0) else truth p d)"
      "\<And>p. counters (scan_usage p d') = (if p = o'
         then (case counters (scan_usage p d) of (a, b, c, e, f) \<Rightarrow> (max (a - doc_Size r) 0, max (b - 1) 0, c, e, f))
         else counters (scan_usage p d))"
proof (cases res)
  case (Inl e)
  with call error transaction_error show thesis unfolding DeleteOwnedWithUsage_def by blast
next
  case (Inr x)
  have keys: "keys_ok d" using ok by (simp add: tables_ok_def)
  from Inr call obtain r where r: "row d i = Some r" "doc_OwnerID r = o'"
    and dl: "delete_locked now o' i r d = Inr (x, d')"
    by (auto simp: DeleteOwnedWithUsage_def transaction_ok and_then_Inr FindOwned_row [OF keys] split: option.splits if_splits)
  let ?d = "delete_documents (\<lambda>x. doc_ID x = i) d" and ?f = "release_usage now (doc_Size r)"
  from dl have x: "x = r" and upd: "update_usage o' ?f ?d = Inr d'"
    by (auto simp: delete_locked_eq [OF keys r(1)] and_then_Inr)
  note dd = delete_documents_books [OF ok r(1)]
  have nn: "0 \<le> doc_Size r" using ok row_ID [OF r(1)] by (auto simp: tables_ok_def)
  have scan: "scan_usage p ?d = scan_usage p d" for p by (simp add: scan_usage_def dd(3))
  show thesis
  proof (cases "o' \<in> us_OwnerID ` set (db_owner_usages d)")
    case True
    then have "o' \<in> us_OwnerID ` set (db_owner_usages ?d)" by (simp add: dd(3))
    note d' = update_usage_counters [OF dd(1) this _ upd, unfolded release_usage_def, simplified]
    have "documents d' = delete_where (\<lambda>x. doc_ID x = i) (documents d)"
      using d'(5) by (auto simp: delete_documents_def Let_def)
    with deleted [OF r _ d'(1)] Inr x dd(2) d'(2,3,4) r(2) show thesis
      by (simp add: scan counters_def release_usage_def)
  next
    case False
    then have "update_where (\<lambda>u. us_OwnerID u = o') ?f (db_owner_usages d) = db_owner_usages d"
      by (intro update_where_unaffected) auto
    with upd dd(3) have d': "d' = ?d" by (auto simp: update_usage_def split: if_splits)
    from False have "scan_usage o' d = new_usage 0 o'"
      by (auto simp: scan_usage_def find_None_iff split: option.splits dest: find_SomeD)
    then have "counters (scan_usage o' d) = (0, 0, 0, 0, 0)" by (simp add: counters_def new_usage_def)
    moreover have "documents d' = delete_where (\<lambda>x. doc_ID x = i) (documents d)"
      by (simp add: d' delete_documents_def Let_def)
    ultimately show thesis using deleted [OF r] Inr x dd(1,2) r(2) nn by (simp add: d' scan)
  qed
qed

section \<open>Recovering everybody\<close>

lemma live_truth_swept:
  assumes ok: "tables_ok d"
  shows "live_truth now p (swept_books now o' d) = live_truth now p d"
proof -
  let ?ur = "update_where (\<lambda>x. ur_OwnerID x = o' \<and> expired_upload now x)
    (\<lambda>x. x\<lparr>ur_State := ''released'', ur_ReleasedAt := Some now\<rparr>) (upload_reservations d)"
  let ?ar = "update_where (\<lambda>x. ar_OwnerID x = o' \<and> expired_answer now x)
    (\<lambda>x. x\<lparr>ar_State := ''expired'', ar_FinishedAt := Some now\<rparr>) (answer_reservations d)"
  have t: "tables_ok (lockOwnerUsage now o' d)" using ok by simp
  have r: "release_expired now o' (lockOwnerUsage now o' d) = (lockOwnerUsage now o' d)\<lparr>upload_reservations := ?ur\<rparr>"
    by (simp add: release_expired_eq [OF t])
  have "expire_answers now o' ((lockOwnerUsage now o' d)\<lparr>upload_reservations := ?ur\<rparr>) =
      (lockOwnerUsage now o' d)\<lparr>upload_reservations := ?ur, answer_reservations := ?ar\<rparr>"
    unfolding expire_answers_def expired_answer_def
    by (simp, subst foldl_update_selected) (use ok in \<open>simp_all add: tables_ok_def\<close>)
  then have s: "swept_books now o' d = (lockOwnerUsage now o' d)\<lparr>upload_reservations := ?ur, answer_reservations := ?ar\<rparr>"
    by (simp add: swept_books_def r)
  have "sum_where (\<lambda>r. reserved_by p r \<and> now < ur_ExpiresAt r) v ?ur =
      sum_where (\<lambda>r. reserved_by p r \<and> now < ur_ExpiresAt r) v (upload_reservations d)" for v
    by (rule sum_where_update_keep) (auto simp: expired_upload_def reserved_by_def)
  moreover have "sum_where (\<lambda>r. ar_OwnerID r = p \<and> ar_State r = ''active'' \<and> now < ar_ExpiresAt r) v ?ar =
      sum_where (\<lambda>r. ar_OwnerID r = p \<and> ar_State r = ''active'' \<and> now < ar_ExpiresAt r) v (answer_reservations d)" for v
    by (rule sum_where_update_keep) (auto simp: expired_answer_def)
  ultimately show ?thesis by (simp add: s live_truth_def doc_bytes_def doc_count_def count_where_sum)
qed

lemma live_truth_recovered:
  assumes ok: "books_ok d"
  shows "live_truth now p (recovered now o' d) = live_truth now p d"
proof -
  have t: "tables_ok d" using ok by (simp add: books_ok_def)
  have frame: "\<exists>us. D' = D\<lparr>db_owner_usages := us\<rparr>" if "recount now o' D = Inr D'" for D D'
    using that by (auto simp: recount_def update_usage_def split: if_splits)
  from recover_one(1) [OF ok, of now o'] have "recount now o' (swept_books now o' d) = Inr (recovered now o' d)"
    by (simp add: and_then_Inr swept_books_def)
  from frame [OF this] obtain us where "recovered now o' d = (swept_books now o' d)\<lparr>db_owner_usages := us\<rparr>"
    by blast
  then have "live_truth now p (recovered now o' d) = live_truth now p (swept_books now o' d)"
    by (simp add: live_truth_def doc_bytes_def doc_count_def)
  then show ?thesis by (simp add: live_truth_swept [OF t])
qed

lemma recover_owners_all:
  "books_ok d \<Longrightarrow> \<exists>d'. recover_owners now os d = Inr d' \<and> books_ok d' \<and> documents d' = documents d \<and>
     (\<forall>p. live_truth now p d' = live_truth now p d) \<and>
     (\<forall>p. truth p d' = (if p \<in> set os then live_truth now p d else truth p d)) \<and>
     (\<forall>p. counters (scan_usage p d') = (if p \<in> set os then live_truth now p d else counters (scan_usage p d)))"
proof (induction os arbitrary: d)
  case (Cons o' os)
  let ?d = "recovered now o' d"
  note one = recover_one [OF Cons.prems, where now = now and o' = o']
  have "recover_owners now (o' # os) d = and_then (recover_owners now [o'] d) (recover_owners now os)"
    by (simp add: and_then_def split: sum.splits)
  then have step: "recover_owners now (o' # os) d = recover_owners now os ?d" by (simp add: one(1) del: recover_owners.simps)
  from Cons.IH [OF one(2)] obtain d' where d': "recover_owners now os ?d = Inr d'" "books_ok d'" "documents d' = documents ?d"
    "\<And>p. live_truth now p d' = live_truth now p ?d"
    "\<And>p. truth p d' = (if p \<in> set os then live_truth now p ?d else truth p ?d)"
    "\<And>p. counters (scan_usage p d') = (if p \<in> set os then live_truth now p ?d else counters (scan_usage p ?d))"
    by blast
  show ?case unfolding step d'(1)
    using d'(2-) one(3-6,8) live_truth_recovered [OF Cons.prems, of now _ o'] by auto
qed simp

text \<open>Recovery heals the books. Whatever the usage rows say, after
  \<^verbatim>\<open>RecoverExpiredReservations\<close> every owner's row says exactly what its documents and its
  unexpired reservations add up to, nothing expired is still held, and no document is touched.\<close>

theorem recovery_heals:
  assumes "books_ok d"
  shows "\<exists>d'. RecoverExpiredReservations now d = (Inr (), d') \<and> books_ok d' \<and> documents d' = documents d \<and>
    (\<forall>p. counters (scan_usage p d') = truth p d' \<and> truth p d' = live_truth now p d)"
proof -
  from recover_owners_all [OF assms, of now "all_owners d"] obtain d' where
    d': "recover_owners now (all_owners d) d = Inr d'" "books_ok d'" "documents d' = documents d"
    "\<And>p. truth p d' = (if p \<in> set (all_owners d) then live_truth now p d else truth p d)"
    "\<And>p. counters (scan_usage p d') = (if p \<in> set (all_owners d) then live_truth now p d else counters (scan_usage p d))"
    by blast
  have "counters (scan_usage p d') = truth p d' \<and> truth p d' = live_truth now p d" for p
  proof (cases "p \<in> set (all_owners d)")
    case False
    then have no: "p \<notin> us_OwnerID ` set (db_owner_usages d)" "p \<notin> doc_OwnerID ` set (documents d)"
      "p \<notin> ur_OwnerID ` set (upload_reservations d)" "p \<notin> ar_OwnerID ` set (answer_reservations d)"
      by (auto simp: all_owners_def)
    have zero: "sum_where P v t = 0" if "\<And>r. r \<in> set t \<Longrightarrow> \<not> P r" for P v and t :: "'r list"
      using that by (induction t) auto
    have "truth p d = (0, 0, 0, 0, 0)" "live_truth now p d = (0, 0, 0, 0, 0)"
      using no by (auto simp: truth_defs live_truth_def count_where_sum reserved_by_def intro!: zero)
    moreover from no(1) have "counters (scan_usage p d) = (0, 0, 0, 0, 0)"
      by (auto simp: scan_usage_def find_None_iff counters_def new_usage_def split: option.splits dest: find_SomeD)
    ultimately show ?thesis using False d'(4,5) by simp
  qed (simp add: d'(4,5))
  with d'(1,2,3) show ?thesis
    by (simp add: RecoverExpiredReservations_def recoverExpiredReservations_def transaction_def)
qed

definition sample_owner_row :: dbOwnerUsage where
  "sample_owner_row = \<lparr>us_OwnerID = ''o'', us_CommittedBytes = 999, us_CommittedDocuments = - 7, us_ReservedBytes = 0,
     us_ReservedDocuments = 0, us_ActiveAnswers = 50, us_UpdatedAt = 0\<rparr>"

definition sample_drift :: db where
  "sample_drift = sample_queued\<lparr>db_owner_usages := [sample_owner_row]\<rparr>"

lemma sample_drift_books: "books_ok sample_drift"
  by (simp add: books_ok_def tables_ok_def keys_ok_def within_quota_def truth_defs sample_drift_def
      sample_queued_def sample_document_def quota_limits)

lemma recovery_heals_witness:
  "\<exists>d'. RecoverExpiredReservations 100 sample_drift = (Inr (), d') \<and> counters (scan_usage ''o'' d') = (5, 1, 0, 0, 0)"
proof -
  have "live_truth 100 ''o'' sample_drift = (5, 1, 0, 0, 0)" by code_simp
  with recovery_heals [OF sample_drift_books, of 100] show ?thesis by metis
qed

section \<open>Reserving\<close>

text \<open>The decision on an upload depends on nothing but what the owner really holds: the
  documents and the unexpired reservations. The stored counters, right or wrong, have no influence.
  The upload is reserved exactly when 10 GiB and 1000 documents are enough for it too.\<close>

theorem reserve_upload_decision:
  assumes "books_ok d" and "0 \<le> sz" and "sz \<le> maxInt64_minus_storage"
    and "rid \<notin> ur_ID ` set (upload_reservations d)"
    and "live_truth now o' d = (cb, cd, rb, rc, ac)"
  shows "fst (ReserveUpload now o' rid did sz expiresAt d) =
    (if cb + rb + sz \<le> maxOwnerStorage \<and> cd + rc + 1 \<le> maxOwnerDocuments then Inr () else Inl ErrQuotaExceeded)"
proof -
  obtain res d' where call: "ReserveUpload now o' rid did sz expiresAt d = (res, d')" by force
  from assms(1-3) call show ?thesis
    by (cases rule: ReserveUpload_cases) (use assms(4,5) call in \<open>auto simp: exceeds_def\<close>)
qed

lemma reserve_upload_decision_witness:
  "fst (ReserveUpload 100 ''o'' ''r'' ''r'' 10 200 sample_drift) = Inr ()"
proof -
  have l: "live_truth 100 ''o'' sample_drift = (5, 1, 0, 0, 0)" by code_simp
  have f: "''r'' \<notin> ur_ID ` set (upload_reservations sample_drift)" by (simp add: sample_drift_def sample_queued_def)
  from reserve_upload_decision [OF sample_drift_books _ _ f l, of 10 "''r''" 200] show ?thesis
    by (simp add: quota_limits maxInt64_minus_storage_def)
qed

section \<open>Runs\<close>

datatype quota_event =
    Reserving string string string int time
  | Committing string document string
  | Releasing string
  | Beginning string string time
  | Ending string string
  | Deleting string string
  | Recovering
  | Working time job_event

fun quota_exec :: "queueConfig \<Rightarrow> time \<Rightarrow> quota_event \<Rightarrow> db \<Rightarrow> db" where
  "quota_exec cfg now (Reserving o' rid did sz expiresAt) d = snd (ReserveUpload now o' rid did sz expiresAt d)"
| "quota_exec cfg now (Committing o' doc rid) d = snd (CreateOwnedAndCommitUpload (qc_accepts cfg) now o' doc rid d)"
| "quota_exec cfg now (Releasing rid) d = snd (ReleaseUpload now rid d)"
| "quota_exec cfg now (Beginning o' rid expiresAt) d = snd (BeginAnswer now o' rid expiresAt d)"
| "quota_exec cfg now (Ending rid state) d = snd (EndAnswer now rid state d)"
| "quota_exec cfg now (Deleting o' i) d = snd (DeleteOwnedWithUsage now o' i d)"
| "quota_exec cfg now Recovering d = snd (RecoverExpiredReservations now d)"
| "quota_exec cfg now (Working t e) d = snd (exec cfg t now e d)"

text \<open>What the program calls them with: an upload's file size is not negative, and the document it
  commits has the size it reserved; an answer ends in another state than active; documents are
  created and deleted only with their quota.\<close>

fun keeps_documents :: "job_event \<Rightarrow> bool" where
  "keeps_documents (CreateDoc o' doc) = False"
| "keeps_documents (DeleteByOwner o' i) = False"
| "keeps_documents (DeleteDoc i) = False"
| "keeps_documents _ = True"

fun quota_event_ok :: "db \<Rightarrow> quota_event \<Rightarrow> bool" where
  "quota_event_ok d (Reserving o' rid did sz expiresAt) = (0 \<le> sz \<and> sz \<le> maxInt64_minus_storage)"
| "quota_event_ok d (Committing o' doc rid) = (\<forall>r \<in> set (upload_reservations d). ur_ID r = rid \<longrightarrow> ur_Bytes r = doc_Size doc)"
| "quota_event_ok d (Ending rid state) = (state \<noteq> ''active'')"
| "quota_event_ok d (Working t e) = keeps_documents e"
| "quota_event_ok d _ = True"

inductive quota_reachable :: "queueConfig \<Rightarrow> db \<Rightarrow> bool" for cfg where
  start: "quota_reachable cfg empty_db"
| step: "quota_reachable cfg d \<Longrightarrow> quota_event_ok d e \<Longrightarrow> quota_reachable cfg (quota_exec cfg now e d)"

subsection \<open>The workers' operations\<close>

definition holding :: "document \<Rightarrow> string \<times> string \<times> int \<times> string" where
  "holding r = (doc_ID r, doc_OwnerID r, doc_Size r, doc_StoredPath r)"

definition same_holdings :: "db \<Rightarrow> db \<Rightarrow> bool" where
  "same_holdings d d' \<longleftrightarrow> map holding (documents d') = map holding (documents d) \<and>
     upload_reservations d' = upload_reservations d \<and> answer_reservations d' = answer_reservations d \<and>
     db_owner_usages d' = db_owner_usages d"

lemma same_holdings_refl [simp]: "same_holdings d d"
  by (simp add: same_holdings_def)

lemma same_holdings_truth:
  assumes "same_holdings d d'"
  shows "truth p d' = truth p d" "scan_usage p d' = scan_usage p d"
proof -
  have "sum_where (\<lambda>r. doc_OwnerID r = p) doc_Size t = sum_where (\<lambda>h. fst (snd h) = p) (\<lambda>h. fst (snd (snd h))) (map holding t)"
    "sum_where (\<lambda>r. doc_OwnerID r = p) (\<lambda>_. 1) t = sum_where (\<lambda>h. fst (snd h) = p) (\<lambda>_. 1) (map holding t)" for t
    by (simp_all add: sum_where_map holding_def)
  with assms show "truth p d' = truth p d"
    by (simp add: same_holdings_def truth_defs count_where_sum)
  show "scan_usage p d' = scan_usage p d" using assms by (simp add: same_holdings_def scan_usage_def)
qed

lemma same_holdings_tables:
  assumes "same_holdings d d'" "tables_ok d" "keys_ok d'"
  shows "tables_ok d'"
proof -
  have "(\<lambda>h. fst (snd (snd h))) ` set (map holding (documents d')) = (\<lambda>h. fst (snd (snd h))) ` set (map holding (documents d))"
    using assms(1) by (simp add: same_holdings_def del: set_map)
  then have "doc_Size ` set (documents d') = doc_Size ` set (documents d)" by (simp add: holding_def image_image)
  moreover have "\<forall>x \<in> doc_Size ` set (documents d). 0 \<le> x" using assms(2) by (simp add: tables_ok_def)
  ultimately have "\<forall>x \<in> doc_Size ` set (documents d'). 0 \<le> x" by simp
  with assms show ?thesis by (simp add: tables_ok_def same_holdings_def)
qed

lemma same_holdings_update:
  "(\<And>r. holding (f r) = holding r) \<Longrightarrow> same_holdings d (d\<lparr>documents := update_where P f (documents d)\<rparr>)"
  by (simp add: same_holdings_def map_update_where_key)

lemma holding_changes [simp]:
  "holding (claim t tok dur r) = holding r" "holding (swept t m r) = holding r"
  "holding (renewed t now dur r) = holding r" "holding (requeued now at r) = holding r"
  "holding (completed now content pages r) = holding r" "holding (Job_Store.failed now message kind r) = holding r"
  by (simp_all add: holding_def row_changes swept_def)

lemma same_holdings_leased:
  "update_leased t i tok f d = (res, d') \<Longrightarrow> (\<And>r. holding (f r) = holding r) \<Longrightarrow> same_holdings d d'"
  using same_holdings_update [of f d "holds_lease t i tok"]
  by (auto simp: update_leased_def Let_def split: if_splits)

lemma exec_same_holdings:
  assumes keys: "keys_ok d" and ex: "exec cfg t now e d = (res, d')" and kd: "keeps_documents e"
  shows "same_holdings d d'"
proof (cases e)
  case (ClaimDoc locked tok dur)
  then obtain r0 where "ClaimNext locked t tok dur (qc_maxAttempts cfg) d = (r0, d')"
    using ex by (auto simp: apfst_eq)
  with keys show ?thesis
  proof (cases rule: ClaimNext_cases)
    case (claimed r)
    have "holding (if doc_ID x = doc_ID r then claim t tok dur r else swept t (qc_maxAttempts cfg) x) = holding x"
      if "x \<in> set (documents d)" for x
      using same_key_same_row [OF keys_ok_docs [OF keys] that claimed(2)] by auto
    then show ?thesis by (simp add: claimed(7) same_holdings_def)
  qed (simp add: same_holdings_def)
next
  case (CompleteDoc j tok content pages chunks)
  then obtain r0 where "Complete (qc_accepts cfg) (qc_accepts_chunk cfg) t now j tok content pages chunks d = (r0, d')"
    using ex by (auto simp: apfst_eq)
  with keys show ?thesis
  proof (cases rule: Complete_cases)
    case (ok mid)
    have "same_holdings d (d\<lparr>documents := update_where (holds_lease t j tok) (completed now content pages) (documents d)\<rparr>)"
      by (rule same_holdings_update) simp
    with insert_chunks_frame [OF ok(4)] show ?thesis by (simp add: ok(3) same_holdings_def)
  qed simp_all
next
  case (RetryByOwner o' j)
  then show ?thesis using ex
    by (auto simp: apfst_eq RetryOwned_def transaction_def and_then_def holding_def
        split: sum.splits if_splits intro!: same_holdings_update)
qed (use ex kd in \<open>auto simp: apfst_eq RenewLease_def Retry_def Fail_def elim!: same_holdings_leased\<close>)

subsection \<open>Every step keeps the books\<close>

definition balanced :: "db \<Rightarrow> bool" where
  "balanced d \<longleftrightarrow> books_ok d \<and> (\<forall>p. counters (scan_usage p d) = truth p d)"

lemma balanced_lock: "balanced d \<Longrightarrow> balanced (lockOwnerUsage now o' d)"
  by (simp add: balanced_def)

lemma truth_nonneg:
  assumes "tables_ok d" "truth p d = (a, b, c, e, f)"
  shows "0 \<le> a" "0 \<le> b" "0 \<le> c" "0 \<le> e" "0 \<le> f"
  using doc_sums_nonneg [OF assms(1), of p] assms(2) by (auto simp: truth_def)

lemma balanced_less:
  assumes "balanced d" "tables_ok d'"
    and tr: "\<And>p. truth p d' = (if p = q then add_counters (truth p d) (a, b, c, e, f) else truth p d)"
    and sc: "\<And>p. counters (scan_usage p d') = (if p = q then g (counters (scan_usage p d)) else counters (scan_usage p d))"
    and "a + c \<le> 0" "b + e \<le> 0" "f \<le> 0"
    and g: "g (truth q d) = truth q d'"
  shows "balanced d'"
proof -
  have "truth p d' = truth p d \<or> (\<exists>a b c e f. truth p d' = add_counters (truth p d) (a, b, c, e, f) \<and>
      a + c \<le> 0 \<and> b + e \<le> 0 \<and> f \<le> 0)" for p
    using tr [of p] assms(5-7) by (cases "p = q") (simp_all, blast)
  then have "books_ok d'" using assms(1) by (intro books_less [OF _ assms(2)]) (auto simp: balanced_def)
  moreover have "counters (scan_usage p d') = truth p d'" for p
    using sc [of p] tr [of p] g assms(1) by (cases "p = q") (simp_all add: balanced_def)
  ultimately show ?thesis by (simp add: balanced_def)
qed

lemma balanced_step:
  assumes bal: "balanced d" and ok: "quota_event_ok d ev"
  shows "balanced (quota_exec cfg now ev d)"
proof -
  have t: "tables_ok d" and b: "books_ok d" and sc: "\<And>p. counters (scan_usage p d) = truth p d"
    using bal by (auto simp: balanced_def books_ok_def)
  have nonneg: "0 \<le> x1 \<and> 0 \<le> x2 \<and> 0 \<le> x3 \<and> 0 \<le> x4 \<and> 0 \<le> x5"
    if "tables_ok D" "truth p D = (x1, x2, x3, x4, x5)" for D p x1 x2 x3 x4 x5
    using truth_nonneg [OF that] by blast
  show ?thesis
  proof (cases ev)
    case (Reserving o' rid did sz expiresAt)
    then have sz: "0 \<le> sz" "sz \<le> maxInt64_minus_storage" using ok by auto
    obtain res d' where call: "ReserveUpload now o' rid did sz expiresAt d = (res, d')" by force
    from b sz call have "balanced d'"
    proof (cases rule: ReserveUpload_cases)
      case granted
      have "counters (scan_usage p d') = truth p d'" for p
        using granted(7,8,9) sc by (cases "p = o'") auto
      with granted(4) show ?thesis by (simp add: balanced_def)
    qed (use bal in simp_all)
    with Reserving call show ?thesis by simp
  next
    case (Committing o' doc rid)
    obtain res d' where call: "CreateOwnedAndCommitUpload (qc_accepts cfg) now o' doc rid d = (res, d')" by force
    have "balanced d'"
    proof (cases "find_reservation rid d")
      case (Inl e)
      with call have "d' = d" by (auto simp: CreateOwnedAndCommitUpload_def transaction_def Let_def)
      with bal show ?thesis by simp
    next
      case (Inr r0)
      note r0 = find_reservation_ok [OF Inr]
      then have "ur_Bytes r0 = doc_Size doc" using ok Committing by auto
      moreover have "0 \<le> ur_Bytes r0" using r0 t by (auto simp: tables_ok_def)
      ultimately have sz: "0 \<le> doc_Size doc" by simp
      from t sz call show ?thesis
      proof (cases rule: CreateOwnedAndCommitUpload_cases)
        case (committed r d2)
        then have "ur_Bytes r = doc_Size doc" using Inr \<open>ur_Bytes r0 = doc_Size doc\<close> by simp
        then show ?thesis using committed(9,10)
          by (intro balanced_less [OF bal committed(6)]) auto
      qed (use bal in simp)
    qed
    with Committing call show ?thesis by simp
  next
    case (Releasing rid)
    obtain res d' where call: "ReleaseUpload now rid d = (res, d')" by force
    from t call have "balanced d'"
    proof (cases rule: ReleaseUpload_cases)
      case (released r)
      obtain x1 x2 x3 x4 x5 where tr: "truth (ur_OwnerID r) d = (x1, x2, x3, x4, x5)" by (metis prod_cases5)
      have tr': "truth (ur_OwnerID r) d' = (x1, x2, x3 - ur_Bytes r, x4 - 1, x5)" using released(5) tr by simp
      have "0 \<le> ur_Bytes r" using find_reservation_ok [OF released(1)] t by (auto simp: tables_ok_def)
      then show ?thesis
        by (rule_tac balanced_less [OF bal released(4,5,6)])
          (use nonneg [OF released(4) tr'] tr tr' in auto)
    qed (use bal balanced_lock in auto)
    with Releasing call show ?thesis by simp
  next
    case (Beginning o' rid expiresAt)
    obtain res d' where call: "BeginAnswer now o' rid expiresAt d = (res, d')" by force
    from b call have "balanced d'"
    proof (cases rule: BeginAnswer_cases)
      case granted
      have "counters (scan_usage p d') = truth p d'" for p
        using granted(5,6,7) sc by (cases "p = o'") auto
      with granted(3) show ?thesis by (simp add: balanced_def)
    qed (use bal in simp)
    with Beginning call show ?thesis by simp
  next
    case (Ending rid state)
    obtain res d' where call: "EndAnswer now rid state d = (res, d')" by force
    have "state \<noteq> ''active''" using ok Ending by simp
    with t call have "balanced d'"
    proof (cases rule: EndAnswer_cases)
      case (ended r)
      obtain x1 x2 x3 x4 x5 where tr: "truth (ar_OwnerID r) d = (x1, x2, x3, x4, x5)" by (metis prod_cases5)
      have tr': "truth (ar_OwnerID r) d' = (x1, x2, x3, x4, x5 - 1)" using ended(5) tr by simp
      show ?thesis
        by (rule balanced_less [OF bal ended(4,5,6)])
          (use nonneg [OF ended(4) tr'] tr tr' in auto)
    qed (use bal balanced_lock in auto)
    with Ending call show ?thesis by simp
  next
    case (Deleting o' i)
    obtain res d' where call: "DeleteOwnedWithUsage now o' i d = (res, d')" by force
    from t call have "balanced d'"
    proof (cases rule: DeleteOwnedWithUsage_cases)
      case (deleted r)
      obtain x1 x2 x3 x4 x5 where tr: "truth o' d = (x1, x2, x3, x4, x5)" by (metis prod_cases5)
      have tr': "truth o' d' = (x1 - doc_Size r, x2 - 1, x3, x4, x5)" using deleted(6) tr by simp
      have "0 \<le> doc_Size r" using row_ID [OF deleted(1)] t by (auto simp: tables_ok_def)
      then show ?thesis
        by (rule_tac balanced_less [OF bal deleted(4,6,7)])
          (use nonneg [OF deleted(4) tr'] tr tr' in auto)
    qed (use bal in simp)
    with Deleting call show ?thesis by simp
  next
    case Recovering
    from recover_owners_all [OF b, of now "all_owners d"] obtain d' where
      "recover_owners now (all_owners d) d = Inr d'" "books_ok d'"
      "\<And>p. truth p d' = (if p \<in> set (all_owners d) then live_truth now p d else truth p d)"
      "\<And>p. counters (scan_usage p d') = (if p \<in> set (all_owners d) then live_truth now p d else counters (scan_usage p d))"
      by blast
    with sc show ?thesis
      by (simp add: Recovering balanced_def RecoverExpiredReservations_def recoverExpiredReservations_def transaction_def)
  next
    case (Working u e)
    obtain res d' where ex: "exec cfg u now e d = (res, d')" by force
    have keys: "keys_ok d" using t by (simp add: tables_ok_def)
    have same: "same_holdings d d'" by (rule exec_same_holdings [OF keys ex]) (use ok Working in simp)
    have "tables_ok d'" by (rule same_holdings_tables [OF same t exec_keys [OF keys ex]])
    then have "balanced d'"
      using b sc same_holdings_truth [OF same] truth_eq_quota [OF same_holdings_truth(1) [OF same]]
      by (simp add: balanced_def books_ok_def)
    with Working ex show ?thesis by simp
  qed
qed

lemma balanced_empty: "balanced empty_db"
  by (simp add: balanced_def books_ok_def tables_ok_def within_quota_def truth_defs scan_usage_def
      counters_def new_usage_def quota_limits)

lemma reachable_balanced: "quota_reachable cfg d \<Longrightarrow> balanced d"
  by (induction rule: quota_reachable.induct) (auto simp: balanced_empty intro: balanced_step)

text \<open>C3: no owner ever exceeds its quota. In every state that uploads, answers, deletions,
  recoveries and the workers can bring about, in any order, an owner's documents and open
  reservations are at most 10 GiB and 1000, and at most 2 answers are running.\<close>

theorem quota_never_exceeded:
  assumes "quota_reachable cfg d"
  shows "doc_bytes p d + res_bytes p d \<le> 10 * 2 ^ 30 \<and> doc_count p d + res_count p d \<le> 1000 \<and> active_count p d \<le> 2"
  using reachable_balanced [OF assms] by (auto simp: balanced_def books_ok_def within_quota_def quota_limits)

definition sample_upload :: db where
  "sample_upload = quota_exec sample_config 12 (Committing ''o'' (sample_document ''a'' 10) ''a'')
     (quota_exec sample_config 10 (Reserving ''o'' ''a'' ''a'' 5 500) empty_db)"

lemma sample_upload_reachable: "quota_reachable sample_config sample_upload"
proof -
  have "quota_reachable sample_config (quota_exec sample_config 10 (Reserving ''o'' ''a'' ''a'' 5 500) empty_db)"
    by (rule quota_reachable.step [OF quota_reachable.start]) (simp add: maxInt64_minus_storage_def quota_limits)
  moreover have "quota_event_ok (quota_exec sample_config 10 (Reserving ''o'' ''a'' ''a'' 5 500) empty_db)
      (Committing ''o'' (sample_document ''a'' 10) ''a'')"
    by code_simp
  ultimately show ?thesis unfolding sample_upload_def by (rule quota_reachable.step)
qed

lemma quota_never_exceeded_witness:
  "doc_bytes ''o'' sample_upload = 5 \<and> doc_bytes ''o'' sample_upload + res_bytes ''o'' sample_upload \<le> 10 * 2 ^ 30"
proof -
  have "doc_bytes ''o'' sample_upload = 5" by code_simp
  with quota_never_exceeded [OF sample_upload_reachable, of "''o''"] show ?thesis by simp
qed



section \<open>Committing an upload\<close>

lemma find_reservation_update:
  assumes "find_reservation rid d = Inr r" "\<And>x. ur_ID (f x) = ur_ID x"
  shows "find_reservation rid (set_reservation rid f d) = Inr (f r)"
proof -
  have "find (\<lambda>r. ur_ID r = rid) (update_where (\<lambda>r. ur_ID r = rid) f t) = map_option f (find (\<lambda>r. ur_ID r = rid) t)" for t
    using assms(2) by (induction t) auto
  with assms(1) show ?thesis
    by (auto simp: find_reservation_def set_reservation_def first_or_not_found_def split: option.splits)
qed

text \<open>An upload is committed as a whole or not at all. Either the call fails and the database
  is as before, or the reservation was open, for this owner and this document, and now it is
  committed, the document is stored, and the bytes have moved from reserved to committed.\<close>

theorem upload_commit_atomic:
  assumes "tables_ok d" and "0 \<le> doc_Size doc"
    and "CreateOwnedAndCommitUpload accepts now o' doc rid d = (res, d')"
  shows "(\<exists>e. res = Inl e \<and> d' = d) \<or>
    (\<exists>r. res = Inr () \<and> find_reservation rid d = Inr r \<and> ur_State r = ''reserved'' \<and> ur_OwnerID r = o' \<and>
       ur_DocumentID r = doc_ID doc \<and> row d (doc_ID doc) = None \<and>
       row d' (doc_ID doc) = Some (stored_document o' doc) \<and>
       find_reservation rid d' = Inr (r\<lparr>ur_State := ''committed'', ur_CommittedAt := Some now\<rparr>) \<and>
       truth o' d' = add_counters (truth o' d) (doc_Size doc, 1, - ur_Bytes r, - 1, 0))"
  using assms
proof (cases rule: CreateOwnedAndCommitUpload_cases)
  case (committed r d2)
  have "row d (doc_ID doc) = None" "row d2 (doc_ID doc) = Some (stored_document o' doc)"
    using row_insert [OF committed(7), of "doc_ID doc"] by (simp_all add: row_def stored_document_def)
  moreover have "row d' i = row d2 i" for i by (simp add: row_def committed(8))
  moreover have "find_reservation rid d' = Inr (r\<lparr>ur_State := ''committed'', ur_CommittedAt := Some now\<rparr>)"
  proof -
    from assms(3) committed(1,2,3,4,5,7) obtain d3 where u: "update_usage o' (commit_usage now (ur_Bytes r)) d2 = Inr d3"
      and d': "d' = set_reservation rid (\<lambda>r. r\<lparr>ur_State := ''committed'', ur_CommittedAt := Some now\<rparr>) d3"
      by (auto simp: CreateOwnedAndCommitUpload_def transaction_ok Let_def and_then_Inr)
    have "upload_reservations d3 = upload_reservations d"
      using u committed(7) by (auto simp: update_usage_def insert_document_def split: if_splits)
    then have "find_reservation rid d3 = Inr r" using committed(1) by (simp add: find_reservation_def)
    then show ?thesis unfolding d' by (rule find_reservation_update) simp
  qed
  ultimately show ?thesis using committed(1-5,9) by auto
qed blast

lemma upload_commit_atomic_witness:
  "row sample_upload ''a'' = Some (stored_document ''o'' (sample_document ''a'' 10))"
proof -
  let ?d = "quota_exec sample_config 10 (Reserving ''o'' ''a'' ''a'' 5 500) empty_db"
  have b: "tables_ok ?d"
    using reachable_balanced [OF quota_reachable.step [OF quota_reachable.start, of "Reserving ''o'' ''a'' ''a'' 5 500" sample_config 10]]
    by (simp add: maxInt64_minus_storage_def quota_limits balanced_def books_ok_def)
  have s: "0 \<le> doc_Size (sample_document ''a'' 10)" and i: "doc_ID (sample_document ''a'' 10) = ''a''"
    by (simp_all add: sample_document_def)
  obtain res d' where c: "CreateOwnedAndCommitUpload (\<lambda>_. True) 12 ''o'' (sample_document ''a'' 10) ''a'' ?d = (res, d')" by force
  have r: "res = Inr ()"
  proof -
    have "fst (CreateOwnedAndCommitUpload (\<lambda>_. True) 12 ''o'' (sample_document ''a'' 10) ''a'' ?d) = Inr ()" by code_simp
    with c show ?thesis by simp
  qed
  have "d' = sample_upload" using c by (simp add: sample_upload_def sample_config_def)
  with upload_commit_atomic [OF b s c] r i show ?thesis by (elim disjE exE conjE) simp_all
qed

section \<open>Two deletions at once\<close>

text \<open>Two requests to delete the same document that both read it before the first has locked the
  usage row. The second finds nothing to delete, takes its bytes off the usage row all the same and
  reports success.\<close>

definition two_documents :: db where
  "two_documents = empty_db\<lparr>documents := [sample_document ''a'' 10, sample_document ''b'' 11],
     db_owner_usages := [(new_usage 0 ''o'')\<lparr>us_CommittedBytes := 10, us_CommittedDocuments := 2\<rparr>]\<rparr>"

fun both_delete :: "time \<Rightarrow> string \<Rightarrow> string \<Rightarrow> db \<Rightarrow> error + db" where
  "both_delete now o' i d =
     and_then (FindOwned o' i d) (\<lambda>first.
     and_then (FindOwned o' i d) (\<lambda>second.
     and_then (delete_locked now o' i first d) (\<lambda>(_, d).
     and_then (delete_locked now o' i second d) (\<lambda>(_, d). Inr d))))"

text \<open>Two concurrent deletions of one document both succeed and are both taken off the owner's
  committed usage: with two documents of 5 bytes the row then says 0 bytes in 0 documents although
  one document is left. The next recovery puts it right.\<close>

theorem concurrent_deletes_counted_twice:
  "\<exists>d. both_delete 50 ''o'' ''a'' two_documents = Inr d \<and> truth ''o'' d = (5, 1, 0, 0, 0) \<and>
     counters (scan_usage ''o'' d) = (0, 0, 0, 0, 0) \<and>
     counters (scan_usage ''o'' (snd (RecoverExpiredReservations 60 d))) = (5, 1, 0, 0, 0)"
proof -
  have "case both_delete 50 ''o'' ''a'' two_documents of
      Inl e \<Rightarrow> False
    | Inr d \<Rightarrow> truth ''o'' d = (5, 1, 0, 0, 0) \<and> counters (scan_usage ''o'' d) = (0, 0, 0, 0, 0) \<and>
        counters (scan_usage ''o'' (snd (RecoverExpiredReservations 60 d))) = (5, 1, 0, 0, 0)"
    by code_simp
  then show ?thesis by (auto split: sum.splits)
qed

end
