(* ===== verification/Metrics.thy ===== *)
theory Metrics
  imports Prelude
begin

text \<open>
  The counters of \<^verbatim>\<open>api/metrics.go\<close>. An \<^verbatim>\<open>atomic.Uint64\<close> is a 64-bit word: it is added
  to one addition at a time and wraps around. The page that shows them is in \<open>Metrics_Page\<close>.
  The lemmas say what the counters hold after any sequence of answers, and that the histogram is
  cumulative.
\<close>

record metrics =
  uploads :: "64 word"
  uploadRejections :: "64 word"
  processingFailures :: "64 word"
  answers :: "64 word"
  answerFailures :: "64 word"
  answerLatencyMs :: "64 word"
  answerLatencyN :: "64 word"
  answerLatencyBuckets :: "64 word list"
  retrievalLatencyMs :: "64 word"
  retrievalLatencyN :: "64 word"
  retrievalFailures :: "64 word"
  queueDepth :: "64 word"
  queueOldestAgeMs :: "64 word"

definition newMetrics :: metrics where
  "newMetrics = \<lparr>uploads = 0, uploadRejections = 0, processingFailures = 0, answers = 0, answerFailures = 0,
     answerLatencyMs = 0, answerLatencyN = 0, answerLatencyBuckets = replicate 8 0, retrievalLatencyMs = 0,
     retrievalLatencyN = 0, retrievalFailures = 0, queueDepth = 0, queueOldestAgeMs = 0\<rparr>"

definition recordRetrieval :: "duration \<Rightarrow> bool \<Rightarrow> metrics \<Rightarrow> metrics" where
  "recordRetrieval latency failed m =
     (let m = m\<lparr>retrievalLatencyMs := retrievalLatencyMs m + word_of_int (Milliseconds latency)\<rparr>;
          m = m\<lparr>retrievalLatencyN := retrievalLatencyN m + 1\<rparr>
      in if failed then m\<lparr>retrievalFailures := retrievalFailures m + 1\<rparr> else m)"

definition boundaries :: "duration list" where
  "boundaries = [time_Second, 5 * time_Second, 10 * time_Second, 30 * time_Second, time_Minute,
     2 * time_Minute, 5 * time_Minute, 10 * time_Minute]"

fun add_buckets :: "duration \<Rightarrow> nat \<Rightarrow> duration list \<Rightarrow> 64 word list \<Rightarrow> 64 word list" where
  "add_buckets latency index [] bs = bs"
| "add_buckets latency index (b # rest) bs =
     add_buckets latency (Suc index) rest (if latency \<le> b then bs[index := bs ! index + 1] else bs)"

definition recordAnswer :: "duration \<Rightarrow> bool \<Rightarrow> metrics \<Rightarrow> metrics" where
  "recordAnswer latency failed m =
     (let m = m\<lparr>answers := answers m + 1\<rparr>;
          m = m\<lparr>answerLatencyMs := answerLatencyMs m + word_of_int (Milliseconds latency)\<rparr>;
          m = m\<lparr>answerLatencyN := answerLatencyN m + 1\<rparr>;
          m = m\<lparr>answerLatencyBuckets := add_buckets latency 0 boundaries (answerLatencyBuckets m)\<rparr>
      in if failed then m\<lparr>answerFailures := answerFailures m + 1\<rparr> else m)"

section \<open>The histogram\<close>

lemma add_buckets:
  "index + length rest = length bs \<Longrightarrow>
     add_buckets latency index rest bs =
       take index bs @ map2 (\<lambda>b n. if latency \<le> b then n + 1 else n) rest (drop index bs)"
proof (induction latency index rest bs rule: add_buckets.induct)
  case (2 latency index b rest bs)
  let ?bs = "if latency \<le> b then bs[index := bs ! index + 1] else bs"
  have i: "index < length bs" using "2.prems" by simp
  have "add_buckets latency index (b # rest) bs =
      take (Suc index) ?bs @ map2 (\<lambda>b n. if latency \<le> b then n + 1 else n) rest (drop (Suc index) ?bs)"
    unfolding add_buckets.simps by (rule "2.IH") (use "2.prems" in simp)
  also have "take (Suc index) ?bs = take index bs @ [if latency \<le> b then bs ! index + 1 else bs ! index]"
    using i by (cases "latency \<le> b") (simp_all only: if_True if_False take_Suc_conv_app_nth length_list_update
      take_update_cancel nth_list_update_eq order.refl)
  also have "drop (Suc index) ?bs = drop (Suc index) bs" by simp
  also have "map2 (\<lambda>b n. if latency \<le> b then n + 1 else n) (b # rest) (drop index bs) =
      (if latency \<le> b then bs ! index + 1 else bs ! index) #
      map2 (\<lambda>b n. if latency \<le> b then n + 1 else n) rest (drop (Suc index) bs)"
    by (simp only: Cons_nth_drop_Suc [OF i, symmetric] zip_Cons_Cons list.map case_prod_conv)
  ultimately show ?case by (simp only: append_assoc append_Cons append_Nil)
qed simp

definition at_most :: "duration \<Rightarrow> (duration \<times> bool) list \<Rightarrow> nat" where
  "at_most b obs = length (filter (\<lambda>(latency, _). latency \<le> b) obs)"

fun record_all :: "(duration \<times> bool) list \<Rightarrow> metrics \<Rightarrow> metrics" where
  "record_all [] m = m"
| "record_all ((latency, failed) # obs) m = record_all obs (recordAnswer latency failed m)"

lemma recordAnswer_fields:
  "length (answerLatencyBuckets m) = 8 \<Longrightarrow>
     answerLatencyBuckets (recordAnswer latency failed m) =
       map2 (\<lambda>b n. if latency \<le> b then n + 1 else n) boundaries (answerLatencyBuckets m)"
  "answers (recordAnswer latency failed m) = answers m + 1"
  "answerLatencyN (recordAnswer latency failed m) = answerLatencyN m + 1"
  "answerFailures (recordAnswer latency failed m) = answerFailures m + (if failed then 1 else 0)"
  "answerLatencyMs (recordAnswer latency failed m) = answerLatencyMs m + word_of_int (Milliseconds latency)"
proof -
  assume "length (answerLatencyBuckets m) = 8"
  then have "0 + length boundaries = length (answerLatencyBuckets m)" by (simp add: boundaries_def)
  from add_buckets [OF this, of latency] show "answerLatencyBuckets (recordAnswer latency failed m) =
       map2 (\<lambda>b n. if latency \<le> b then n + 1 else n) boundaries (answerLatencyBuckets m)"
    by (simp add: recordAnswer_def Let_def)
qed (simp_all add: recordAnswer_def Let_def)

lemma record_all_counts:
  "answers (record_all obs m) = answers m + of_nat (length obs)"
  "answerLatencyN (record_all obs m) = answerLatencyN m + of_nat (length obs)"
  "answerFailures (record_all obs m) = answerFailures m + of_nat (length (filter snd obs))"
  "answerLatencyMs (record_all obs m) = answerLatencyMs m + word_of_int (\<Sum>(latency, _) \<leftarrow> obs. Milliseconds latency)"
  by (induction obs m rule: record_all.induct) (simp_all add: recordAnswer_fields)

lemma record_all_buckets:
  "length (answerLatencyBuckets m) = 8 \<Longrightarrow>
     answerLatencyBuckets (record_all obs m) =
       map2 (\<lambda>b n. n + of_nat (at_most b obs)) boundaries (answerLatencyBuckets m)"
proof (induction obs m rule: record_all.induct)
  case (1 m)
  have "length boundaries = length (answerLatencyBuckets m)" using 1 by (simp add: boundaries_def)
  then show ?case by (simp add: at_most_def case_prod_beta' map_snd_zip)
next
  case (2 latency failed obs m)
  let ?m = "recordAnswer latency failed m"
  have "length (answerLatencyBuckets ?m) = 8" using "2.prems" by (simp add: recordAnswer_fields boundaries_def)
  with "2.IH" "2.prems" show ?case
    by (auto simp: recordAnswer_fields at_most_def list_eq_iff_nth_eq)
qed

text \<open>After any answers the metrics report their number, the failed ones, the total time and,
  per boundary, exactly the answers that took at most that long (modulo 2^64); the buckets are
  cumulative, as the exposition format wants them.\<close>

theorem answer_histogram:
  "let m = record_all obs newMetrics in
     answers m = of_nat (length obs) \<and> answerLatencyN m = answers m \<and>
     answerFailures m = of_nat (length (filter snd obs)) \<and>
     answerLatencyMs m = word_of_int (\<Sum>(latency, _) \<leftarrow> obs. Milliseconds latency) \<and>
     answerLatencyBuckets m = map (\<lambda>b. of_nat (at_most b obs)) boundaries \<and>
     sorted (map (\<lambda>b. at_most b obs) boundaries)"
proof -
  have mono: "at_most b obs \<le> at_most b' obs" if "b \<le> b'" for b b'
    unfolding at_most_def using that by (induction obs) auto
  have "map2 (\<lambda>b n. n + of_nat (at_most b obs)) boundaries (replicate 8 0) = map (\<lambda>b. of_nat (at_most b obs) :: 64 word) boundaries"
    by (simp add: boundaries_def numeral_eq_Suc)
  moreover have "sorted (map (\<lambda>b. at_most b obs) boundaries)"
    by (simp add: boundaries_def) (intro conjI mono; simp)
  ultimately show ?thesis
    using record_all_counts [of obs newMetrics] record_all_buckets [of newMetrics obs]
    by (simp add: newMetrics_def Let_def)
qed

end
