(* ===== verification/Worker.thy ===== *)
theory Worker
  imports Job_Machine Metrics Uuid Go_Strings
begin

text \<open>
  The document worker (\<^verbatim>\<open>api/worker.go\<close>): its configuration, the back-off between attempts, the
  validation of what the document processor streams back, and one round of the worker,
  \<^verbatim>\<open>processNext\<close>, on the job queue.

  Parameters: the environment \<open>env\<close>, \<^verbatim>\<open>time.ParseDuration\<close>, the random source, what the
  storage returns for the PDF, the events of the gRPC stream and the \<^verbatim>\<open>%g\<close> formatting of a
  number \<open>fmt_g\<close>. Strings are byte lists, so \<^verbatim>\<open>len\<close> is \<open>length\<close>.
\<close>

definition maxEmbeddingDimensions :: "32 word" where "maxEmbeddingDimensions = 768"
definition maxExtractedTextBytes :: "64 word" where "maxExtractedTextBytes = 20 * 1024 * 1024"
definition maxProcessedPages :: "32 word" where "maxProcessedPages = 500"
definition maxProcessedChunks :: "32 word" where "maxProcessedChunks = 10000"

section \<open>Configuration\<close>

record workerConfig =
  wc_workers :: int
  wc_maxAttempts :: int
  wc_initialBackoff :: duration
  wc_maxBackoff :: duration
  wc_leaseDuration :: duration
  wc_leaseRenewal :: duration
  wc_processingTimeout :: duration
  wc_pollInterval :: duration

definition environmentInt :: "(string \<Rightarrow> string) \<Rightarrow> string \<Rightarrow> int \<Rightarrow> string + int" where
  "environmentInt env name fallback =
     (let v = env name
      in if v = '''' then Inr fallback
         else case Atoi v of (result, err) \<Rightarrow>
           (if err \<noteq> None \<or> result \<le> 0 then Inl (name @ '' must be a positive integer'') else Inr result))"

definition environmentDuration ::
    "(string \<Rightarrow> duration option) \<Rightarrow> (string \<Rightarrow> string) \<Rightarrow> string \<Rightarrow> duration \<Rightarrow> string + duration" where
  "environmentDuration ParseDuration env name fallback =
     (let v = env name
      in if v = '''' then Inr fallback
         else case ParseDuration v of
             None \<Rightarrow> Inl (name @ '' must be a positive duration'')
           | Some result \<Rightarrow> (if result \<le> 0 then Inl (name @ '' must be a positive duration'') else Inr result))"

definition default_config :: workerConfig where
  "default_config = \<lparr>wc_workers = 1, wc_maxAttempts = 5, wc_initialBackoff = 5 * time_Second,
     wc_maxBackoff = 5 * time_Minute, wc_leaseDuration = 2 * time_Minute, wc_leaseRenewal = 30 * time_Second,
     wc_processingTimeout = 30 * time_Minute, wc_pollInterval = time_Second\<rparr>"

definition loadWorkerConfig :: "(string \<Rightarrow> duration option) \<Rightarrow> (string \<Rightarrow> string) \<Rightarrow> string + workerConfig" where
  "loadWorkerConfig ParseDuration env =
     (let c = default_config; setting = environmentDuration ParseDuration env in
      and_then (environmentInt env ''DOCUMENT_JOB_WORKERS'' (wc_workers c)) (\<lambda>v. let c = c\<lparr>wc_workers := v\<rparr> in
      and_then (environmentInt env ''DOCUMENT_JOB_MAX_ATTEMPTS'' (wc_maxAttempts c)) (\<lambda>v. let c = c\<lparr>wc_maxAttempts := v\<rparr> in
      and_then (setting ''DOCUMENT_JOB_INITIAL_BACKOFF'' (wc_initialBackoff c)) (\<lambda>v. let c = c\<lparr>wc_initialBackoff := v\<rparr> in
      and_then (setting ''DOCUMENT_JOB_MAX_BACKOFF'' (wc_maxBackoff c)) (\<lambda>v. let c = c\<lparr>wc_maxBackoff := v\<rparr> in
      and_then (setting ''DOCUMENT_JOB_LEASE_DURATION'' (wc_leaseDuration c)) (\<lambda>v. let c = c\<lparr>wc_leaseDuration := v\<rparr> in
      and_then (setting ''DOCUMENT_JOB_LEASE_RENEWAL'' (wc_leaseRenewal c)) (\<lambda>v. let c = c\<lparr>wc_leaseRenewal := v\<rparr> in
      and_then (setting ''DOCUMENT_JOB_PROCESSING_TIMEOUT'' (wc_processingTimeout c)) (\<lambda>v. let c = c\<lparr>wc_processingTimeout := v\<rparr> in
      and_then (setting ''DOCUMENT_JOB_POLL_INTERVAL'' (wc_pollInterval c)) (\<lambda>v. let c = c\<lparr>wc_pollInterval := v\<rparr> in
      if wc_initialBackoff c > wc_maxBackoff c
      then Inl ''DOCUMENT_JOB_INITIAL_BACKOFF must not exceed DOCUMENT_JOB_MAX_BACKOFF''
      else if wc_leaseRenewal c \<ge> wc_leaseDuration c
      then Inl ''DOCUMENT_JOB_LEASE_RENEWAL must be shorter than DOCUMENT_JOB_LEASE_DURATION''
      else Inr c)))))))))"

definition config_ok :: "workerConfig \<Rightarrow> bool" where
  "config_ok c \<longleftrightarrow> 0 < wc_workers c \<and> 0 < wc_maxAttempts c \<and> 0 < wc_initialBackoff c \<and>
     wc_initialBackoff c \<le> wc_maxBackoff c \<and> 0 < wc_leaseRenewal c \<and> wc_leaseRenewal c < wc_leaseDuration c \<and>
     0 < wc_processingTimeout c \<and> 0 < wc_pollInterval c"

lemma environmentInt_pos: "environmentInt env name fallback = Inr v \<Longrightarrow> 0 < fallback \<Longrightarrow> 0 < v"
  by (auto simp: environmentInt_def Let_def split: if_splits prod.splits)

lemma environmentDuration_pos: "environmentDuration pd env name fallback = Inr v \<Longrightarrow> 0 < fallback \<Longrightarrow> 0 < v"
  by (auto simp: environmentDuration_def Let_def split: if_splits option.splits)

text \<open>Whatever the environment, a configuration that is accepted is sound: all numbers are
  positive, the first back-off is at most the largest, and leases are renewed before they expire.\<close>

theorem accepted_config_sound:
  assumes "loadWorkerConfig ParseDuration env = Inr c"
  shows "0 < wc_workers c \<and> 0 < wc_maxAttempts c \<and> 0 < wc_initialBackoff c \<and>
    wc_initialBackoff c \<le> wc_maxBackoff c \<and> 0 < wc_leaseRenewal c \<and> wc_leaseRenewal c < wc_leaseDuration c \<and>
    0 < wc_processingTimeout c \<and> 0 < wc_pollInterval c"
proof -
  have e: "0 < v" if "environmentInt env name f = Inr v" "0 < f" for name f v
    using environmentInt_pos that by blast
  have d: "0 < v" if "environmentDuration ParseDuration env name f = Inr v" "0 < f" for name f v
    using environmentDuration_pos that by blast
  from assms show ?thesis
    unfolding loadWorkerConfig_def default_config_def Let_def and_then_Inr
    apply (elim exE conjE)
    apply (drule e, simp)+
    apply (drule d, simp)+
    apply (auto split: if_splits)
    done
qed

definition sample_env :: "string \<Rightarrow> string" where
  "sample_env name = (if name = ''DOCUMENT_JOB_WORKERS'' then ''4'' else '''')"

lemma accepted_config_sound_witness:
  "loadWorkerConfig (\<lambda>_. None) sample_env = Inr (default_config\<lparr>wc_workers := 4\<rparr>) \<and>
   0 < wc_workers (default_config\<lparr>wc_workers := 4\<rparr>)"
proof -
  have c: "loadWorkerConfig (\<lambda>_. None) sample_env = Inr (default_config\<lparr>wc_workers := 4\<rparr>)" by code_simp
  show ?thesis using accepted_config_sound [OF c] c by blast
qed

section \<open>Back-off\<close>

text \<open>The loop of \<^verbatim>\<open>retryBackoff\<close>: \<open>Inl\<close> is the early return from within.\<close>

function backoff_loop :: "int \<Rightarrow> duration \<Rightarrow> int \<Rightarrow> duration \<Rightarrow> duration + duration" where
  "backoff_loop attempt maxBackoff current delay =
     (if current < attempt \<and> delay < maxBackoff
      then (if delay > go_div maxBackoff 2 then Inl maxBackoff
            else backoff_loop attempt maxBackoff (current + 1) (wrap64 (delay * 2)))
      else Inr delay)"
  by pat_completeness auto
termination
  by (relation "measure (\<lambda>(attempt, _, current, _). nat (attempt - current))") auto

declare backoff_loop.simps [simp del]

definition retryBackoff :: "int \<Rightarrow> workerConfig \<Rightarrow> duration" where
  "retryBackoff attempt config =
     (case backoff_loop attempt (wc_maxBackoff config) 1 (wc_initialBackoff config) of
        Inl delay \<Rightarrow> delay
      | Inr delay \<Rightarrow> (if delay > wc_maxBackoff config then wc_maxBackoff config else delay))"

lemma backoff_loop_min:
  assumes "0 < delay" "delay \<le> maxBackoff" "is_int64 maxBackoff" "current \<le> attempt"
  shows "(case backoff_loop attempt maxBackoff current delay of Inl d \<Rightarrow> d | Inr d \<Rightarrow> d)
    = min maxBackoff (delay * 2 ^ nat (attempt - current))"
  using assms
proof (induction attempt maxBackoff current delay rule: backoff_loop.induct)
  case (1 attempt maxBackoff current delay)
  show ?case
  proof (cases "current < attempt \<and> delay < maxBackoff")
    case False
    have "delay * 1 \<le> delay * 2 ^ nat (attempt - current)" using "1.prems"(1) by (intro mult_left_mono) auto
    with False "1.prems" show ?thesis by (subst backoff_loop.simps) (auto simp: min_def)
  next
    case True
    have pow: "(2 :: int) ^ nat (attempt - current) = 2 * 2 ^ nat (attempt - (current + 1))"
      using True by (simp flip: power_Suc add: Suc_nat_eq_nat_zadd1)
    have half: "go_div maxBackoff 2 = maxBackoff div 2" using "1.prems" by simp
    show ?thesis
    proof (cases "delay > maxBackoff div 2")
      case big: True
      have "delay * 2 * 1 \<le> delay * 2 * 2 ^ nat (attempt - (current + 1))"
        using "1.prems"(1) by (intro mult_left_mono) auto
      moreover have "maxBackoff \<le> delay * 2" using big by linarith
      ultimately have "maxBackoff \<le> delay * 2 ^ nat (attempt - current)" by (simp add: pow mult.assoc)
      with big True show ?thesis by (subst backoff_loop.simps) (simp add: half)
    next
      case small: False
      then have le: "delay * 2 \<le> maxBackoff" by linarith
      with "1.prems" have w: "wrap64 (delay * 2) = delay * 2" by (intro wrap64_id) (simp add: is_int64_def)
      have "\<not> go_div maxBackoff 2 < delay" using small by (simp add: half)
      from "1.IH" [OF True this] "1.prems" True le
      have "(case backoff_loop attempt maxBackoff (current + 1) (delay * 2) of Inl d \<Rightarrow> d | Inr d \<Rightarrow> d)
          = min maxBackoff (delay * 2 * 2 ^ nat (attempt - (current + 1)))"
        unfolding w by simp
      with small True show ?thesis by (subst backoff_loop.simps) (simp add: half w pow mult.assoc)
    qed
  qed
qed

text \<open>The back-off after the n-th attempt is the initial one doubled n - 1 times, capped at the
  maximum. The 64-bit doubling never overflows, however many attempts there were.\<close>

theorem backoff_doubles:
  assumes "0 < wc_initialBackoff config" and "wc_initialBackoff config \<le> wc_maxBackoff config"
    and "is_int64 (wc_maxBackoff config)" and "1 \<le> attempt"
  shows "retryBackoff attempt config = min (wc_maxBackoff config) (wc_initialBackoff config * 2 ^ nat (attempt - 1))"
  using backoff_loop_min [OF assms(1-4)]
  by (auto simp: retryBackoff_def split: sum.splits)

lemma backoff_doubles_witness:
  "retryBackoff 3 default_config = 20 * time_Second \<and> retryBackoff 1000 default_config \<le> 5 * time_Minute"
proof -
  have p: "0 < wc_initialBackoff default_config" "wc_initialBackoff default_config \<le> wc_maxBackoff default_config"
    "is_int64 (wc_maxBackoff default_config)"
    by (simp_all add: default_config_def is_int64_def)
  show ?thesis using backoff_doubles [OF p, of 3] backoff_doubles [OF p, of 1000] by (simp add: default_config_def)
qed

section \<open>What the document processor streams back\<close>

type_synonym codes = nat

definition InvalidArgument :: codes where "InvalidArgument = 3"

text \<open>The cause of a failed job: an error of the storage, of making the client, of a call with its status
  code, or of the random source. Its text is only logged.\<close>

datatype job_cause = Storage_Cause | Client_Cause | Status_Cause codes | Random_Cause

record jobError =
  je_cause :: "job_cause option"
  je_message :: string
  je_permanent :: bool

definition jobError_Error :: "(job_cause \<Rightarrow> string) \<Rightarrow> jobError \<Rightarrow> string" where
  "jobError_Error cause_text e =
     (case je_cause e of None \<Rightarrow> je_message e | Some c \<Rightarrow> je_message e @ '': '' @ cause_text c)"

definition processorError :: "codes \<Rightarrow> jobError" where
  "processorError code =
     \<lparr>je_cause = Some (Status_Cause code), je_message = ''document processing failed'', je_permanent = (code = InvalidArgument)\<rparr>"

record metadata =
  md_DocumentId :: string
  md_Text :: string
  md_PageCount :: "32 word"
  md_ChunkCount :: "32 word"
  md_EmbeddingDimensions :: "32 word"

record 'f chunk =
  pc_Index :: "32 word"
  pc_Text :: string
  pc_StartOffset :: "64 word"
  pc_EndOffset :: "64 word"
  pc_PageStart :: "32 word"
  pc_PageEnd :: "32 word"
  pc_Embedding :: "'f list"

text \<open>An event of the stream holds metadata, a batch of chunks, or neither.\<close>

datatype 'f processEvent = Metadata metadata | ChunkBatch "32 word" "'f chunk list" | OtherEvent

text \<open>What the program holds while it reads. \<open>rnd n\<close> is the random source when the n-th chunk
  gets its identifier, \<open>now\<close> the clock.\<close>

record progress =
  pr_text :: string
  pr_chunks :: "documentChunk list"
  pr_metadataReceived :: bool
  pr_expectedChunks :: "32 word"
  pr_pageCount :: "32 word"
  pr_nextBatch :: "32 word"
  pr_nextChunk :: "32 word"

definition start_progress :: progress where
  "start_progress = \<lparr>pr_text = [], pr_chunks = [], pr_metadataReceived = False, pr_expectedChunks = 0,
     pr_pageCount = 0, pr_nextBatch = 0, pr_nextChunk = 0\<rparr>"

definition permanent :: "string \<Rightarrow> jobError" where
  "permanent message = \<lparr>je_cause = None, je_message = message, je_permanent = True\<rparr>"

definition unreadable_pdf :: jobError where
  "unreadable_pdf = \<lparr>je_cause = Some Storage_Cause, je_message = ''could not read uploaded PDF'', je_permanent = True\<rparr>"

fun join_values :: "('f \<Rightarrow> string) \<Rightarrow> nat \<Rightarrow> 'f list \<Rightarrow> string \<Rightarrow> string" where
  "join_values fmt_g index [] values = values"
| "join_values fmt_g index (v # vs) values =
     join_values fmt_g (Suc index) vs ((if index > 0 then values @ '','' else values) @ fmt_g v)"

definition embedding_literal :: "('f \<Rightarrow> string) \<Rightarrow> 'f list \<Rightarrow> string" where
  "embedding_literal fmt_g vs = join_values fmt_g 0 vs ''['' @ '']''"

fun receive_chunks ::
    "('f \<Rightarrow> string) \<Rightarrow> (nat \<Rightarrow> byte list option) \<Rightarrow> time \<Rightarrow> string \<Rightarrow> 'f chunk list \<Rightarrow> progress \<Rightarrow> jobError + progress" where
  "receive_chunks fmt_g rnd now docID [] p = Inr p"
| "receive_chunks fmt_g rnd now docID (c # cs) p =
     (if (of_nat (length (pr_chunks p)) :: 32 word) \<ge> maxProcessedChunks
      then Inl (permanent ''document processor returned too many chunks'')
      else if pc_Index c \<noteq> pr_nextChunk p
      then Inl (permanent ''document processor returned invalid chunk indexes'')
      else if length (pc_Embedding c) \<noteq> unat maxEmbeddingDimensions
      then Inl (permanent ''document processor returned an invalid embedding'')
      else if length (pc_Text c) = 0 \<or> length (pc_Text c) > 100000
      then Inl (permanent ''document processor returned invalid chunk text'')
      else if pc_PageStart c = 0 \<or> pc_PageEnd c < pc_PageStart c \<or> pc_PageEnd c > pr_pageCount p
      then Inl (permanent ''document processor returned invalid page metadata'')
      else case documentID (rnd (length (pr_chunks p))) of
          None \<Rightarrow> Inl \<lparr>je_cause = Some Random_Cause, je_message = ''could not create chunk ID'', je_permanent = False\<rparr>
        | Some chunkID \<Rightarrow>
            receive_chunks fmt_g rnd now docID cs
              (p\<lparr>pr_nextChunk := pr_nextChunk p + 1,
                 pr_chunks := pr_chunks p @ [\<lparr>ch_ID = chunkID, ch_DocumentID = docID, ch_ChunkIndex = uint (pc_Index c),
                   ch_Text = pc_Text c, ch_StartOffset = pc_StartOffset c, ch_EndOffset = pc_EndOffset c,
                   ch_PageStart = pc_PageStart c, ch_PageEnd = pc_PageEnd c,
                   ch_Embedding = embedding_literal fmt_g (pc_Embedding c), ch_CreatedAt = now\<rparr>]\<rparr>))"

text \<open>The loop over the stream: the events received and how it ends, with \<^verbatim>\<open>io.EOF\<close> (\<open>None\<close>)
  or with an error's status code.\<close>

fun receive_events ::
    "('f \<Rightarrow> string) \<Rightarrow> (nat \<Rightarrow> byte list option) \<Rightarrow> time \<Rightarrow> string \<Rightarrow> 'f processEvent list \<Rightarrow> codes option \<Rightarrow> progress \<Rightarrow>
     jobError + progress" where
  "receive_events fmt_g rnd now docID [] ending p =
     (case ending of None \<Rightarrow> Inr p | Some code \<Rightarrow> Inl (processorError code))"
| "receive_events fmt_g rnd now docID (Metadata m # es) ending p =
     (if pr_metadataReceived p \<or> md_EmbeddingDimensions m \<noteq> maxEmbeddingDimensions \<or> md_DocumentId m \<noteq> docID
         \<or> md_PageCount m = 0 \<or> md_PageCount m > maxProcessedPages
         \<or> (of_nat (length (md_Text m)) :: 64 word) > maxExtractedTextBytes \<or> md_ChunkCount m > maxProcessedChunks
      then Inl (permanent ''document processor returned an invalid document'')
      else receive_events fmt_g rnd now docID es ending
        (p\<lparr>pr_text := md_Text m, pr_expectedChunks := md_ChunkCount m, pr_pageCount := md_PageCount m,
           pr_metadataReceived := True\<rparr>))"
| "receive_events fmt_g rnd now docID (ChunkBatch batchIndex cs # es) ending p =
     (if \<not> pr_metadataReceived p \<or> batchIndex \<noteq> pr_nextBatch p
      then Inl (permanent ''document processor returned invalid chunk batches'')
      else and_then (receive_chunks fmt_g rnd now docID cs (p\<lparr>pr_nextBatch := pr_nextBatch p + 1\<rparr>))
        (receive_events fmt_g rnd now docID es ending))"
| "receive_events fmt_g rnd now docID (OtherEvent # es) ending p =
     Inl (permanent ''document processor returned invalid chunk batches'')"

text \<open>The stored file: it cannot be opened, reading it fails, or its content. The call itself:
  the client cannot be made, the call is refused with a code, or the stream.\<close>

datatype stored_file = Unopened | Unreadable | Content string

datatype 'f process_call = NoClient | Refused codes | Stream "'f processEvent list" "codes option"

definition processDocument ::
    "('f \<Rightarrow> string) \<Rightarrow> (nat \<Rightarrow> byte list option) \<Rightarrow> time \<Rightarrow> stored_file \<Rightarrow> (string \<Rightarrow> string \<Rightarrow> 'f process_call) \<Rightarrow> document \<Rightarrow>
     jobError + string \<times> 32 word \<times> documentChunk list" where
  "processDocument fmt_g rnd now file process doc =
     (case file of
        Unopened \<Rightarrow> Inl unreadable_pdf
      | Unreadable \<Rightarrow> Inl unreadable_pdf
      | Content content \<Rightarrow>
          let pdf = take (nat (maxUploadSize + 1)) content
          in if int (length pdf) > maxUploadSize then Inl (permanent ''uploaded PDF exceeds the maximum size'')
             else case process (doc_ID doc) pdf of
                 NoClient \<Rightarrow> Inl \<lparr>je_cause = Some Client_Cause, je_message = ''document processor unavailable'', je_permanent = False\<rparr>
               | Refused code \<Rightarrow> Inl (processorError code)
               | Stream events ending \<Rightarrow>
                   and_then (receive_events fmt_g rnd now (doc_ID doc) events ending start_progress) (\<lambda>p.
                     if \<not> pr_metadataReceived p then Inl (permanent ''document processor returned no metadata'')
                     else if (of_nat (length (pr_chunks p)) :: 32 word) \<noteq> pr_expectedChunks p
                     then Inl (permanent ''document processor returned an incomplete result'')
                     else Inr (pr_text p, pr_pageCount p, pr_chunks p)))"

section \<open>What is accepted\<close>

definition chunk_valid :: "string \<Rightarrow> 32 word \<Rightarrow> documentChunk \<Rightarrow> bool" where
  "chunk_valid docID pages c \<longleftrightarrow> ch_DocumentID c = docID \<and> 1 \<le> length (ch_Text c) \<and> length (ch_Text c) \<le> 100000 \<and>
     1 \<le> ch_PageStart c \<and> ch_PageStart c \<le> ch_PageEnd c \<and> ch_PageEnd c \<le> pages"

definition progress_ok :: "string \<Rightarrow> progress \<Rightarrow> bool" where
  "progress_ok docID p \<longleftrightarrow>
     length (pr_chunks p) \<le> 10000 \<and> pr_nextChunk p = of_nat (length (pr_chunks p)) \<and>
     map ch_ChunkIndex (pr_chunks p) = map int [0..<length (pr_chunks p)] \<and>
     list_all (chunk_valid docID (pr_pageCount p)) (pr_chunks p) \<and>
     (if pr_metadataReceived p
      then 1 \<le> pr_pageCount p \<and> pr_pageCount p \<le> 500 \<and> pr_expectedChunks p \<le> 10000 \<and>
        (of_nat (length (pr_text p)) :: 64 word) \<le> maxExtractedTextBytes
      else pr_chunks p = [])"

lemma word_pos: "(x :: 32 word) \<noteq> 0 \<Longrightarrow> 1 \<le> x"
  by (simp add: word_le_nat_alt unat_gt_0 Suc_le_eq)

lemma small_count: "n \<le> 10000 \<Longrightarrow> unat (of_nat n :: 32 word) = n"
  by (simp add: unat_of_nat)

lemma small_uint: "n \<le> 10000 \<Longrightarrow> uint (of_nat n :: 32 word) = int n"
  using small_count [of n] of_nat_unat [of "of_nat n :: 32 word", where 'a = int] by simp

lemma count_limit: "n \<le> 10000 \<Longrightarrow> (of_nat n :: 32 word) \<ge> maxProcessedChunks \<longleftrightarrow> n = 10000"
  by (simp add: word_le_nat_alt small_count maxProcessedChunks_def)

text \<open>The fields the chunk loop leaves alone.\<close>

definition same_header :: "progress \<Rightarrow> progress \<Rightarrow> bool" where
  "same_header p p' \<longleftrightarrow> pr_text p' = pr_text p \<and> pr_metadataReceived p' = pr_metadataReceived p \<and>
     pr_expectedChunks p' = pr_expectedChunks p \<and> pr_pageCount p' = pr_pageCount p \<and> pr_nextBatch p' = pr_nextBatch p"

lemma receive_chunks_ok:
  "receive_chunks fmt_g rnd now docID cs p = Inr p' \<Longrightarrow> progress_ok docID p \<Longrightarrow> pr_metadataReceived p \<Longrightarrow>
     progress_ok docID p' \<and> same_header p p'"
proof (induction fmt_g rnd now docID cs p rule: receive_chunks.induct)
  case (2 fmt_g rnd now docID c cs p)
  let ?n = "length (pr_chunks p)"
  from "2.prems"(1) obtain chunkID where
    g: "\<not> maxProcessedChunks \<le> (of_nat ?n :: 32 word)" "pc_Index c = pr_nextChunk p"
      "length (pc_Embedding c) = unat maxEmbeddingDimensions" "length (pc_Text c) \<noteq> 0" "length (pc_Text c) \<le> 100000"
      "pc_PageStart c \<noteq> 0" "\<not> pc_PageEnd c < pc_PageStart c" "\<not> pr_pageCount p < pc_PageEnd c"
    and id: "documentID (rnd ?n) = Some chunkID"
    by (auto split: if_splits option.splits)
  let ?ch = "\<lparr>ch_ID = chunkID, ch_DocumentID = docID, ch_ChunkIndex = uint (pc_Index c),
                   ch_Text = pc_Text c, ch_StartOffset = pc_StartOffset c, ch_EndOffset = pc_EndOffset c,
                   ch_PageStart = pc_PageStart c, ch_PageEnd = pc_PageEnd c,
                   ch_Embedding = embedding_literal fmt_g (pc_Embedding c), ch_CreatedAt = now\<rparr>"
  let ?p = "p\<lparr>pr_nextChunk := pr_nextChunk p + 1, pr_chunks := pr_chunks p @ [?ch]\<rparr>"
  from g id "2.prems"(1) have rec: "receive_chunks fmt_g rnd now docID cs ?p = Inr p'" by simp
  have n: "?n < 10000" using g(1) count_limit [of ?n] "2.prems"(2) by (auto simp: progress_ok_def)
  have "uint (pc_Index c) = int ?n"
    using "2.prems"(2) g(2) small_uint [of ?n] n by (simp add: progress_ok_def)
  moreover have "chunk_valid docID (pr_pageCount p) ?ch"
    using g word_pos [of "pc_PageStart c"] by (auto simp: chunk_valid_def Suc_le_eq)
  ultimately have "progress_ok docID ?p" using "2.prems"(2,3) n by (auto simp: progress_ok_def)
  with "2.IH" g id rec "2.prems"(3) have "progress_ok docID p' \<and> same_header ?p p'" by simp
  then show ?case by (simp add: same_header_def)
qed (simp add: same_header_def)

lemma receive_events_ok:
  "receive_events fmt_g rnd now docID es ending p = Inr p' \<Longrightarrow> progress_ok docID p \<Longrightarrow>
     progress_ok docID p' \<and> ending = None"
proof (induction fmt_g rnd now docID es ending p rule: receive_events.induct)
  case (2 fmt_g rnd now docID m es ending p)
  let ?p = "p\<lparr>pr_text := md_Text m, pr_expectedChunks := md_ChunkCount m, pr_pageCount := md_PageCount m,
           pr_metadataReceived := True\<rparr>"
  from "2.prems" have "progress_ok docID ?p"
    by (auto simp: progress_ok_def maxProcessedPages_def maxProcessedChunks_def not_less word_pos split: if_splits)
  with "2.prems" "2.IH" show ?case by (auto split: if_splits)
next
  case (3 fmt_g rnd now docID batchIndex cs es ending p)
  let ?p = "p\<lparr>pr_nextBatch := pr_nextBatch p + 1\<rparr>"
  have "progress_ok docID ?p" using "3.prems"(2) by (simp add: progress_ok_def)
  with "3.prems" obtain q where "receive_chunks fmt_g rnd now docID cs ?p = Inr q" "progress_ok docID q"
    "receive_events fmt_g rnd now docID es ending q = Inr p'" "\<not> (\<not> pr_metadataReceived p \<or> batchIndex \<noteq> pr_nextBatch p)"
    using receive_chunks_ok by (fastforce simp: and_then_Inr split: if_splits)
  with "3.IH" show ?case by blast
qed (auto split: option.splits)

lemma processed_chunks:
  assumes "processDocument fmt_g rnd now file process doc = Inr (content, pages, chunks)"
  shows "1 \<le> pages \<and> pages \<le> 500 \<and> length chunks \<le> 10000 \<and> map ch_ChunkIndex chunks = map int [0..<length chunks] \<and>
    list_all (chunk_valid (doc_ID doc) pages) chunks \<and> (of_nat (length content) :: 64 word) \<le> maxExtractedTextBytes"
proof -
  from assms obtain events ending p where r: "receive_events fmt_g rnd now (doc_ID doc) events ending start_progress = Inr p"
    and p: "pr_metadataReceived p" "content = pr_text p" "pages = pr_pageCount p" "chunks = pr_chunks p"
    by (auto simp: processDocument_def Let_def and_then_Inr split: stored_file.splits process_call.splits if_splits)
  have "progress_ok (doc_ID doc) start_progress" by (simp add: progress_ok_def start_progress_def)
  from receive_events_ok [OF r this] p show ?thesis by (simp add: progress_ok_def)
qed


definition sample_stream :: "string \<Rightarrow> string \<Rightarrow> nat process_call" where
  "sample_stream docID pdf = Stream
     [Metadata \<lparr>md_DocumentId = docID, md_Text = ''hello'', md_PageCount = 2, md_ChunkCount = 1, md_EmbeddingDimensions = 768\<rparr>,
      ChunkBatch 0 [\<lparr>pc_Index = 0, pc_Text = ''hello'', pc_StartOffset = 0, pc_EndOffset = 5, pc_PageStart = 1,
        pc_PageEnd = 2, pc_Embedding = replicate 768 0\<rparr>]] None"

lemma sample_stream_accepted:
  "\<exists>c. processDocument (\<lambda>_. ''0'') (\<lambda>_. Some (replicate 16 0)) 7 (Content ''%PDF-'') sample_stream (sample_document ''a'' 10)
     = Inr (''hello'', 2, [c])"
proof -
  obtain i where i: "documentID (Some (replicate 16 0)) = Some i"
    using documentID_uuid4 [of "replicate 16 0"] by auto
  show ?thesis
    by (simp add: processDocument_def sample_stream_def start_progress_def i maxUploadSize_def maxEmbeddingDimensions_def
        maxProcessedChunks_def maxProcessedPages_def maxExtractedTextBytes_def sample_document_def)
qed


text \<open>Conversely: what the processor sends when it keeps to the protocol.\<close>

definition chunk_ok :: "32 word \<Rightarrow> nat \<Rightarrow> 'f chunk \<Rightarrow> bool" where
  "chunk_ok pages k c \<longleftrightarrow> pc_Index c = of_nat k \<and> length (pc_Embedding c) = 768 \<and>
     0 < length (pc_Text c) \<and> length (pc_Text c) \<le> 100000 \<and>
     0 < pc_PageStart c \<and> pc_PageStart c \<le> pc_PageEnd c \<and> pc_PageEnd c \<le> pages"

fun chunks_ok_from :: "32 word \<Rightarrow> nat \<Rightarrow> 'f chunk list \<Rightarrow> bool" where
  "chunks_ok_from pages k [] = True"
| "chunks_ok_from pages k (c # cs) = (chunk_ok pages k c \<and> chunks_ok_from pages (Suc k) cs)"

lemma chunks_ok_from_append:
  "chunks_ok_from pages k (xs @ ys) \<longleftrightarrow> chunks_ok_from pages k xs \<and> chunks_ok_from pages (k + length xs) ys"
  by (induction xs arbitrary: k) auto

definition stored_chunk :: "('f \<Rightarrow> string) \<Rightarrow> (nat \<Rightarrow> string) \<Rightarrow> time \<Rightarrow> string \<Rightarrow> nat \<Rightarrow> 'f chunk \<Rightarrow> documentChunk" where
  "stored_chunk fmt_g ids now docID k c = \<lparr>ch_ID = ids k, ch_DocumentID = docID, ch_ChunkIndex = uint (pc_Index c),
     ch_Text = pc_Text c, ch_StartOffset = pc_StartOffset c, ch_EndOffset = pc_EndOffset c,
     ch_PageStart = pc_PageStart c, ch_PageEnd = pc_PageEnd c,
     ch_Embedding = embedding_literal fmt_g (pc_Embedding c), ch_CreatedAt = now\<rparr>"

fun stored_from :: "('f \<Rightarrow> string) \<Rightarrow> (nat \<Rightarrow> string) \<Rightarrow> time \<Rightarrow> string \<Rightarrow> nat \<Rightarrow> 'f chunk list \<Rightarrow> documentChunk list" where
  "stored_from fmt_g ids now docID k [] = []"
| "stored_from fmt_g ids now docID k (c # cs) =
     stored_chunk fmt_g ids now docID k c # stored_from fmt_g ids now docID (Suc k) cs"

lemma length_stored_from [simp]: "length (stored_from fmt_g ids now docID k cs) = length cs"
  by (induction cs arbitrary: k) auto

lemma stored_from_append:
  "stored_from fmt_g ids now docID k (xs @ ys) =
     stored_from fmt_g ids now docID k xs @ stored_from fmt_g ids now docID (k + length xs) ys"
  by (induction xs arbitrary: k) auto

lemma receive_chunks_accepts:
  assumes ids: "\<And>k. documentID (rnd k) = Some (ids k)"
  shows "chunks_ok_from (pr_pageCount p) (length (pr_chunks p)) cs \<Longrightarrow>
     pr_nextChunk p = of_nat (length (pr_chunks p)) \<Longrightarrow> length (pr_chunks p) + length cs \<le> 10000 \<Longrightarrow>
     receive_chunks fmt_g rnd now docID cs p =
       Inr (p\<lparr>pr_nextChunk := of_nat (length (pr_chunks p) + length cs),
              pr_chunks := pr_chunks p @ stored_from fmt_g ids now docID (length (pr_chunks p)) cs\<rparr>)"
proof (induction cs arbitrary: p)
  case (Cons c cs)
  let ?n = "length (pr_chunks p)"
  let ?p = "p\<lparr>pr_nextChunk := pr_nextChunk p + 1, pr_chunks := pr_chunks p @ [stored_chunk fmt_g ids now docID ?n c]\<rparr>"
  have n: "?n < 10000" using Cons.prems(3) by simp
  have lim: "\<not> maxProcessedChunks \<le> (of_nat ?n :: 32 word)" using count_limit [of ?n] n by simp
  have c: "chunk_ok (pr_pageCount p) ?n c" using Cons.prems(1) by simp
  then have "pc_PageStart c \<noteq> 0" "\<not> pc_PageEnd c < pc_PageStart c" "\<not> pr_pageCount p < pc_PageEnd c"
    by (auto simp: chunk_ok_def)
  with lim c Cons.prems(2) have "receive_chunks fmt_g rnd now docID (c # cs) p = receive_chunks fmt_g rnd now docID cs ?p"
    by (simp add: chunk_ok_def ids maxEmbeddingDimensions_def stored_chunk_def)
  also have "\<dots> = Inr (?p\<lparr>pr_nextChunk := of_nat (length (pr_chunks ?p) + length cs),
      pr_chunks := pr_chunks ?p @ stored_from fmt_g ids now docID (length (pr_chunks ?p)) cs\<rparr>)"
    by (rule Cons.IH) (use Cons.prems in simp_all)
  finally show ?case by simp
qed simp

fun batches :: "nat \<Rightarrow> 'f chunk list list \<Rightarrow> 'f processEvent list" where
  "batches k [] = []"
| "batches k (b # bs) = ChunkBatch (of_nat k) b # batches (Suc k) bs"

lemma receive_batches:
  assumes ids: "\<And>k. documentID (rnd k) = Some (ids k)"
  shows "pr_metadataReceived p \<Longrightarrow> pr_nextBatch p = of_nat k \<Longrightarrow>
     chunks_ok_from (pr_pageCount p) (length (pr_chunks p)) (concat bs) \<Longrightarrow>
     pr_nextChunk p = of_nat (length (pr_chunks p)) \<Longrightarrow> length (pr_chunks p) + length (concat bs) \<le> 10000 \<Longrightarrow>
     \<exists>q. receive_events fmt_g rnd now docID (batches k bs) None p = Inr q \<and> pr_metadataReceived q \<and>
       pr_text q = pr_text p \<and> pr_pageCount q = pr_pageCount p \<and> pr_expectedChunks q = pr_expectedChunks p \<and>
       pr_chunks q = pr_chunks p @ stored_from fmt_g ids now docID (length (pr_chunks p)) (concat bs)"
proof (induction bs arbitrary: k p)
  case Nil
  then show ?case by simp
next
  case (Cons b bs)
  let ?p = "p\<lparr>pr_nextBatch := pr_nextBatch p + 1\<rparr>"
  let ?q = "?p\<lparr>pr_nextChunk := of_nat (length (pr_chunks p) + length b),
              pr_chunks := pr_chunks p @ stored_from fmt_g ids now docID (length (pr_chunks p)) b\<rparr>"
  have "receive_chunks fmt_g rnd now docID b ?p = Inr ?q"
    using receive_chunks_accepts [OF ids, where p = ?p and cs = b and fmt_g = fmt_g and now = now and docID = docID] Cons.prems by (simp add: chunks_ok_from_append)
  then have step: "receive_events fmt_g rnd now docID (batches k (b # bs)) None p =
      receive_events fmt_g rnd now docID (batches (Suc k) bs) None ?q"
    using Cons.prems by simp
  have "\<exists>q. receive_events fmt_g rnd now docID (batches (Suc k) bs) None ?q = Inr q \<and> pr_metadataReceived q \<and>
       pr_text q = pr_text ?q \<and> pr_pageCount q = pr_pageCount ?q \<and> pr_expectedChunks q = pr_expectedChunks ?q \<and>
       pr_chunks q = pr_chunks ?q @ stored_from fmt_g ids now docID (length (pr_chunks ?q)) (concat bs)"
    by (rule Cons.IH) (use Cons.prems in \<open>simp_all add: chunks_ok_from_append\<close>)
  then show ?case unfolding step by (simp add: stored_from_append)
qed

text \<open>C33: nothing correct is refused. A file within 20 MiB whose stream gives the metadata of the
  document first and then its chunks in order is accepted with exactly that text, page count and
  those chunks, however the chunks are split into batches.\<close>

theorem well_formed_stream_accepted:
  assumes "\<And>k. documentID (rnd k) = Some (ids k)"
    and "int (length pdf) \<le> maxUploadSize"
    and "process (doc_ID doc) pdf = Stream (Metadata m # batches 0 bs) None"
    and "md_DocumentId m = doc_ID doc" and "md_EmbeddingDimensions m = 768"
    and "0 < md_PageCount m" and "md_PageCount m \<le> 500" and "length (md_Text m) \<le> 20 * 1024 * 1024"
    and "length (concat bs) = unat (md_ChunkCount m)" and "md_ChunkCount m \<le> 10000"
    and "chunks_ok_from (md_PageCount m) 0 (concat bs)"
  shows "processDocument fmt_g rnd now (Content pdf) process doc =
    Inr (md_Text m, md_PageCount m, stored_from fmt_g ids now (doc_ID doc) 0 (concat bs))"
proof -
  let ?p = "start_progress\<lparr>pr_text := md_Text m, pr_expectedChunks := md_ChunkCount m, pr_pageCount := md_PageCount m,
           pr_metadataReceived := True\<rparr>"
  have len: "length (concat bs) \<le> 10000" using assms(9,10) by (simp add: word_le_nat_alt)
  have "unat (of_nat (length (md_Text m)) :: 64 word) = length (md_Text m)"
    using assms(8) by (simp add: unat_of_nat)
  then have size_ok: "(of_nat (length (md_Text m)) :: 64 word) \<le> maxExtractedTextBytes"
    using assms(8) by (simp add: word_le_nat_alt maxExtractedTextBytes_def)
  have pages: "md_PageCount m \<noteq> 0" using assms(6) by auto
  have "\<exists>q. receive_events fmt_g rnd now (doc_ID doc) (batches 0 bs) None ?p = Inr q \<and> pr_metadataReceived q \<and>
       pr_text q = pr_text ?p \<and> pr_pageCount q = pr_pageCount ?p \<and> pr_expectedChunks q = pr_expectedChunks ?p \<and>
       pr_chunks q = pr_chunks ?p @ stored_from fmt_g ids now (doc_ID doc) (length (pr_chunks ?p)) (concat bs)"
    by (rule receive_batches [OF assms(1)]) (use assms(11) len in \<open>simp_all add: start_progress_def\<close>)
  then obtain q where q: "receive_events fmt_g rnd now (doc_ID doc) (batches 0 bs) None ?p = Inr q"
    "pr_metadataReceived q" "pr_text q = md_Text m" "pr_pageCount q = md_PageCount m"
    "pr_expectedChunks q = md_ChunkCount m" "pr_chunks q = stored_from fmt_g ids now (doc_ID doc) 0 (concat bs)"
    by (auto simp: start_progress_def)
  have r: "receive_events fmt_g rnd now (doc_ID doc) (Metadata m # batches 0 bs) None start_progress = Inr q"
    using q(1) assms(4,5,7,10) pages size_ok
    by (simp add: start_progress_def maxEmbeddingDimensions_def maxProcessedPages_def maxProcessedChunks_def not_less)
  have t: "take (nat (maxUploadSize + 1)) pdf = pdf" using assms(2) by simp
  have "(of_nat (length (concat bs)) :: 32 word) = md_ChunkCount m" unfolding assms(9) by simp
  with q(2-6) show ?thesis
    unfolding processDocument_def using r t assms(2,3) by (simp add: Let_def)
qed

lemma well_formed_stream_accepted_witness:
  "\<exists>ids. processDocument (\<lambda>_ :: nat. ''0'') (\<lambda>_. Some (replicate 16 0)) 7 (Content ''%PDF-'') sample_stream (sample_document ''a'' 10)
     = Inr (''hello'', 2, stored_from (\<lambda>_ :: nat. ''0'') ids 7 ''a'' 0
        [\<lparr>pc_Index = 0, pc_Text = ''hello'', pc_StartOffset = 0, pc_EndOffset = 5, pc_PageStart = 1,
        pc_PageEnd = 2, pc_Embedding = replicate 768 0\<rparr>])"
proof -
  obtain i where i: "documentID (Some (replicate 16 0)) = Some i"
    using documentID_uuid4 [of "replicate 16 0"] by auto
  let ?c = "\<lparr>pc_Index = 0, pc_Text = ''hello'', pc_StartOffset = 0, pc_EndOffset = 5, pc_PageStart = 1,
        pc_PageEnd = 2, pc_Embedding = replicate 768 (0 :: nat)\<rparr>"
  let ?m = "\<lparr>md_DocumentId = ''a'', md_Text = ''hello'', md_PageCount = 2, md_ChunkCount = 1, md_EmbeddingDimensions = 768\<rparr>"
  have s: "sample_stream (doc_ID (sample_document ''a'' 10)) ''%PDF-'' = Stream (Metadata ?m # batches 0 [[?c]]) None"
    by (simp add: sample_stream_def sample_document_def)
  from well_formed_stream_accepted [where rnd = "\<lambda>_. Some (replicate 16 0)" and ids = "\<lambda>_. i"
      and fmt_g = "\<lambda>_ :: nat. ''0''" and now = 7
      and process = sample_stream and doc = "sample_document ''a'' 10" and pdf = "''%PDF-''" and m = ?m and bs = "[[?c]]"] i s
  have "processDocument (\<lambda>_ :: nat. ''0'') (\<lambda>_. Some (replicate 16 0)) 7 (Content ''%PDF-'') sample_stream (sample_document ''a'' 10)
     = Inr (''hello'', 2, stored_from (\<lambda>_. ''0'') (\<lambda>_. i) 7 ''a'' 0 [?c])"
    by (simp add: sample_document_def maxUploadSize_def chunk_ok_def)
  then show ?thesis by blast
qed

section \<open>What a failure tells\<close>

definition job_messages :: "string list" where
  "job_messages =
     [''could not read uploaded PDF'', ''uploaded PDF exceeds the maximum size'', ''document processor unavailable'',
      ''document processing failed'', ''document processor returned an invalid document'',
      ''document processor returned invalid chunk batches'', ''document processor returned too many chunks'',
      ''document processor returned invalid chunk indexes'', ''document processor returned an invalid embedding'',
      ''document processor returned invalid chunk text'', ''document processor returned invalid page metadata'',
      ''could not create chunk ID'', ''document processor returned no metadata'',
      ''document processor returned an incomplete result'']"

definition passing_cause :: "job_cause option \<Rightarrow> bool" where
  "passing_cause c = (case c of Some Client_Cause \<Rightarrow> True | Some Random_Cause \<Rightarrow> True
     | Some (Status_Cause code) \<Rightarrow> code \<noteq> InvalidArgument | _ \<Rightarrow> False)"

definition job_error_ok :: "jobError \<Rightarrow> bool" where
  "job_error_ok e \<longleftrightarrow> je_message e \<in> set job_messages \<and> (je_permanent e \<longleftrightarrow> \<not> passing_cause (je_cause e))"

lemma job_error_ok_simps [simp]:
  "job_error_ok (processorError code)" "job_error_ok unreadable_pdf"
  "job_error_ok (permanent ''uploaded PDF exceeds the maximum size'')"
  "job_error_ok (permanent ''document processor returned an invalid document'')"
  "job_error_ok (permanent ''document processor returned invalid chunk batches'')"
  "job_error_ok (permanent ''document processor returned too many chunks'')"
  "job_error_ok (permanent ''document processor returned invalid chunk indexes'')"
  "job_error_ok (permanent ''document processor returned an invalid embedding'')"
  "job_error_ok (permanent ''document processor returned invalid chunk text'')"
  "job_error_ok (permanent ''document processor returned invalid page metadata'')"
  "job_error_ok (permanent ''document processor returned no metadata'')"
  "job_error_ok (permanent ''document processor returned an incomplete result'')"
  "job_error_ok \<lparr>je_cause = Some Client_Cause, je_message = ''document processor unavailable'', je_permanent = False\<rparr>"
  "job_error_ok \<lparr>je_cause = Some Random_Cause, je_message = ''could not create chunk ID'', je_permanent = False\<rparr>"
  by (simp_all add: job_error_ok_def permanent_def processorError_def unreadable_pdf_def passing_cause_def job_messages_def)

lemma receive_chunks_error: "receive_chunks fmt_g rnd now docID cs p = Inl e \<Longrightarrow> job_error_ok e"
  by (induction fmt_g rnd now docID cs p rule: receive_chunks.induct) (auto split: if_splits option.splits)

lemma receive_events_error: "receive_events fmt_g rnd now docID es ending p = Inl e \<Longrightarrow> job_error_ok e"
proof (induction fmt_g rnd now docID es ending p rule: receive_events.induct)
  case (3 fmt_g rnd now docID batchIndex cs es ending p)
  then show ?case by (auto simp: and_then_def dest: receive_chunks_error split: if_splits sum.splits)
qed (auto split: if_splits option.splits)

text \<open>What a failed job tells is fixed. Whatever the storage, the processor and the random source answer, the message that
  is stored for the owner is one of fourteen texts of the program, so that no error text of another
  service reaches a page; the cause only goes to the log. And an error is permanent except when it
  is the connection, the random source, or a status of the processor other than \<^verbatim>\<open>InvalidArgument\<close>.\<close>

theorem job_error_fixed:
  assumes "processDocument fmt_g rnd now file process doc = Inl e"
  shows "je_message e \<in> set job_messages \<and>
    (je_permanent e \<longleftrightarrow> je_cause e \<notin> {Some Client_Cause, Some Random_Cause} \<and> (\<forall>code. je_cause e = Some (Status_Cause code) \<longrightarrow> code = InvalidArgument))"
proof -
  have "job_error_ok e"
  proof (cases "file")
    case (Content content)
    with assms show ?thesis
      by (auto simp: processDocument_def Let_def and_then_def dest: receive_events_error
          split: process_call.splits if_splits sum.splits)
  qed (use assms in \<open>auto simp: processDocument_def\<close>)
  then show ?thesis by (auto simp: job_error_ok_def passing_cause_def split: option.splits job_cause.splits)
qed

lemma job_error_fixed_witness:
  "\<exists>e. processDocument (\<lambda>_. ''0'') (\<lambda>_. None) 0 (Content ''%PDF-1'') sample_stream (sample_document ''a'' 10) = Inl e \<and>
     je_message e \<in> set job_messages \<and> \<not> je_permanent e \<and>
     jobError_Error (\<lambda>_. ''no entropy'') e = ''could not create chunk ID: no entropy''"
proof -
  let ?e = "\<lparr>je_cause = Some Random_Cause, je_message = ''could not create chunk ID'', je_permanent = False\<rparr> :: jobError"
  have p: "processDocument (\<lambda>_. ''0'') (\<lambda>_. None) 0 (Content ''%PDF-1'') sample_stream (sample_document ''a'' 10) = Inl ?e"
    by (simp add: processDocument_def sample_stream_def start_progress_def documentID_def maxUploadSize_def maxEmbeddingDimensions_def
        maxProcessedChunks_def maxProcessedPages_def maxExtractedTextBytes_def sample_document_def)
  from job_error_fixed [OF p] have "je_message ?e \<in> set job_messages" "\<not> je_permanent ?e" by simp_all
  with p show ?thesis by (intro exI [of _ ?e]) (simp add: jobError_Error_def)
qed

end
