(* ===== verification/Worker_Round.thy ===== *)
theory Worker_Round
  imports Worker
begin

text \<open>
  One round of a worker on the shared queue (\<^verbatim>\<open>processNext\<close>, \<^verbatim>\<open>maintainLease\<close> and
  \<^verbatim>\<open>refreshQueueMetrics\<close> of \<^verbatim>\<open>api/worker.go\<close>), with the operations of other workers and of
  owners running in between. The events of others between two steps of the round are lists of
  timed events of \<open>Job_Machine\<close>.
\<close>

section \<open>The heartbeat\<close>

text \<open>Each tick of the ticker: what others did since the last one, whether the renewal gets through
  (the connection is up, and the context is not cancelled while it runs), and its database time \<open>t\<close>.
  At the end of the list the context is done. The result says whether processing was cancelled and
  what \<^verbatim>\<open>done\<close> received.\<close>

type_synonym tick = "timed_event list \<times> bool \<times> time \<times> time"

fun maintainLease :: "queueConfig \<Rightarrow> workerConfig \<Rightarrow> string \<Rightarrow> string \<Rightarrow> tick list \<Rightarrow> db \<Rightarrow> (bool \<times> error option) \<times> db" where
  "maintainLease cfg config i leaseToken [] d = ((False, None), d)"
| "maintainLease cfg config i leaseToken ((others, up, t, now) # ticks) d =
     (case with_connection up (RenewLease t now i leaseToken (wc_leaseDuration config)) (run cfg others d) of
        (Inl e, d') \<Rightarrow> ((True, Some e), d')
      | (Inr _, d') \<Rightarrow> maintainLease cfg config i leaseToken ticks d')"

text \<open>The ticker keeps up: every tick comes before the lease runs out and gets through, and in between
  nobody but the worker itself may do something with its lease.\<close>

fun timely :: "time \<Rightarrow> duration \<Rightarrow> string \<Rightarrow> string \<Rightarrow> tick list \<Rightarrow> bool" where
  "timely t0 dur i tok [] = True"
| "timely t0 dur i tok ((others, up, t, now) # ticks) =
     (up \<and> t0 \<le> t \<and> t < t0 + Milliseconds dur * time_Millisecond \<and> list_all (within_lease t0 dur i tok) others \<and>
      timely t dur i tok ticks)"

fun last_tick :: "time \<Rightarrow> tick list \<Rightarrow> time" where
  "last_tick t0 [] = t0"
| "last_tick t0 ((others, up, t, now) # ticks) = last_tick t ticks"

abbreviation expiry :: "time \<Rightarrow> duration \<Rightarrow> time" where
  "expiry t dur \<equiv> t + Milliseconds dur * time_Millisecond"

lemma lease_until_leased: "lease_until i tok u (row d i) \<Longrightarrow> t < u \<Longrightarrow> leased d t i tok"
  by (auto simp: lease_until_def leased_def holds_lease_def)

lemma renew_lease_until:
  assumes "keys_ok d" "lease_until i tok u (row d i)" "t < u"
  obtains d' where "RenewLease t now i tok dur d = (Inr (), d')" "keys_ok d'"
    "lease_until i tok (expiry t dur) (row d' i)"
proof -
  have l: "leased d t i tok" using lease_until_leased [OF assms(2,3)] .
  obtain res d' where call: "RenewLease t now i tok dur d = (res, d')" by force
  have "res = Inr ()"
    using call l rows_affected_lease [OF assms(1)] by (auto simp: RenewLease_def update_leased_def Let_def)
  moreover from this call have "row d' i = map_option (renewed t now dur) (row d i)"
    using renew.done_row [OF assms(1), of t now i tok dur "()" d' i] by simp
  then have "lease_until i tok (expiry t dur) (row d' i)"
    using assms(2) by (auto simp: lease_until_def renewed_def)
  moreover have "keys_ok d'" by (rule renew.keeps_keys [OF assms(1) call])
  ultimately show thesis using call that by simp
qed

lemma maintainLease_keeps:
  "keys_ok d \<Longrightarrow> lease_until i tok (expiry t0 dur) (row d i) \<Longrightarrow> wc_leaseDuration config = dur \<Longrightarrow>
     timely t0 dur i tok ticks \<Longrightarrow>
     \<exists>d'. maintainLease cfg config i tok ticks d = ((False, None), d') \<and> keys_ok d' \<and>
       lease_until i tok (expiry (last_tick t0 ticks) dur) (row d' i)"
proof (induction cfg config i tok ticks d arbitrary: t0 rule: maintainLease.induct)
  case (2 cfg config i tok others up t now ticks d)
  let ?d = "run cfg others d"
  have keys: "keys_ok ?d" by (rule run_keys [OF "2.prems"(1)])
  have l: "lease_until i tok (expiry t0 dur) (row ?d i)"
    using run_within_lease [OF "2.prems"(1,2)] "2.prems"(4) by simp
  from "2.prems"(4) have "t < expiry t0 dur" by simp
  from renew_lease_until [OF keys l this] obtain d' where
    d': "RenewLease t now i tok dur ?d = (Inr (), d')" "keys_ok d'" "lease_until i tok (expiry t dur) (row d' i)" .
  have "timely t dur i tok ticks" using "2.prems"(4) by simp
  from "2.IH" [OF _ _ d'(2,3) "2.prems"(3) this] d'(1) "2.prems"(3,4) show ?case by (simp add: with_connection_def)
qed simp

lemma claimed_lease:
  assumes "keys_ok d0" "ClaimNext locked t0 tok dur maxAttempts d0 = (Inr r, d1)"
  shows "lease_until (doc_ID r) tok (expiry t0 dur) (row d1 (doc_ID r))"
  using assms by (cases rule: ClaimNext_cases) (auto simp: lease_until_def claim_def)

text \<open>Heartbeats keep the lease. As long as every renewal comes before the previous one has run
  out, a worker keeps the document it claimed through any number of renewals: none of them fails,
  processing is never cancelled, and at the end the worker can still store its result.\<close>

theorem heartbeats_keep_lease:
  assumes "keys_ok d0" and "ClaimNext locked t0 tok (wc_leaseDuration config) m d0 = (Inr r, d1)"
    and "timely t0 (wc_leaseDuration config) (doc_ID r) tok ticks"
    and "t < last_tick t0 ticks + Milliseconds (wc_leaseDuration config) * time_Millisecond"
  shows "\<exists>d2. maintainLease cfg config (doc_ID r) tok ticks d1 = ((False, None), d2) \<and> leased d2 t (doc_ID r) tok"
proof -
  have keys: "keys_ok d1" by (rule keys_ok_ClaimNext [OF assms(1,2)])
  from maintainLease_keeps [OF keys claimed_lease [OF assms(1,2)] refl assms(3), of cfg] lease_until_leased assms(4) show ?thesis by blast
qed

lemma heartbeats_keep_lease_witness:
  "\<exists>d2. maintainLease sample_config (default_config\<lparr>wc_leaseDuration := time_Second\<rparr>) ''a'' ''u''
     [([(21, 0, ClaimDoc [] ''v'' time_Second)], True, 600000000, 600000000), ([], True, 1200000000, 0)] sample_taken = ((False, None), d2)
     \<and> leased d2 2000000000 ''a'' ''u''"
proof -
  let ?c = "default_config\<lparr>wc_leaseDuration := time_Second\<rparr>"
  let ?t = "[([(21, 0, ClaimDoc [] ''v'' time_Second)], True, 600000000, 600000000), ([], True, 1200000000, 0)] :: tick list"
  have c: "ClaimNext [] 20 ''u'' (wc_leaseDuration ?c) 2 sample_queued =
      (Inr (claim 20 ''u'' time_Second (sample_document ''a'' 10)), sample_taken)"
    by code_simp
  have k: "keys_ok sample_queued" using reachable_table_ok [OF sample_queued_reachable]
    by (simp add: table_ok_def sample_config_def)
  have i: "doc_ID (claim 20 ''u'' time_Second (sample_document ''a'' 10)) = ''a''" by (simp add: claim_def sample_document_def)
  show ?thesis
    by (rule heartbeats_keep_lease [OF k c, of ?t 2000000000 sample_config, unfolded i])
      (simp_all add: Milliseconds_def)
qed

section \<open>Queue metrics\<close>

definition refreshQueueMetrics :: "bool \<Rightarrow> time \<Rightarrow> time \<Rightarrow> db \<Rightarrow> metrics \<Rightarrow> metrics" where
  "refreshQueueMetrics up sqlnow now d m =
     (if \<not> up then m
      else case QueueStats sqlnow d of (depth, oldest) \<Rightarrow>
        let m = m\<lparr>queueDepth := depth\<rparr>
        in if oldest = 0 then m\<lparr>queueOldestAgeMs := 0\<rparr>
           else let age = Milliseconds (now - oldest)
                in m\<lparr>queueOldestAgeMs := word_of_int (if age < 0 then 0 else age)\<rparr>)"

section \<open>One round\<close>

datatype round_error = NoToken | StoreFailed error | HeartbeatFailed error

text \<open>What \<^verbatim>\<open>processNext\<close> does with the outcome of processing, at the database time \<open>t\<close> and
  the worker's time \<open>now\<close>.\<close>

definition store_outcome ::
    "bool \<Rightarrow> queueConfig \<Rightarrow> workerConfig \<Rightarrow> time \<Rightarrow> time \<Rightarrow> document \<Rightarrow> string \<Rightarrow> jobError + string \<times> 32 word \<times> documentChunk list \<Rightarrow>
     metrics \<Rightarrow> db \<Rightarrow> (error + unit) \<times> metrics \<times> db" where
  "store_outcome up cfg config t now claimed leaseToken outcome m d =
     (case outcome of
        Inr (content, pageCount, chunks) \<Rightarrow>
          (case with_connection up (Complete (qc_accepts cfg) (qc_accepts_chunk cfg) t now (doc_ID claimed) leaseToken
                 content pageCount chunks) d of
             (r, d') \<Rightarrow> (r, m, d'))
      | Inl processingErr \<Rightarrow>
          if je_permanent processingErr \<or> doc_AttemptCount claimed \<ge> wc_maxAttempts config
          then
            let m = m\<lparr>processingFailures := processingFailures m + 1\<rparr>;
                kind = (if je_permanent processingErr then ''permanent'' else ''retryable'')
            in (case with_connection up (Fail t now (doc_ID claimed) leaseToken (je_message processingErr) kind) d of (r, d') \<Rightarrow> (r, m, d'))
          else
            (case with_connection up (Retry t now (doc_ID claimed) leaseToken
                 (now + retryBackoff (doc_AttemptCount claimed) config)) d of
               (r, d') \<Rightarrow> (r, m, d')))"

text \<open>What a round meets: the random bytes of the lease token, the rows others have locked, the times
  of the claim and of the end, which calls reach the database, what processing yields, the ticks of
  the heartbeat, and what others do before the round and between its last tick and its end.\<close>

datatype round_point = Statistics_Before | Claiming | Storing_Outcome | Statistics_After

record round_inputs =
  ri_before :: "timed_event list"
  ri_random :: "byte list option"
  ri_locked :: "string list"
  ri_up :: "round_point \<Rightarrow> bool"
  ri_claim_time :: time
  ri_process :: "document \<Rightarrow> jobError + string \<times> 32 word \<times> documentChunk list"
  ri_ticks :: "tick list"
  ri_others :: "timed_event list"
  ri_sql_time :: time
  ri_time :: time

definition processNext ::
    "queueConfig \<Rightarrow> workerConfig \<Rightarrow> round_inputs \<Rightarrow> metrics \<Rightarrow> db \<Rightarrow> round_error option \<times> metrics \<times> db" where
  "processNext cfg config inp m d =
     (let up = ri_up inp; t0 = ri_claim_time inp; t = ri_sql_time inp; now = ri_time inp;
          m = refreshQueueMetrics (up Statistics_Before) t0 t0 d m in
      case documentID (ri_random inp) of
        None \<Rightarrow> (Some NoToken, refreshQueueMetrics (up Statistics_After) t0 t0 d m, d)
      | Some leaseToken \<Rightarrow>
          (case with_connection (up Claiming)
                  (ClaimNext (ri_locked inp) t0 leaseToken (wc_leaseDuration config) (wc_maxAttempts config)) d of
             (Inl e, d) \<Rightarrow> (Some (StoreFailed e), refreshQueueMetrics (up Statistics_After) t0 t0 d m, d)
           | (Inr claimed, d) \<Rightarrow>
               (case maintainLease cfg config (doc_ID claimed) leaseToken (ri_ticks inp) d of
                  ((cancelled, Some e), d) \<Rightarrow> (Some (HeartbeatFailed e), refreshQueueMetrics (up Statistics_After) t now d m, d)
                | ((cancelled, None), d) \<Rightarrow>
                    (case store_outcome (up Storing_Outcome) cfg config t now claimed leaseToken (ri_process inp claimed) m
                            (run cfg (ri_others inp) d) of
                       (r, m, d) \<Rightarrow>
                         ((case r of Inl e \<Rightarrow> Some (StoreFailed e) | Inr _ \<Rightarrow> None),
                          refreshQueueMetrics (up Statistics_After) t now d m, d)))))"

lemma with_connection_True [simp]: "with_connection True f = f"
  by (simp add: with_connection_def fun_eq_iff)

lemma leased_update:
  assumes "keys_ok d" "leased d t i tok"
  shows "fst (update_leased t i tok f d) = Inr ()"
  using rows_affected_lease [OF assms(1)] assms(2) by (simp add: update_leased_def Let_def)

lemma store_outcome_row:
  assumes keys: "keys_ok d" and l: "leased d t (doc_ID claimed) tok"
    and call: "store_outcome True cfg config t now claimed tok outcome m d = (r, m', d')"
  shows "case outcome of
      Inr (content, pages, chunks) \<Rightarrow>
        r = Inl ErrConstraint \<and> d' = d \<or>
        r = Inr () \<and> row d' (doc_ID claimed) = map_option (completed now content pages) (row d (doc_ID claimed))
    | Inl e \<Rightarrow> r = Inr () \<and>
        row d' (doc_ID claimed) = map_option
          (if je_permanent e then Job_Store.failed now (je_message e) ''permanent''
           else if doc_AttemptCount claimed \<ge> wc_maxAttempts config then Job_Store.failed now (je_message e) ''retryable''
           else requeued now (now + retryBackoff (doc_AttemptCount claimed) config)) (row d (doc_ID claimed))"
proof (cases outcome)
  case (Inl e)
  show ?thesis
  proof (cases "je_permanent e \<or> doc_AttemptCount claimed \<ge> wc_maxAttempts config")
    case True
    let ?k = "if je_permanent e then ''permanent'' else ''retryable''"
    from call Inl True have f: "Fail t now (doc_ID claimed) tok (je_message e) ?k d = (r, d')"
      by (auto simp: store_outcome_def Let_def split: prod.splits)
    then have "r = Inr ()" using leased_update [OF keys l] by (metis Fail_def fst_conv)
    with fail.done_row [OF keys f [unfolded this], of "doc_ID claimed"] Inl True show ?thesis by auto
  next
    case False
    from call Inl False have f: "Retry t now (doc_ID claimed) tok (now + retryBackoff (doc_AttemptCount claimed) config) d = (r, d')"
      by (auto simp: store_outcome_def Let_def split: prod.splits)
    then have "r = Inr ()" using leased_update [OF keys l] by (metis Retry_def fst_conv)
    with retry.done_row [OF keys f [unfolded this], of "doc_ID claimed"] Inl False show ?thesis by auto
  qed
next
  case (Inr x)
  obtain content pages chunks where x: "x = (content, pages, chunks)" by (cases x)
  from call Inr x have c: "Complete (qc_accepts cfg) (qc_accepts_chunk cfg) t now (doc_ID claimed) tok content pages chunks d = (r, d')"
    by (auto simp: store_outcome_def split: prod.splits)
  from keys c show ?thesis
  proof (cases rule: Complete_cases)
    case (ok mid)
    then have "r = Inr ()" by simp
    with complete.done_row [OF keys c [unfolded this], of "doc_ID claimed"] Inr x show ?thesis by simp
  qed (use l Inr x in auto)
qed

section \<open>A round settles its job\<close>

text \<open>The row a round leaves behind for the document it claimed, without the fields that only carry the
  data of the document itself.\<close>

definition settled :: "workerConfig \<Rightarrow> time \<Rightarrow> document \<Rightarrow> jobError + string \<times> 32 word \<times> documentChunk list \<Rightarrow> document \<Rightarrow> bool" where
  "settled config now claimed outcome q =
     (doc_LeaseToken q = None \<and> doc_LeaseExpiresAt q = None \<and>
      (case outcome of
         Inr (content, pages, chunks) \<Rightarrow>
           doc_Status q = ''completed'' \<and> doc_ExtractedText q = Some content \<and> doc_PageCount q = pages \<and>
           doc_ErrorMessage q = None
       | Inl e \<Rightarrow>
           if je_permanent e \<or> doc_AttemptCount claimed \<ge> wc_maxAttempts config
           then doc_Status q = ''failed'' \<and> doc_ErrorMessage q = Some (je_message e) \<and>
             doc_FailureKind q = (if je_permanent e then ''permanent'' else ''retryable'')
           else doc_Status q = ''queued'' \<and> doc_ErrorMessage q = None \<and>
             doc_NextAttemptAt q = Some (now + retryBackoff (doc_AttemptCount claimed) config)))"

lemma store_outcome_settled:
  assumes "keys_ok d" "leased d t (doc_ID claimed) tok"
    and "store_outcome True cfg config t now claimed tok outcome m d = (r, m', d')"
  shows "r = Inl ErrConstraint \<and> d' = d \<and> \<not> isl outcome \<or>
    r = Inr () \<and> (\<exists>q. row d' (doc_ID claimed) = Some q \<and> settled config now claimed outcome q)"
proof -
  obtain q where q: "row d (doc_ID claimed) = Some q" using assms(2) by (auto simp: leased_def split: option.splits)
  show ?thesis
  proof (cases outcome)
    case (Inl e)
    with store_outcome_row [OF assms] q show ?thesis
      by (auto simp: settled_def Job_Store.failed_def requeued_def)
  next
    case (Inr x)
    obtain content pages chunks where "x = (content, pages, chunks)" by (cases x)
    with Inr store_outcome_row [OF assms] q show ?thesis
      by (auto simp: settled_def completed_def)
  qed
qed


definition broken_round :: "tick list \<Rightarrow> round_inputs" where
  "broken_round ticks = \<lparr>ri_before = [], ri_random = Some (replicate 16 0), ri_locked = [], ri_up = (\<lambda>_. True), ri_claim_time = 20,
     ri_process = (\<lambda>_. Inl (permanent ''broken'')), ri_ticks = ticks, ri_others = [], ri_sql_time = 1200000000,
     ri_time = 1200000001\<rparr>"

lemma broken_round_claims:
  obtains tok q d1 where "documentID (ri_random (broken_round ticks)) = Some tok" "doc_ID q = ''a''"
    "ClaimNext (ri_locked (broken_round ticks)) (ri_claim_time (broken_round ticks)) tok time_Second 5 sample_queued = (Inr q, d1)"
proof -
  let ?r = "Some (replicate 16 0) :: byte list option"
  have "documentID ?r \<noteq> None" by code_simp
  moreover have "(case ClaimNext [] 20 (the (documentID ?r)) time_Second 5 sample_queued of
      (Inr q, _) \<Rightarrow> doc_ID q = ''a'' | _ \<Rightarrow> False)" by code_simp
  ultimately show thesis using that by (auto simp: broken_round_def split: prod.splits sum.splits)
qed

lemma sample_queued_keys: "keys_ok sample_queued"
  using reachable_table_ok [OF sample_queued_reachable] by (simp add: table_ok_def sample_config_def)


section \<open>A heartbeat that does not get through\<close>

lemma maintainLease_append:
  "maintainLease cfg config i tok ticks d = ((False, None), d') \<Longrightarrow>
     maintainLease cfg config i tok (ticks @ later) d = maintainLease cfg config i tok later d'"
  by (induction cfg config i tok ticks d rule: maintainLease.induct) (auto split: prod.splits sum.splits)

text \<open>C18: a heartbeat that is cut short throws the result of the round away. When processing ends while a
  renewal is under way, \<^verbatim>\<open>stopHeartbeat\<close> cancels the context of that renewal; it fails, and the round
  returns its error before it looks at the result: whatever processing yielded, finished text as well
  as a permanent error, nothing of it is stored. The document stays with the lease of a worker that is done
  with it, until the lease runs out and another attempt begins.\<close>

theorem cut_heartbeat_discards_result:
  assumes "keys_ok d" and "documentID (ri_random inp) = Some tok" and "ri_up inp Claiming"
    and "ClaimNext (ri_locked inp) (ri_claim_time inp) tok (wc_leaseDuration config) (wc_maxAttempts config) d = (Inr r, d1)"
    and "ri_ticks inp = ticks @ [(others, False, t, now)]"
    and "timely (ri_claim_time inp) (wc_leaseDuration config) (doc_ID r) tok ticks"
    and "list_all (within_lease (last_tick (ri_claim_time inp) ticks) (wc_leaseDuration config) (doc_ID r) tok) others"
    and "processNext cfg config inp m d = (err, m', d')"
  shows "err = Some (HeartbeatFailed ErrUnavailable) \<and>
    (\<forall>process. processNext cfg config (inp\<lparr>ri_process := process\<rparr>) m d = (err, m', d')) \<and>
    (\<forall>t'. t' < last_tick (ri_claim_time inp) ticks + Milliseconds (wc_leaseDuration config) * time_Millisecond \<longrightarrow>
       leased d' t' (doc_ID r) tok)"
proof -
  from maintainLease_keeps [OF keys_ok_ClaimNext [OF assms(1,4)] claimed_lease [OF assms(1,4)] refl assms(6), of cfg] obtain d2 where
    d2: "maintainLease cfg config (doc_ID r) tok ticks d1 = ((False, None), d2)" "keys_ok d2"
      "lease_until (doc_ID r) tok (expiry (last_tick (ri_claim_time inp) ticks) (wc_leaseDuration config)) (row d2 (doc_ID r))"
    by blast
  have cut: "maintainLease cfg config (doc_ID r) tok (ri_ticks inp) d1 = ((True, Some ErrUnavailable), run cfg others d2)"
    using maintainLease_append [OF d2(1)] by (simp add: assms(5) with_connection_def)
  have eq: "processNext cfg config (inp\<lparr>ri_process := process\<rparr>) m d = (err, m', d')" for process
    using assms(8) by (auto simp add: processNext_def Let_def assms(2-4) cut)
  from assms(8) have "err = Some (HeartbeatFailed ErrUnavailable)" "d' = run cfg others d2"
    by (simp_all add: processNext_def Let_def assms(2-4) cut)
  with eq run_within_lease [OF d2(2,3) assms(7)] lease_until_leased show ?thesis by blast
qed

lemma cut_heartbeat_discards_result_witness:
  "\<exists>m' d'. processNext sample_config (default_config\<lparr>wc_leaseDuration := time_Second\<rparr>)
      ((broken_round [([], False, 600000000, 600000000)])\<lparr>ri_process := (\<lambda>_. Inr (''text'', 1, []))\<rparr>) newMetrics sample_queued
      = (Some (HeartbeatFailed ErrUnavailable), m', d') \<and> (\<exists>tok. leased d' 700000000 ''a'' tok)"
proof -
  let ?c = "default_config\<lparr>wc_leaseDuration := time_Second\<rparr>"
  let ?i = "broken_round [([], False, 600000000, 600000000)]"
  obtain tok q d1 where tok: "documentID (ri_random ?i) = Some tok" and i: "doc_ID q = ''a''"
    and c: "ClaimNext (ri_locked ?i) (ri_claim_time ?i) tok (wc_leaseDuration ?c) (wc_maxAttempts ?c) sample_queued = (Inr q, d1)"
    by (rule broken_round_claims) (simp add: default_config_def)
  obtain err m' d' where p: "processNext sample_config ?c ?i newMetrics sample_queued = (err, m', d')"
    using prod_cases3 by blast
  note cut = cut_heartbeat_discards_result [OF sample_queued_keys tok _ c _ _ _ p, of "[]" "[]" 600000000 600000000, unfolded i]
  have "err = Some (HeartbeatFailed ErrUnavailable)"
    "processNext sample_config ?c (?i\<lparr>ri_process := (\<lambda>_. Inr (''text'', 1, []))\<rparr>) newMetrics sample_queued = (err, m', d')"
    "leased d' 700000000 ''a'' tok"
    using cut by (auto simp: broken_round_def Milliseconds_def go_div_def)
  then show ?thesis by blast
qed

end
