(* ===== verification/Worker_Loop.thy ===== *)
theory Worker_Loop
  imports Worker_Round
begin

text \<open>
  The loop of a worker (\<^verbatim>\<open>startWorker\<close> of \<^verbatim>\<open>api/worker.go\<close>): rounds of \<open>processNext\<close> until the
  context is done, with a pause after a round that found nothing or failed. The loop need not end, so
  it is a partial function. What the others do to the database before a round and during it is part
  of what the round is given.
\<close>

section \<open>The loop\<close>

definition worker_round ::
    "queueConfig \<Rightarrow> workerConfig \<Rightarrow> round_inputs \<Rightarrow> metrics \<Rightarrow> db \<Rightarrow> round_error option \<times> metrics \<times> db" where
  "worker_round cfg config inp m d =
     processNext cfg config inp m (run cfg (ri_before inp) d)"

text \<open>\<open>done_before k\<close> and \<open>done_after k\<close> say whether the context is done when the loop looks before the
  round \<open>k\<close> and while it pauses after it. The result counts the rounds.\<close>

partial_function (option) worker_loop ::
    "queueConfig \<Rightarrow> workerConfig \<Rightarrow> (nat \<Rightarrow> bool) \<Rightarrow> (nat \<Rightarrow> bool) \<Rightarrow> (nat \<Rightarrow> round_inputs) \<Rightarrow> nat \<Rightarrow> metrics \<Rightarrow> db \<Rightarrow>
     (nat \<times> metrics \<times> db) option" where
  "worker_loop cfg config done_before done_after rounds k m d =
     (if done_before k then Some (k, m, d)
      else case worker_round cfg config (rounds k) m d of
          (err, m, d) \<Rightarrow>
            if err \<noteq> None \<and> done_after k then Some (Suc k, m, d)
            else worker_loop cfg config done_before done_after rounds (Suc k) m d)"

section \<open>When it ends\<close>

text \<open>The state after a number of rounds.\<close>

fun rounds_from :: "queueConfig \<Rightarrow> workerConfig \<Rightarrow> (nat \<Rightarrow> round_inputs) \<Rightarrow> nat \<Rightarrow> nat \<Rightarrow> metrics \<Rightarrow> db \<Rightarrow> metrics \<times> db" where
  "rounds_from cfg config rounds k 0 m d = (m, d)"
| "rounds_from cfg config rounds k (Suc n) m d =
     (case worker_round cfg config (rounds k) m d of (err, m, d) \<Rightarrow> rounds_from cfg config rounds (Suc k) n m d)"

lemma worker_loop_unfold:
  assumes "worker_round cfg config (rounds k) m d = (err, m1, d1)"
  shows "worker_loop cfg config done_before done_after rounds k m d =
    (if done_before k then Some (k, m, d)
     else if err \<noteq> None \<and> done_after k then Some (Suc k, m1, d1)
     else worker_loop cfg config done_before done_after rounds (Suc k) m1 d1)"
  by (subst worker_loop.simps) (simp add: assms)

lemma worker_loop_ends:
  assumes "k \<le> n" "done_before n"
  shows "worker_loop cfg config done_before done_after rounds k m d \<noteq> None"
  using assms
proof (induction "n - k" arbitrary: k m d)
  case 0
  then have "k = n" by simp
  with 0 show ?case by (subst worker_loop.simps) simp
next
  case (Suc x)
  obtain err m1 d1 where r: "worker_round cfg config (rounds k) m d = (err, m1, d1)" using prod_cases3 by blast
  have "x = n - Suc k" "Suc k \<le> n" using Suc.hyps(2) Suc.prems by simp_all
  from Suc.hyps(1) [OF this Suc.prems(2)] show ?case
    by (simp add: worker_loop_unfold [where rounds = rounds and k = k and m = m and d = d, OF r])
qed

lemma worker_loop_Some:
  "worker_loop cfg config done_before done_after rounds k m d = Some r \<Longrightarrow>
     k \<le> fst r \<and> snd r = rounds_from cfg config rounds k (fst r - k) m d \<and>
     (done_before (fst r) \<or> k < fst r \<and> done_after (fst r - 1)) \<and> (\<forall>n. k \<le> n \<longrightarrow> done_before n \<longrightarrow> fst r \<le> n)"
proof (induct rule: worker_loop.raw_induct [where P = "\<lambda>cfg config done_before done_after rounds k m d r.
     k \<le> fst r \<and> snd r = rounds_from cfg config rounds k (fst r - k) m d \<and>
     (done_before (fst r) \<or> k < fst r \<and> done_after (fst r - 1)) \<and> (\<forall>n. k \<le> n \<longrightarrow> done_before n \<longrightarrow> fst r \<le> n)",
     rotated, consumes 1, case_names step])
  case (step loop cfg config done_before done_after rounds k m d r)
  obtain err m1 d1 where w: "worker_round cfg config (rounds k) m d = (err, m1, d1)" using prod_cases3 by blast
  consider "done_before k" "r = (k, m, d)"
    | "\<not> done_before k" "done_after k" "r = (Suc k, m1, d1)"
    | "\<not> done_before k" "loop cfg config done_before done_after rounds (Suc k) m1 d1 = Some r"
  proof (cases "done_before k")
    case True
    with step(2) that(1) show thesis by simp
  next
    case False
    with step(2) have "(if err \<noteq> None \<and> done_after k then Some (Suc k, m1, d1)
        else loop cfg config done_before done_after rounds (Suc k) m1 d1) = Some r" by (simp only: w prod.case if_False)
    then consider "done_after k" "Some (Suc k, m1, d1) = Some r"
      | "loop cfg config done_before done_after rounds (Suc k) m1 d1 = Some r" by (metis (full_types))
    then show thesis using False that(2,3) by cases blast+
  qed
  then show ?case
  proof cases
    case 2
    with w have "rounds_from cfg config rounds k (Suc 0) m d = (m1, d1)" by simp
    with 2 show ?thesis by (auto simp: Suc_le_eq le_less)
  next
    case 3
    from step(1) [OF 3(2)] have IH: "Suc k \<le> fst r" "snd r = rounds_from cfg config rounds (Suc k) (fst r - Suc k) m1 d1"
      "done_before (fst r) \<or> Suc k < fst r \<and> done_after (fst r - 1)" "\<And>n. Suc k \<le> n \<Longrightarrow> done_before n \<Longrightarrow> fst r \<le> n"
      by blast+
    from IH(1) have "fst r - k = Suc (fst r - Suc k)" by simp
    then have "snd r = rounds_from cfg config rounds k (fst r - k) m d" using w IH(2) by simp
    moreover have "fst r \<le> n" if "k \<le> n" "done_before n" for n
      using that 3(1) IH(4) by (cases "n = k") auto
    ultimately show ?thesis using IH(1,3) by auto
  qed auto
qed

text \<open>C22: a worker runs exactly until it is told to stop: once the context is done, it does at most the round
  it has begun and returns, with the effects of the rounds it counts and no others; and it returns for
  no other reason, so that neither an empty queue nor failing rounds stop it.\<close>

theorem worker_runs_until_told:
  "case worker_loop cfg config done_before done_after rounds 0 m d of
     None \<Rightarrow> (\<forall>n. \<not> done_before n)
   | Some (k, m', d') \<Rightarrow> (m', d') = rounds_from cfg config rounds 0 k m d \<and> (done_before k \<or> 0 < k \<and> done_after (k - 1)) \<and>
       (\<forall>n. done_before n \<longrightarrow> k \<le> n)"
proof (cases "worker_loop cfg config done_before done_after rounds 0 m d")
  case None
  with worker_loop_ends [of 0 _ done_before cfg config done_after rounds m d] show ?thesis by auto
next
  case (Some r)
  with worker_loop_Some [OF Some] show ?thesis by (cases r) auto
qed

definition idle_round :: round_inputs where
  "idle_round = \<lparr>ri_before = [], ri_random = Some (replicate 16 0), ri_locked = [], ri_up = (\<lambda>_. True), ri_claim_time = 20,
     ri_process = (\<lambda>_. Inl (permanent ''broken'')), ri_ticks = [], ri_others = [], ri_sql_time = 20, ri_time = 20\<rparr>"

lemma worker_runs_until_told_witness:
  "\<exists>k m d. worker_loop sample_config default_config (\<lambda>n. 2 \<le> n) (\<lambda>_. False) (\<lambda>_. idle_round) 0 newMetrics sample_queued = Some (k, m, d) \<and>
     k = 2 \<and> (m, d) = rounds_from sample_config default_config (\<lambda>_. idle_round) 0 2 newMetrics sample_queued"
proof -
  note told = worker_runs_until_told [where cfg = sample_config and config = default_config and done_before = "\<lambda>n. 2 \<le> n"
    and done_after = "\<lambda>_. False" and rounds = "\<lambda>_. idle_round" and m = newMetrics and d = sample_queued]
  then obtain k m d where r:
    "worker_loop sample_config default_config (\<lambda>n. 2 \<le> n) (\<lambda>_. False) (\<lambda>_. idle_round) 0 newMetrics sample_queued = Some (k, m, d)"
    by (auto split: option.splits)
  with told have "(m, d) = rounds_from sample_config default_config (\<lambda>_. idle_round) 0 k newMetrics sample_queued" "2 \<le> k" "\<forall>n. 2 \<le> n \<longrightarrow> k \<le> n"
    by simp_all
  moreover from this(3) have "k \<le> 2" by blast
  ultimately show ?thesis using r by (intro exI [of _ k] exI [of _ m] exI [of _ d]) simp
qed

end
