(* ===== verification/Auth_Config.thy ===== *)
theory Auth_Config
  imports Go_Strings
begin

text \<open>
  The authentication settings (\<^verbatim>\<open>newAuthenticator\<close>, \<^verbatim>\<open>trustedProxyNetworks\<close>, \<^verbatim>\<open>getenv\<close> of
  \<^verbatim>\<open>api/auth.go\<close>; \<^verbatim>\<open>validateProductionAuthConfig\<close>, \<^verbatim>\<open>authMode\<close> of \<^verbatim>\<open>api/main.go\<close>). The
  environment is a function from names to values, the empty string for a name that is not set, as
  \<^verbatim>\<open>os.Getenv\<close> has it. \<^verbatim>\<open>net.ParseCIDR\<close> and \<^verbatim>\<open>time.ParseDuration\<close> are arguments; a network is
  of any type \<open>'net\<close>.
\<close>

section \<open>Reading the environment\<close>

type_synonym environment = "string \<Rightarrow> string"

definition getenv :: "environment \<Rightarrow> string \<Rightarrow> string \<Rightarrow> string" where
  "getenv env name fallback = (if env name \<noteq> [] then env name else fallback)"

definition authMode :: "environment \<Rightarrow> string" where
  "authMode env = getenv env ''AUTH_MODE'' ''production''"

definition developmentJWTSecret :: string where
  "developmentJWTSecret = ''local-development-secret-change-me-please''"

definition defaultJWTIssuer :: string where "defaultJWTIssuer = ''documind''"
definition defaultJWTTTL :: duration where "defaultJWTTTL = 8 * time_Hour"

definition validateProductionAuthConfig :: "environment \<Rightarrow> string option" where
  "validateProductionAuthConfig env =
     (if authMode env = ''development'' then None
      else let secret = env ''AUTH_JWT_SECRET''
           in if secret = [] then Some ''AUTH_JWT_SECRET is required''
              else if secret = developmentJWTSecret then Some ''AUTH_JWT_SECRET must not use the development secret''
              else if length secret < 32 then Some ''AUTH_JWT_SECRET must be at least 32 characters''
              else if env ''AUTH_COOKIE_SECURE'' \<noteq> ''true'' \<or> env ''AUTH_REQUIRE_HTTPS'' \<noteq> ''true''
                   then Some ''production requires AUTH_COOKIE_SECURE=true and AUTH_REQUIRE_HTTPS=true''
              else None)"

fun parse_networks :: "(string \<Rightarrow> 'net option) \<Rightarrow> string list \<Rightarrow> 'net list option" where
  "parse_networks ParseCIDR [] = Some []"
| "parse_networks ParseCIDR (raw # raws) =
     (case ParseCIDR (TrimSpace raw) of
        None \<Rightarrow> None
      | Some network \<Rightarrow> map_option ((#) network) (parse_networks ParseCIDR raws))"

definition trustedProxyNetworks :: "(string \<Rightarrow> 'net option) \<Rightarrow> environment \<Rightarrow> string + 'net list" where
  "trustedProxyNetworks ParseCIDR env =
     (let v = TrimSpace (env ''TRUSTED_PROXY_CIDRS'')
      in if v = [] then Inr []
         else case parse_networks ParseCIDR (Split CHR '','' v) of
             None \<Rightarrow> Inl ''TRUSTED_PROXY_CIDRS contains an invalid CIDR''
           | Some networks \<Rightarrow> Inr networks)"

section \<open>The authenticator\<close>

text \<open>The database and the limiter are parts of the state the handlers work on; the authenticator only
  says whether there is a database.\<close>

record 'net jwtAuthenticator =
  ja_secret :: string
  ja_issuer :: string
  ja_ttl :: duration
  ja_secureCookie :: bool
  ja_requireHTTPS :: bool
  ja_database :: bool
  ja_trustedProxies :: "'net list"

definition no_secret_authenticator :: "'net list \<Rightarrow> 'net jwtAuthenticator" where
  "no_secret_authenticator trustedProxies =
     \<lparr>ja_secret = [], ja_issuer = [], ja_ttl = 0, ja_secureCookie = False, ja_requireHTTPS = False,
      ja_database = False, ja_trustedProxies = trustedProxies\<rparr>"

definition newAuthenticator ::
    "(string \<Rightarrow> 'net option) \<Rightarrow> (string \<Rightarrow> duration option) \<Rightarrow> environment \<Rightarrow> bool \<Rightarrow> string + 'net jwtAuthenticator" where
  "newAuthenticator ParseCIDR ParseDuration env database =
     and_then (trustedProxyNetworks ParseCIDR env) (\<lambda>trustedProxies.
       let secret = env ''AUTH_JWT_SECRET'';
           production = authMode env \<noteq> ''development'';
           secureCookie = (env ''AUTH_COOKIE_SECURE'' = ''true'');
           requireHTTPS = (env ''AUTH_REQUIRE_HTTPS'' = ''true'')
       in if \<not> database \<and> secret = [] then Inr (no_secret_authenticator trustedProxies)
          else if secret = [] then
            (if authMode env = ''development'' \<and> \<not> database then Inr (no_secret_authenticator trustedProxies)
             else Inl ''AUTH_JWT_SECRET is required'')
          else if production \<and> secret = developmentJWTSecret
               then Inl ''AUTH_JWT_SECRET must not use the development secret''
          else if length secret < 32 then Inl ''AUTH_JWT_SECRET must be at least 32 characters''
          else if production \<and> (\<not> secureCookie \<or> \<not> requireHTTPS)
               then Inl ''production requires AUTH_COOKIE_SECURE=true and AUTH_REQUIRE_HTTPS=true''
          else and_then
            (let v = env ''AUTH_JWT_TTL''
             in if v = [] then Inr defaultJWTTTL
                else case ParseDuration v of
                    None \<Rightarrow> Inl ''AUTH_JWT_TTL must be a positive duration''
                  | Some parsed \<Rightarrow>
                      (if parsed \<le> 0 then Inl ''AUTH_JWT_TTL must be a positive duration'' else Inr parsed))
            (\<lambda>ttl. Inr \<lparr>ja_secret = secret, ja_issuer = getenv env ''AUTH_JWT_ISSUER'' defaultJWTIssuer,
                        ja_ttl = ttl, ja_secureCookie = secureCookie, ja_requireHTTPS = requireHTTPS,
                        ja_database = database, ja_trustedProxies = trustedProxies\<rparr>))"

lemma newAuthenticator_with_database:
  assumes "newAuthenticator ParseCIDR ParseDuration env True = Inr a"
  shows "ja_database a" "ja_secret a = env ''AUTH_JWT_SECRET''" "32 \<le> length (ja_secret a)" "0 < ja_ttl a"
    "ja_issuer a \<noteq> []" "trustedProxyNetworks ParseCIDR env = Inr (ja_trustedProxies a)"
    "ja_secureCookie a = (env ''AUTH_COOKIE_SECURE'' = ''true'')"
    "ja_requireHTTPS a = (env ''AUTH_REQUIRE_HTTPS'' = ''true'')"
    "authMode env = ''development'' \<or>
      ja_secret a \<noteq> developmentJWTSecret \<and> ja_secureCookie a \<and> ja_requireHTTPS a"
  using assms
  by (auto simp: newAuthenticator_def and_then_Inr Let_def getenv_def defaultJWTIssuer_def defaultJWTTTL_def
      split: if_splits option.splits)

lemma newAuthenticator_accepts:
  assumes "validateProductionAuthConfig env = None" "authMode env \<noteq> ''development''"
    and "trustedProxyNetworks ParseCIDR env = Inr networks"
    and "env ''AUTH_JWT_TTL'' = [] \<or> (\<exists>v. ParseDuration (env ''AUTH_JWT_TTL'') = Some v \<and> 0 < v)"
  shows "\<exists>a. newAuthenticator ParseCIDR ParseDuration env database = Inr a"
  using assms by (auto simp: newAuthenticator_def validateProductionAuthConfig_def Let_def split: if_splits)

text \<open>The two checks of the settings agree. Outside development mode the API, which always has a
  database, starts exactly when the early check of \<^verbatim>\<open>main\<close> accepts the settings and the proxy list
  and the session lifetime can be read. In every mode an API that starts with a database has a secret
  of at least 32 bytes and a positive session lifetime, so it never lets requests in without a
  session; outside development the secret is not the published one, cookies are secure and HTTPS is
  required.\<close>

theorem authenticator_settings:
  "((\<exists>a. newAuthenticator ParseCIDR ParseDuration env True = Inr a) \<and> authMode env \<noteq> ''development'') =
     (validateProductionAuthConfig env = None \<and> authMode env \<noteq> ''development'' \<and>
      (\<exists>networks. trustedProxyNetworks ParseCIDR env = Inr networks) \<and>
      (env ''AUTH_JWT_TTL'' = [] \<or> (\<exists>v. ParseDuration (env ''AUTH_JWT_TTL'') = Some v \<and> 0 < v))) \<and>
   (case newAuthenticator ParseCIDR ParseDuration env True of
      Inl e \<Rightarrow> True
    | Inr a \<Rightarrow> ja_database a \<and> 32 \<le> length (ja_secret a) \<and> 0 < ja_ttl a \<and>
        (if authMode env = ''development'' then True
         else ja_secret a \<noteq> developmentJWTSecret \<and> ja_secureCookie a \<and> ja_requireHTTPS a))"
proof (rule conjI)
  have "validateProductionAuthConfig env = None \<and> (\<exists>networks. trustedProxyNetworks ParseCIDR env = Inr networks) \<and>
      (env ''AUTH_JWT_TTL'' = [] \<or> (\<exists>v. ParseDuration (env ''AUTH_JWT_TTL'') = Some v \<and> 0 < v))"
    if "newAuthenticator ParseCIDR ParseDuration env True = Inr a" "authMode env \<noteq> ''development''" for a
    using that
    by (auto simp: newAuthenticator_def validateProductionAuthConfig_def and_then_Inr Let_def
        split: if_splits option.splits)
  with newAuthenticator_accepts [of env ParseCIDR _ ParseDuration True]
  show "((\<exists>a. newAuthenticator ParseCIDR ParseDuration env True = Inr a) \<and> authMode env \<noteq> ''development'') =
     (validateProductionAuthConfig env = None \<and> authMode env \<noteq> ''development'' \<and>
      (\<exists>networks. trustedProxyNetworks ParseCIDR env = Inr networks) \<and>
      (env ''AUTH_JWT_TTL'' = [] \<or> (\<exists>v. ParseDuration (env ''AUTH_JWT_TTL'') = Some v \<and> 0 < v)))"
    by blast
qed (use newAuthenticator_with_database [of ParseCIDR ParseDuration env] in \<open>auto split: sum.splits\<close>)

end
