(* ===== verification/Client_Address.thy ===== *)
theory Client_Address
  imports Auth_Config
begin

text \<open>
  Where a request comes from (\<^verbatim>\<open>clientIP\<close>, \<^verbatim>\<open>requestPeerIP\<close>, \<^verbatim>\<open>ipInNetworks\<close> and
  \<^verbatim>\<open>requireHTTPSRequest\<close> of \<^verbatim>\<open>api/auth.go\<close>) and what the handlers write back. The address
  functions of Go's \<^verbatim>\<open>net\<close> package are arguments, collected in a record, since nothing here
  depends on the form of addresses.
\<close>

section \<open>Requests and responses\<close>

record 'b request =
  req_RemoteAddr :: string
  req_TLS :: bool
  req_Header :: "string \<Rightarrow> string"
  req_Cookie :: "string \<Rightarrow> string option"
  req_Body :: 'b

text \<open>What a handler does to the response, in order. The status and the headers that reach the client
  are those set up to the first entry that has a status.\<close>

datatype reply =
    Body nat "(string \<times> string) list"
  | NoContent nat
  | Set_Cookie string string bool int    \<comment> \<open>name, value, Secure, MaxAge\<close>
  | Protected                            \<comment> \<open>what a handler behind the middleware wrote\<close>

type_synonym response = "reply list"

text \<open>\<^verbatim>\<open>c.JSON\<close> and \<^verbatim>\<open>c.NoContent\<close> write to the connection and return what that returned:
  nothing, as long as the client takes the data.\<close>

definition JSON :: "string option \<Rightarrow> nat \<Rightarrow> (string \<times> string) list \<Rightarrow> response \<Rightarrow> string option \<times> response" where
  "JSON write_error code body w = (write_error, w @ [Body code body])"

fun status :: "response \<Rightarrow> nat option" where
  "status [] = None"
| "status (Body code _ # w) = Some code"
| "status (NoContent code # w) = Some code"
| "status (Set_Cookie _ _ _ _ # w) = status w"
| "status (Protected # w) = Some 200"

section \<open>Addresses\<close>

record ('ip, 'net) net_package =
  ParseIP :: "string \<Rightarrow> 'ip option"
  IP_String :: "'ip \<Rightarrow> string"
  IPNet_Contains :: "'net \<Rightarrow> 'ip \<Rightarrow> bool"
  SplitHostPort :: "string \<Rightarrow> (string \<times> string) option"

definition requestPeerIP :: "('ip, 'net) net_package \<Rightarrow> 'b request \<Rightarrow> 'ip option" where
  "requestPeerIP net request =
     (case SplitHostPort net (req_RemoteAddr request) of
        Some (host, port) \<Rightarrow> ParseIP net host
      | None \<Rightarrow> ParseIP net (TrimSpace (req_RemoteAddr request)))"

fun ipInNetworks :: "('ip, 'net) net_package \<Rightarrow> 'ip option \<Rightarrow> 'net list \<Rightarrow> bool" where
  "ipInNetworks net None networks = False"
| "ipInNetworks net (Some ip) networks = list_ex (\<lambda>network. IPNet_Contains net network ip) networks"

text \<open>The loop over the forwarded addresses, from the last one on.\<close>

fun last_untrusted :: "('ip, 'net) net_package \<Rightarrow> 'net list \<Rightarrow> string list \<Rightarrow> 'ip option" where
  "last_untrusted net trusted [] = None"
| "last_untrusted net trusted (raw # raws) =
     (case ParseIP net (TrimSpace raw) of
        None \<Rightarrow> last_untrusted net trusted raws
      | Some candidate \<Rightarrow>
          (if ipInNetworks net (Some candidate) trusted then last_untrusted net trusted raws
           else Some candidate))"

definition clientIP :: "('ip, 'net) net_package \<Rightarrow> 'b request \<Rightarrow> 'net list \<Rightarrow> string" where
  "clientIP net request trustedProxies =
     (let peer = requestPeerIP net request;
          fallback = (case peer of
              Some p \<Rightarrow> IP_String net p
            | None \<Rightarrow> (if req_RemoteAddr request \<noteq> [] then req_RemoteAddr request else ''unknown''))
      in if ipInNetworks net peer trustedProxies
         then (case last_untrusted net trustedProxies (rev (Split CHR '','' (req_Header request ''X-Forwarded-For''))) of
             Some candidate \<Rightarrow> IP_String net candidate
           | None \<Rightarrow>
               (case ParseIP net (TrimSpace (req_Header request ''X-Real-IP'')) of
                  Some v \<Rightarrow> IP_String net v
                | None \<Rightarrow> fallback))
         else fallback)"

definition EqualFold :: "string \<Rightarrow> string \<Rightarrow> bool" where
  "EqualFold s t = (ToLower s = ToLower t)"

definition requireHTTPSRequest ::
    "('ip, 'net) net_package \<Rightarrow> 'net jwtAuthenticator \<Rightarrow> string option \<Rightarrow> 'b request \<Rightarrow> response \<Rightarrow> string option \<times> response" where
  "requireHTTPSRequest net a write_error request w =
     (let forwardedHTTPS =
            (ipInNetworks net (requestPeerIP net request) (ja_trustedProxies a) \<and>
             EqualFold (TrimSpace (req_Header request ''X-Forwarded-Proto'')) ''https'')
      in if ja_requireHTTPS a \<and> \<not> req_TLS request \<and> \<not> forwardedHTTPS
         then JSON write_error 400 [(''error'', ''HTTPS is required'')] w
         else (None, w))"

section \<open>Properties\<close>

lemma last_untrusted_append:
  "last_untrusted net trusted (xs @ ys) =
     (case last_untrusted net trusted xs of None \<Rightarrow> last_untrusted net trusted ys | Some ip \<Rightarrow> Some ip)"
  by (induction net trusted xs rule: last_untrusted.induct) (auto split: option.splits)

lemma last_untrusted_exists:
  "raw \<in> set raws \<Longrightarrow> ParseIP net (TrimSpace raw) = Some ip \<Longrightarrow> \<not> ipInNetworks net (Some ip) trusted \<Longrightarrow>
     last_untrusted net trusted raws \<noteq> None"
  by (induction net trusted raws rule: last_untrusted.induct) (auto split: option.splits)


text \<open>A toy address package for examples: an address is its text, a network the addresses that start
  with it.\<close>

definition sample_net :: "(string, string) net_package" where
  "sample_net = \<lparr>ParseIP = (\<lambda>s. if s = [] then None else Some s), IP_String = (\<lambda>s. s),
     IPNet_Contains = (\<lambda>n s. has_prefix s n), SplitHostPort = (\<lambda>s. case Split CHR '':'' s of [h, p] \<Rightarrow> Some (h, p) | _ \<Rightarrow> None)\<rparr>"

definition sample_request :: "string \<Rightarrow> string \<Rightarrow> 'b \<Rightarrow> 'b request" where
  "sample_request peer forwarded body = \<lparr>req_RemoteAddr = peer, req_TLS = False,
     req_Header = (\<lambda>n. if n = ''X-Forwarded-For'' then forwarded else []), req_Cookie = (\<lambda>_. None), req_Body = body\<rparr>"


end
