(* ===== verification/Sessions.thy ===== *)
theory Sessions
  imports Client_Address Rate_Limit Database
begin

text \<open>
  Accounts and sessions (\<^verbatim>\<open>api/auth.go\<close>): the handlers for registering, logging in, logging out and
  asking for the session, the check of a request's session and the middleware in front of the
  document routes. Signing and reading tokens (\<^verbatim>\<open>golang-jwt\<close>), hashing passwords
  (\<^verbatim>\<open>bcrypt\<close>), decoding JSON and the column checks of the accounts table are arguments, collected in
  a record.
\<close>

section \<open>Data\<close>

record authUser =
  u_ID :: string
  u_Email :: string
  u_PasswordHash :: string
  u_SessionVersion :: int
  u_CreatedAt :: time
  u_UpdatedAt :: time

record authCredentials =
  cr_Email :: string
  cr_Password :: string

record jwtClaims =
  cl_Email :: string
  cl_SessionVersion :: int
  cl_Issuer :: string
  cl_Subject :: string
  cl_IssuedAt :: time
  cl_ExpiresAt :: time

definition authCookie :: string where "authCookie = ''documind_token''"
definition minimumPassword :: nat where "minimumPassword = 8"
definition maximumPassword :: nat where "maximumPassword = 72"
definition maximumAuthBody :: nat where "maximumAuthBody = 8192"

text \<open>The result of decoding a body of which at most a number of bytes may be read.\<close>

datatype decoded = BodyTooLarge | Malformed | Decoded authCredentials

record ('ip, 'net, 'b) auth_lib =
  al_net :: "('ip, 'net) net_package"
  al_SignedString :: "string \<Rightarrow> jwtClaims \<Rightarrow> string option"
  al_ParseWithClaims :: "string \<Rightarrow> string \<Rightarrow> time \<Rightarrow> string \<Rightarrow> jwtClaims option"
  al_GenerateFromPassword :: "string \<Rightarrow> string \<Rightarrow> string option"
  al_CompareHashAndPassword :: "string \<Rightarrow> string \<Rightarrow> bool"
  al_Decode :: "nat \<Rightarrow> 'b \<Rightarrow> decoded"
  al_accepts :: "authUser \<Rightarrow> bool"

text \<open>What one call takes from its surroundings: the clock when each limit and the session are
  handled, the new identifier, the salt, whether the database answers, and the error of writing to
  the connection.\<close>

record call_inputs =
  ci_ip_time :: time
  ci_account_time :: time
  ci_time :: time
  ci_uuid :: string
  ci_salt :: string
  ci_up :: bool
  ci_write_error :: "string option"

record auth_state =
  as_users :: "authUser list"
  as_limiter :: authRateLimiter

section \<open>Credentials\<close>

definition normalizeEmail :: "string \<Rightarrow> string" where
  "normalizeEmail email = ToLower (TrimSpace email)"

definition validateCredentials :: "authCredentials \<Rightarrow> string option" where
  "validateCredentials credentials =
     (if \<not> Contains (cr_Email credentials) ''@'' then Some ''a valid email is required''
      else if rune_count (cr_Password credentials) < minimumPassword then Some ''password must be at least 8 characters''
      else if length (cr_Password credentials) > maximumPassword then Some ''password must be at most 72 bytes''
      else None)"

definition decodeCredentials :: "('ip, 'net, 'b) auth_lib \<Rightarrow> 'b request \<Rightarrow> decoded" where
  "decodeCredentials lib request = al_Decode lib maximumAuthBody (req_Body request)"

section \<open>Sessions\<close>

definition setCookie :: "'net jwtAuthenticator \<Rightarrow> string \<Rightarrow> int \<Rightarrow> response \<Rightarrow> response" where
  "setCookie a v maxAge w = w @ [Set_Cookie authCookie v (ja_secureCookie a) maxAge]"

definition session_claims :: "'net jwtAuthenticator \<Rightarrow> time \<Rightarrow> authUser \<Rightarrow> jwtClaims" where
  "session_claims a now user =
     \<lparr>cl_Email = u_Email user, cl_SessionVersion = u_SessionVersion user, cl_Issuer = ja_issuer a,
      cl_Subject = u_ID user, cl_IssuedAt = Truncate now time_Second,
      cl_ExpiresAt = Truncate (now + ja_ttl a) time_Second\<rparr>"

definition authenticate ::
    "('ip, 'net, 'b) auth_lib \<Rightarrow> 'net jwtAuthenticator \<Rightarrow> call_inputs \<Rightarrow> authUser \<Rightarrow> response \<Rightarrow> string option \<times> response" where
  "authenticate lib a inp user w =
     (case al_SignedString lib (ja_secret a) (session_claims a (ci_time inp) user) of
        None \<Rightarrow> JSON (ci_write_error inp) 500 [(''error'', ''could not create session'')] w
      | Some v \<Rightarrow>
          JSON (ci_write_error inp) 200 [(''subject'', u_ID user), (''email'', u_Email user)]
            (setCookie a v (go_div (ja_ttl a) time_Second) w))"

definition claimsFromRequest ::
    "('ip, 'net, 'b) auth_lib \<Rightarrow> 'net jwtAuthenticator \<Rightarrow> call_inputs \<Rightarrow> 'b request \<Rightarrow> authUser list \<Rightarrow> string + jwtClaims" where
  "claimsFromRequest lib a inp request users =
     (case req_Cookie request authCookie of
        None \<Rightarrow> Inl ''missing authentication cookie''
      | Some v \<Rightarrow>
          if v = [] then Inl ''missing authentication cookie''
          else case al_ParseWithClaims lib (ja_secret a) (ja_issuer a) (ci_time inp) v of
              None \<Rightarrow> Inl ''invalid authentication cookie''
            | Some claims \<Rightarrow>
                if cl_Subject claims = [] then Inl ''invalid authentication cookie''
                else if ja_database a
                then (case find (\<lambda>u. u_ID u = cl_Subject claims) users of
                        None \<Rightarrow> Inl ''revoked authentication cookie''
                      | Some user \<Rightarrow>
                          (if \<not> ci_up inp \<or> u_SessionVersion user \<noteq> cl_SessionVersion claims
                           then Inl ''revoked authentication cookie'' else Inr claims))
                else Inr claims)"

section \<open>The middleware\<close>

text \<open>\<open>next\<close> is the handler behind the middleware, which receives the principal.\<close>

definition middleware ::
    "('ip, 'net, 'b) auth_lib \<Rightarrow> 'net jwtAuthenticator \<Rightarrow> call_inputs \<Rightarrow> 'b request \<Rightarrow> authUser list \<Rightarrow>
     (string \<Rightarrow> response \<Rightarrow> 's \<Rightarrow> string option \<times> response \<times> 's) \<Rightarrow> response \<Rightarrow> 's \<Rightarrow> string option \<times> response \<times> 's" where
  "middleware lib a inp request users handler w s =
     (if ja_secret a = [] then handler ''local-dev'' w s
      else case requireHTTPSRequest (al_net lib) a (ci_write_error inp) request w of
          (Some e, w) \<Rightarrow> (Some e, w, s)
        | (None, w) \<Rightarrow>
            (case claimsFromRequest lib a inp request users of
               Inl _ \<Rightarrow>
                 (case JSON (ci_write_error inp) 401 [(''error'', ''authentication required'')] w of (e, w) \<Rightarrow> (e, w, s))
             | Inr claims \<Rightarrow> handler (cl_Subject claims) w s))"

section \<open>Handlers\<close>

definition quotaResponse :: "call_inputs \<Rightarrow> string \<Rightarrow> response \<Rightarrow> string option \<times> response" where
  "quotaResponse inp message w = JSON (ci_write_error inp) 429 [(''error'', message)] w"

text \<open>What a nil database does to a handler that uses it: the panic ends in an error of the handler.\<close>

definition nil_dereference :: string where "nil_dereference = ''nil pointer dereference''"

text \<open>INSERT of an account: both keys are unique.\<close>

definition create_user :: "('ip, 'net, 'b) auth_lib \<Rightarrow> bool \<Rightarrow> authUser \<Rightarrow> authUser list \<Rightarrow> authUser list option" where
  "create_user lib up user users =
     (if up \<and> al_accepts lib user \<and> u_ID user \<notin> set (map u_ID users) \<and> u_Email user \<notin> set (map u_Email users)
      then Some (users @ [user]) else None)"

definition register ::
    "('ip, 'net, 'b) auth_lib \<Rightarrow> 'net jwtAuthenticator \<Rightarrow> call_inputs \<Rightarrow> 'b request \<Rightarrow> auth_state \<Rightarrow> string option \<times> response \<times> auth_state" where
  "register lib a inp request s =
     (let reply = (\<lambda>code body w s. case JSON (ci_write_error inp) code body w of (e, w) \<Rightarrow> (e, w, s));
          quota = (\<lambda>message w s. case quotaResponse inp message w of (e, w) \<Rightarrow> (e, w, s))
      in case requireHTTPSRequest (al_net lib) a (ci_write_error inp) request [] of
          (Some e, w) \<Rightarrow> (Some e, w, s)
        | (None, w) \<Rightarrow>
            (case allow (ci_up inp) ''register-ip'' (clientIP (al_net lib) request (ja_trustedProxies a))
                    authRegisterIPLimit authRegisterWindow (ci_ip_time inp) (as_limiter s) of (granted, l) \<Rightarrow>
               let s = s\<lparr>as_limiter := l\<rparr>
               in if \<not> granted then quota ''too many registration attempts'' w s
                  else case decodeCredentials lib request of
                      BodyTooLarge \<Rightarrow> reply 413 [(''error'', ''request body too large'')] w s
                    | Malformed \<Rightarrow> reply 400 [(''error'', ''email and password are required'')] w s
                    | Decoded credentials \<Rightarrow>
                        (case validateCredentials credentials of
                           Some e \<Rightarrow> reply 400 [(''error'', e)] w s
                         | None \<Rightarrow>
                             (case allow (ci_up inp) ''register-account'' (normalizeEmail (cr_Email credentials))
                                     authRegisterAccountLimit authRegisterWindow (ci_account_time inp) (as_limiter s) of (granted, l) \<Rightarrow>
                                let s = s\<lparr>as_limiter := l\<rparr>
                                in if \<not> granted then quota ''too many registration attempts for this account'' w s
                                   else case al_GenerateFromPassword lib (cr_Password credentials) (ci_salt inp) of
                                       None \<Rightarrow> reply 500 [(''error'', ''could not create account'')] w s
                                     | Some hash \<Rightarrow>
                                         let user = \<lparr>u_ID = ci_uuid inp, u_Email = normalizeEmail (cr_Email credentials),
                                               u_PasswordHash = hash, u_SessionVersion = 0,
                                               u_CreatedAt = ci_time inp, u_UpdatedAt = ci_time inp\<rparr>
                                         in if \<not> ja_database a then (Some nil_dereference, w, s)
                                            else case create_user lib (ci_up inp) user (as_users s) of
                                                None \<Rightarrow> reply 409 [(''error'', ''account could not be created'')] w s
                                              | Some users \<Rightarrow>
                                                  (case authenticate lib a inp user w of (e, w) \<Rightarrow>
                                                     (e, w, s\<lparr>as_users := users\<rparr>))))))"

definition login ::
    "('ip, 'net, 'b) auth_lib \<Rightarrow> 'net jwtAuthenticator \<Rightarrow> call_inputs \<Rightarrow> 'b request \<Rightarrow> auth_state \<Rightarrow> string option \<times> response \<times> auth_state" where
  "login lib a inp request s =
     (let reply = (\<lambda>code body w s. case JSON (ci_write_error inp) code body w of (e, w) \<Rightarrow> (e, w, s));
          quota = (\<lambda>message w s. case quotaResponse inp message w of (e, w) \<Rightarrow> (e, w, s))
      in case requireHTTPSRequest (al_net lib) a (ci_write_error inp) request [] of
          (Some e, w) \<Rightarrow> (Some e, w, s)
        | (None, w) \<Rightarrow>
            (case allow (ci_up inp) ''login-ip'' (clientIP (al_net lib) request (ja_trustedProxies a))
                    authLoginIPLimit authLoginWindow (ci_ip_time inp) (as_limiter s) of (granted, l) \<Rightarrow>
               let s = s\<lparr>as_limiter := l\<rparr>
               in if \<not> granted then quota ''too many login attempts'' w s
                  else case decodeCredentials lib request of
                      BodyTooLarge \<Rightarrow> reply 413 [(''error'', ''request body too large'')] w s
                    | Malformed \<Rightarrow> reply 400 [(''error'', ''email and password are required'')] w s
                    | Decoded credentials \<Rightarrow>
                        (case validateCredentials credentials of
                           Some e \<Rightarrow> reply 400 [(''error'', e)] w s
                         | None \<Rightarrow>
                             (case allow (ci_up inp) ''login-account'' (normalizeEmail (cr_Email credentials))
                                     authLoginAccountLimit authLoginWindow (ci_account_time inp) (as_limiter s) of (granted, l) \<Rightarrow>
                                let s = s\<lparr>as_limiter := l\<rparr>
                                in if \<not> granted then quota ''too many login attempts for this account'' w s
                                   else if \<not> ja_database a then (Some nil_dereference, w, s)
                                   else case find (\<lambda>u. u_Email u = normalizeEmail (cr_Email credentials)) (as_users s) of
                                       None \<Rightarrow> reply 401 [(''error'', ''invalid email or password'')] w s
                                     | Some user \<Rightarrow>
                                         (if \<not> ci_up inp \<or> \<not> al_CompareHashAndPassword lib (u_PasswordHash user) (cr_Password credentials)
                                          then reply 401 [(''error'', ''invalid email or password'')] w s
                                          else (case authenticate lib a inp user w of (e, w) \<Rightarrow> (e, w, s)))))))"

definition currentSession ::
    "('ip, 'net, 'b) auth_lib \<Rightarrow> 'net jwtAuthenticator \<Rightarrow> call_inputs \<Rightarrow> 'b request \<Rightarrow> auth_state \<Rightarrow> string option \<times> response \<times> auth_state" where
  "currentSession lib a inp request s =
     (let reply = (\<lambda>code body w. case JSON (ci_write_error inp) code body w of (e, w) \<Rightarrow> (e, w, s))
      in if ja_secret a = [] then reply 401 [(''error'', ''not authenticated'')] []
         else case requireHTTPSRequest (al_net lib) a (ci_write_error inp) request [] of
             (Some e, w) \<Rightarrow> (Some e, w, s)
           | (None, w) \<Rightarrow>
               (case claimsFromRequest lib a inp request (as_users s) of
                  Inl _ \<Rightarrow> reply 401 [(''error'', ''not authenticated'')] w
                | Inr claims \<Rightarrow> reply 200 [(''subject'', cl_Subject claims), (''email'', cl_Email claims)] w))"

text \<open>UPDATE auth_users SET session_version = session_version + 1 WHERE id = ?, which fails when the
  column would leave its range.\<close>

definition bump_session :: "bool \<Rightarrow> string \<Rightarrow> authUser list \<Rightarrow> authUser list option" where
  "bump_session up i users =
     (if up \<and> list_all (\<lambda>u. u_ID u = i \<longrightarrow> is_int64 (u_SessionVersion u + 1)) users
      then Some (update_where (\<lambda>u. u_ID u = i) (\<lambda>u. u\<lparr>u_SessionVersion := u_SessionVersion u + 1\<rparr>) users)
      else None)"

definition logout ::
    "('ip, 'net, 'b) auth_lib \<Rightarrow> 'net jwtAuthenticator \<Rightarrow> call_inputs \<Rightarrow> 'b request \<Rightarrow> auth_state \<Rightarrow> string option \<times> response \<times> auth_state" where
  "logout lib a inp request s =
     (let finish = (\<lambda>w s. (ci_write_error inp, setCookie a [] (- 1) w @ [NoContent 204], s))
      in case (if ja_requireHTTPS a then requireHTTPSRequest (al_net lib) a (ci_write_error inp) request [] else (None, [])) of
          (Some e, w) \<Rightarrow> (Some e, w, s)
        | (None, w) \<Rightarrow>
            if ja_database a
            then (case claimsFromRequest lib a inp request (as_users s) of
                    Inl _ \<Rightarrow> finish w s
                  | Inr claims \<Rightarrow>
                      (case bump_session (ci_up inp) (cl_Subject claims) (as_users s) of
                         None \<Rightarrow>
                           (case JSON (ci_write_error inp) 500 [(''error'', ''could not revoke session'')] w of (e, w) \<Rightarrow> (e, w, s))
                       | Some users \<Rightarrow> finish w (s\<lparr>as_users := users\<rparr>)))
            else finish w s)"

end
