(* ===== verification/Session_Machine.thy ===== *)
theory Session_Machine
  imports Sessions
begin

text \<open>
  Sessions over time: runs of the account handlers of \<open>Sessions\<close> in any order, what they do to the
  accounts table, and how long the token a handler hands out is accepted.
\<close>

section \<open>Runs\<close>

datatype auth_call = Register | Login | CurrentSession | Logout

type_synonym 'b auth_event = "auth_call \<times> call_inputs \<times> 'b request"

fun auth_exec :: "('ip, 'net, 'b) auth_lib \<Rightarrow> 'net jwtAuthenticator \<Rightarrow> 'b auth_event \<Rightarrow> auth_state \<Rightarrow> string option \<times> response \<times> auth_state" where
  "auth_exec lib a (Register, inp, request) s = register lib a inp request s"
| "auth_exec lib a (Login, inp, request) s = login lib a inp request s"
| "auth_exec lib a (CurrentSession, inp, request) s = currentSession lib a inp request s"
| "auth_exec lib a (Logout, inp, request) s = logout lib a inp request s"

fun auth_run :: "('ip, 'net, 'b) auth_lib \<Rightarrow> 'net jwtAuthenticator \<Rightarrow> 'b auth_event list \<Rightarrow> auth_state \<Rightarrow> auth_state" where
  "auth_run lib a [] s = s"
| "auth_run lib a (e # es) s = (case auth_exec lib a e s of (_, _, s') \<Rightarrow> auth_run lib a es s')"

text \<open>The session token that reaches the client: a cookie that is set before the status is sent.\<close>

fun handed :: "response \<Rightarrow> string option" where
  "handed (Set_Cookie n v sec age # w) = (if v = [] then handed w else Some v)"
| "handed _ = None"

text \<open>A logout that took effect for the account \<open>i\<close>.\<close>

definition ends_sessions :: "('ip, 'net, 'b) auth_lib \<Rightarrow> 'net jwtAuthenticator \<Rightarrow> string \<Rightarrow> 'b auth_event \<Rightarrow> auth_state \<Rightarrow> bool" where
  "ends_sessions lib a i e s =
     (case e of (call, inp, request) \<Rightarrow>
        call = Logout \<and> NoContent 204 \<in> set (fst (snd (logout lib a inp request s))) \<and>
        (case claimsFromRequest lib a inp request (as_users s) of Inl _ \<Rightarrow> False | Inr claims \<Rightarrow> cl_Subject claims = i))"

fun logouts :: "('ip, 'net, 'b) auth_lib \<Rightarrow> 'net jwtAuthenticator \<Rightarrow> string \<Rightarrow> 'b auth_event list \<Rightarrow> auth_state \<Rightarrow> nat" where
  "logouts lib a i [] s = 0"
| "logouts lib a i (e # es) s =
     (if ends_sessions lib a i e s then 1 else 0) +
     (case auth_exec lib a e s of (_, _, s') \<Rightarrow> logouts lib a i es s')"

definition users_ok :: "authUser list \<Rightarrow> bool" where
  "users_ok users \<longleftrightarrow> distinct (map u_ID users) \<and> distinct (map u_Email users) \<and> [] \<notin> set (map u_ID users)"

text \<open>New identifiers are not empty (\<^verbatim>\<open>uuid.NewString\<close>).\<close>

definition event_ok :: "'b auth_event \<Rightarrow> bool" where
  "event_ok e \<longleftrightarrow> ci_uuid (fst (snd e)) \<noteq> []"

section \<open>What the handlers do\<close>

lemma create_user_Some:
  "create_user lib up user users = Some users' \<longleftrightarrow>
     up \<and> al_accepts lib user \<and> u_ID user \<notin> set (map u_ID users) \<and> u_Email user \<notin> set (map u_Email users) \<and>
     users' = users @ [user]"
  by (auto simp: create_user_def)

lemma requireHTTPS_result:
  "requireHTTPSRequest net a err request w = (None, w) \<or>
   requireHTTPSRequest net a err request w = (err, w @ [Body 400 [(''error'', ''HTTPS is required'')]])"
  by (simp add: requireHTTPSRequest_def JSON_def Let_def)

lemma handed_append_Body [simp]: "handed (w @ [Body c b]) = handed w"
  by (induction w rule: handed.induct) auto

lemma handed_simps [simp]:
  "handed (Body c b # w) = None" "handed (NoContent c # w) = None"
  by simp_all

text \<open>The account a registration creates.\<close>

definition new_user :: "call_inputs \<Rightarrow> authCredentials \<Rightarrow> string \<Rightarrow> authUser" where
  "new_user inp credentials hash =
     \<lparr>u_ID = ci_uuid inp, u_Email = normalizeEmail (cr_Email credentials), u_PasswordHash = hash,
      u_SessionVersion = 0, u_CreatedAt = ci_time inp, u_UpdatedAt = ci_time inp\<rparr>"

lemma register_cases:
  assumes "register lib a inp request s = (err, w, s')"
  obtains (refused) "as_users s' = as_users s" "handed w = None"
  | (created) credentials hash w0 where "decodeCredentials lib request = Decoded credentials"
    "validateCredentials credentials = None"
    "al_GenerateFromPassword lib (cr_Password credentials) (ci_salt inp) = Some hash"
    "create_user lib (ci_up inp) (new_user inp credentials hash) (as_users s) = Some (as_users s')"
    "authenticate lib a inp (new_user inp credentials hash) w0 = (err, w)" "w0 = [] \<or> (\<exists>b. w0 = [Body 400 b])"
    "ja_database a"
proof -
  obtain err0 w0 where h: "requireHTTPSRequest (al_net lib) a (ci_write_error inp) request [] = (err0, w0)" by force
  have w0: "handed w0 = None" "w0 = [] \<or> (\<exists>b. w0 = [Body 400 b])"
    using h by (auto simp: requireHTTPSRequest_def JSON_def Let_def split: if_splits)
  show thesis
    using assms h w0 refused created
    by (auto simp: register_def JSON_def quotaResponse_def Let_def new_user_def
        split: option.splits prod.splits decoded.splits if_splits)
qed

lemma login_cases:
  assumes "login lib a inp request s = (err, w, s')"
  obtains (refused) "as_users s' = as_users s" "handed w = None"
  | (admitted) credentials user w0 where "as_users s' = as_users s"
    "decodeCredentials lib request = Decoded credentials" "validateCredentials credentials = None"
    "find (\<lambda>u. u_Email u = normalizeEmail (cr_Email credentials)) (as_users s) = Some user"
    "al_CompareHashAndPassword lib (u_PasswordHash user) (cr_Password credentials)"
    "authenticate lib a inp user w0 = (err, w)" "w0 = [] \<or> (\<exists>b. w0 = [Body 400 b])" "ja_database a" "ci_up inp"
proof -
  obtain err0 w0 where h: "requireHTTPSRequest (al_net lib) a (ci_write_error inp) request [] = (err0, w0)" by force
  have w0: "handed w0 = None" "w0 = [] \<or> (\<exists>b. w0 = [Body 400 b])"
    using h by (auto simp: requireHTTPSRequest_def JSON_def Let_def split: if_splits)
  show thesis
    using assms h w0 refused admitted
    by (auto simp: login_def JSON_def quotaResponse_def Let_def
        split: option.splits prod.splits decoded.splits if_splits)
qed

lemma logout_cases:
  assumes "logout lib a inp request s = (err, w, s')"
  obtains (unchanged) "s' = s" "handed w = None"
    "\<And>i. ends_sessions lib a i (Logout, inp, request) s \<Longrightarrow> \<not> ja_database a"
  | (revoked) claims where "claimsFromRequest lib a inp request (as_users s) = Inr claims"
    "bump_session (ci_up inp) (cl_Subject claims) (as_users s) = Some (as_users s')" "handed w = None"
    "\<And>i. ends_sessions lib a i (Logout, inp, request) s \<longleftrightarrow> cl_Subject claims = i" "ja_database a"
proof -
  from requireHTTPS_result [of "al_net lib" a "ci_write_error inp" request "[]"] show thesis
    using assms unchanged revoked
    by (elim disjE) (auto simp: logout_def JSON_def Let_def ends_sessions_def setCookie_def
        split: option.splits prod.splits sum.splits if_splits)
qed

section \<open>Session versions\<close>

definition version_of :: "string \<Rightarrow> authUser list \<Rightarrow> int option" where
  "version_of i users = map_option u_SessionVersion (find (\<lambda>u. u_ID u = i) users)"

lemma version_of_append [simp]:
  "version_of i (users @ [u]) =
     (case version_of i users of None \<Rightarrow> (if u_ID u = i then Some (u_SessionVersion u) else None) | Some v \<Rightarrow> Some v)"
  by (auto simp: version_of_def find_append split: option.splits)

lemma version_of_bump:
  assumes "bump_session up j users = Some users'"
  shows "version_of i users' = (if i = j then map_option (\<lambda>v. v + 1) (version_of i users) else version_of i users)"
proof -
  have "version_of i (update_where (\<lambda>u. u_ID u = j) (\<lambda>u. u\<lparr>u_SessionVersion := u_SessionVersion u + 1\<rparr>) us) =
      (if i = j then map_option (\<lambda>v. v + 1) (version_of i us) else version_of i us)" for us
    by (induction us) (auto simp: version_of_def)
  with assms show ?thesis by (auto simp: bump_session_def split: if_splits)
qed

lemma bump_keeps_keys:
  assumes "bump_session up j users = Some users'"
  shows "map u_ID users' = map u_ID users \<and> map u_Email users' = map u_Email users"
  using assms by (auto simp: bump_session_def map_update_where_key split: if_splits)

lemma auth_exec_version:
  assumes "auth_exec lib a e s = (err, w, s')" "version_of i (as_users s) = Some v" "ja_database a"
  shows "version_of i (as_users s') = Some (if ends_sessions lib a i e s then v + 1 else v)"
proof -
  obtain call inp request where e: "e = (call, inp, request)" by (cases e)
  have no: "\<not> ends_sessions lib a i e s" if "call \<noteq> Logout" using that by (simp add: e ends_sessions_def)
  show ?thesis
  proof (cases call)
    case Register
    with assms(1) e have "register lib a inp request s = (err, w, s')" by simp
    then show ?thesis
      by (cases rule: register_cases) (use assms(2) no Register in \<open>auto simp: create_user_Some\<close>)
  next
    case Login
    with assms(1) e have "login lib a inp request s = (err, w, s')" by simp
    then show ?thesis by (cases rule: login_cases) (use assms(2) no Login in auto)
  next
    case CurrentSession
    with assms(1) e have "s' = s"
      by (auto simp: currentSession_def JSON_def Let_def split: if_splits prod.splits option.splits sum.splits)
    with assms(2) no CurrentSession show ?thesis by simp
  next
    case Logout
    with assms(1) e have "logout lib a inp request s = (err, w, s')" by simp
    then show ?thesis
      by (cases rule: logout_cases) (use assms(2,3) Logout e in \<open>auto simp: version_of_bump\<close>)
  qed
qed

lemma auth_exec_users_ok:
  assumes "auth_exec lib a e s = (err, w, s')" "users_ok (as_users s)" "event_ok e"
  shows "users_ok (as_users s')"
proof -
  obtain call inp request where e: "e = (call, inp, request)" by (cases e)
  show ?thesis
  proof (cases call)
    case Register
    with assms(1) e have "register lib a inp request s = (err, w, s')" by simp
    then show ?thesis
      by (cases rule: register_cases)
        (use assms(2,3) e in \<open>auto simp: create_user_Some users_ok_def event_ok_def new_user_def\<close>)
  next
    case Login
    with assms(1) e have "login lib a inp request s = (err, w, s')" by simp
    then show ?thesis by (cases rule: login_cases) (use assms(2) in auto)
  next
    case CurrentSession
    with assms(1) e have "s' = s"
      by (auto simp: currentSession_def JSON_def Let_def split: if_splits prod.splits option.splits sum.splits)
    with assms(2) show ?thesis by simp
  next
    case Logout
    with assms(1) e have "logout lib a inp request s = (err, w, s')" by simp
    then show ?thesis
    proof (cases rule: logout_cases)
      case (revoked claims)
      from bump_keeps_keys [OF revoked(2)] assms(2) show ?thesis unfolding users_ok_def by argo
    qed (use assms(2) in simp)
  qed
qed

lemma auth_run_version:
  "version_of i (as_users s) = Some v \<Longrightarrow> ja_database a \<Longrightarrow>
     version_of i (as_users (auth_run lib a es s)) = Some (v + int (logouts lib a i es s))"
proof (induction lib a i es s arbitrary: v rule: logouts.induct)
  case (2 lib a i e es s)
  obtain err w s' where st: "auth_exec lib a e s = (err, w, s')" using prod_cases3 by blast
  from "2.IH" [OF st [symmetric] refl auth_exec_version [OF st "2.prems"] "2.prems"(2)] st show ?case by simp
qed simp

lemma version_of_member: "version_of i users = Some v \<Longrightarrow> find (\<lambda>u. u_ID u = i) users = Some u \<Longrightarrow> u_SessionVersion u = v"
  by (simp add: version_of_def)

section \<open>How long a session is accepted\<close>

text \<open>What the token library documents: a token that was signed with a key is read back with this key
  and the right issuer until it expires, and only then; and what it reads was signed with the key.\<close>

definition jwt_documented :: "('ip, 'net, 'b) auth_lib \<Rightarrow> bool" where
  "jwt_documented lib \<longleftrightarrow>
     (\<forall>key c tok. al_SignedString lib key c = Some tok \<longrightarrow> tok \<noteq> [] \<and>
        (\<forall>iss now. iss \<noteq> [] \<longrightarrow> al_ParseWithClaims lib key iss now tok =
           (if cl_Issuer c = iss \<and> now < cl_ExpiresAt c then Some c else None)))"

lemma handed_authenticate:
  assumes "authenticate lib a inp user w0 = (err, w)" "w0 = [] \<or> (\<exists>b. w0 = [Body 400 b])" "handed w = Some tok"
  shows "al_SignedString lib (ja_secret a) (session_claims a (ci_time inp) user) = Some tok \<and>
    Body 200 [(''subject'', u_ID user), (''email'', u_Email user)] \<in> set w"
  using assms by (auto simp: authenticate_def JSON_def setCookie_def split: option.splits if_splits)

text \<open>A handler that hands out a token has signed it for an account that is in the table afterwards.\<close>

lemma handed_session:
  assumes "auth_exec lib a (call, inp, request) s = (err, w, s')" "handed w = Some tok"
    "users_ok (as_users s)" "ci_uuid inp \<noteq> []"
  obtains user where "find (\<lambda>u. u_ID u = u_ID user) (as_users s') = Some user" "u_ID user \<noteq> []"
    "al_SignedString lib (ja_secret a) (session_claims a (ci_time inp) user) = Some tok"
    "Body 200 [(''subject'', u_ID user), (''email'', u_Email user)] \<in> set w" "ja_database a"
proof (cases call)
  case Register
  with assms(1) have "register lib a inp request s = (err, w, s')" by simp
  then show thesis
  proof (cases rule: register_cases)
    case (created credentials hash w0)
    let ?u = "new_user inp credentials hash"
    have "as_users s' = as_users s @ [?u]" "u_ID ?u \<notin> set (map u_ID (as_users s))" "u_ID ?u = ci_uuid inp"
      using created(4) by (auto simp: create_user_Some new_user_def)
    moreover from this have "find (\<lambda>u. u_ID u = u_ID ?u) (as_users s') = Some ?u"
      by (force simp: find_append find_None_iff split: option.splits dest!: find_SomeD)
    ultimately show thesis
      using that [of ?u] handed_authenticate [OF created(5,6) assms(2)] created(7) assms(4) by simp
  qed (use assms(2) in simp)
next
  case Login
  with assms(1) have "login lib a inp request s = (err, w, s')" by simp
  then show thesis
  proof (cases rule: login_cases)
    case (admitted credentials user w0)
    have u: "user \<in> set (as_users s)" using find_SomeD [OF admitted(4)] by simp
    moreover have "distinct (map u_ID (as_users s))" using assms(3) by (simp add: users_ok_def)
    ultimately have "find (\<lambda>u. u_ID u = u_ID user) (as_users s') = Some user"
      using admitted(1) find_unique_key by (metis (mono_tags))
    moreover have "u_ID user \<noteq> []" using u assms(3) by (force simp: users_ok_def)
    ultimately show thesis
      using that [of user] handed_authenticate [OF admitted(6,7) assms(2)] admitted(8) by simp
  qed (use assms(2) in simp)
next
  case CurrentSession
  with assms(1) have "currentSession lib a inp request s = (err, w, s')" by simp
  then have "handed w = None"
    using requireHTTPS_result [of "al_net lib" a "ci_write_error inp" request "[]"]
    by (auto simp: currentSession_def JSON_def Let_def split: if_splits prod.splits option.splits sum.splits)
  with assms(2) show thesis by simp
next
  case Logout
  with assms(1) have "logout lib a inp request s = (err, w, s')" by simp
  then show thesis by (cases rule: logout_cases) (use assms(2) in auto)
qed

lemma session_accepted:
  assumes "newAuthenticator ParseCIDR ParseDuration env True = Inr a" and "jwt_documented lib"
    and "users_ok (as_users s)" and "ci_uuid inp \<noteq> []"
    and "auth_exec lib a (call, inp, request) s = (err, w, s1)" and "handed w = Some tok"
    and "req_Cookie request' authCookie = Some tok" and "ci_up inp'"
  shows "\<exists>claims. Body 200 [(''subject'', cl_Subject claims), (''email'', cl_Email claims)] \<in> set w \<and>
    claimsFromRequest lib a inp' request' (as_users (auth_run lib a es s1)) =
      (if ci_time inp' \<ge> Truncate (ci_time inp + ja_ttl a) time_Second then Inl ''invalid authentication cookie''
       else if logouts lib a (cl_Subject claims) es s1 > 0 then Inl ''revoked authentication cookie''
       else Inr claims)"
proof -
  from handed_session [OF assms(5,6,3,4)] obtain user where
    user: "find (\<lambda>u. u_ID u = u_ID user) (as_users s1) = Some user" "u_ID user \<noteq> []"
      "al_SignedString lib (ja_secret a) (session_claims a (ci_time inp) user) = Some tok"
      "Body 200 [(''subject'', u_ID user), (''email'', u_Email user)] \<in> set w" "ja_database a" .
  let ?c = "session_claims a (ci_time inp) user" and ?s = "auth_run lib a es s1"
  have c: "cl_Subject ?c = u_ID user" "cl_Email ?c = u_Email user" "cl_SessionVersion ?c = u_SessionVersion user"
    "cl_Issuer ?c = ja_issuer a" "cl_ExpiresAt ?c = Truncate (ci_time inp + ja_ttl a) time_Second"
    by (simp_all add: session_claims_def)
  have tok: "tok \<noteq> []" "al_ParseWithClaims lib (ja_secret a) (ja_issuer a) (ci_time inp') tok =
      (if ci_time inp' < cl_ExpiresAt ?c then Some ?c else None)"
    using assms(2) user(3) newAuthenticator_with_database(5) [OF assms(1)] c(4) by (auto simp: jwt_documented_def)
  have "version_of (u_ID user) (as_users s1) = Some (u_SessionVersion user)" using user(1) by (simp add: version_of_def)
  from auth_run_version [OF this user(5), of lib es] obtain v where
    v: "find (\<lambda>u. u_ID u = u_ID user) (as_users ?s) = Some v"
      "u_SessionVersion v = u_SessionVersion user + int (logouts lib a (u_ID user) es s1)"
    by (auto simp: version_of_def)
  have "claimsFromRequest lib a inp' request' (as_users ?s) =
      (if ci_time inp' \<ge> cl_ExpiresAt ?c then Inl ''invalid authentication cookie''
       else if logouts lib a (u_ID user) es s1 > 0 then Inl ''revoked authentication cookie'' else Inr ?c)"
    using assms(7,8) tok user(2,5) v c(1,3) by (simp add: claimsFromRequest_def)
  with user(4) c(1,2,5) show ?thesis by (intro exI [of _ ?c]) simp
qed

text \<open>C10: a session lasts exactly until it expires or its owner logs out. A token handed out by a
  registration or a login names the account in its reply. Whatever account traffic follows, a
  request that presents the token is accepted, as that account, as long as the session lifetime is
  not over and no logout of the account took effect; the first such logout ends all sessions of the
  account for good.\<close>

theorem session_accepted_until_logout:
  assumes "newAuthenticator ParseCIDR ParseDuration env True = Inr a" and "jwt_documented lib"
    and "users_ok (as_users s)" and "ci_uuid inp \<noteq> []"
    and "auth_exec lib a (call, inp, request) s = (err, w, s1)" and "handed w = Some tok"
    and "req_Cookie request' authCookie = Some tok" and "ci_up inp'"
  shows "\<exists>claims. Body 200 [(''subject'', cl_Subject claims), (''email'', cl_Email claims)] \<in> set w \<and>
    claimsFromRequest lib a inp' request' (as_users (auth_run lib a es s1)) =
      (if ci_time inp' \<ge> Truncate (ci_time inp + ja_ttl a) time_Second then Inl ''invalid authentication cookie''
       else if logouts lib a (cl_Subject claims) es s1 > 0 then Inl ''revoked authentication cookie''
       else Inr claims)"
  by (rule session_accepted [OF assms])

text \<open>An example: tokens that encode the key and the claims by a number, and no other accounts.\<close>

definition sample_auth_lib ::
    "(string \<Rightarrow> jwtClaims \<Rightarrow> string) \<Rightarrow> (string \<Rightarrow> string \<Rightarrow> time \<Rightarrow> string \<Rightarrow> jwtClaims option) \<Rightarrow>
     (string, string, authCredentials) auth_lib" where
  "sample_auth_lib sign parse = \<lparr>al_net = sample_net, al_SignedString = (\<lambda>k c. Some (sign k c)),
     al_ParseWithClaims = parse, al_GenerateFromPassword = (\<lambda>p salt. if length p \<le> 72 then Some p else None),
     al_CompareHashAndPassword = (\<lambda>h p. h = p), al_Decode = (\<lambda>n b. Decoded b), al_accepts = (\<lambda>u. True)\<rparr>"

definition claims_tuple :: "jwtClaims \<Rightarrow> string \<times> int \<times> string \<times> string \<times> int \<times> int" where
  "claims_tuple c = (cl_Email c, cl_SessionVersion c, cl_Issuer c, cl_Subject c, cl_IssuedAt c, cl_ExpiresAt c)"

fun tuple_claims :: "string \<times> int \<times> string \<times> string \<times> int \<times> int \<Rightarrow> jwtClaims" where
  "tuple_claims (e, v, i, sub, t, x) = \<lparr>cl_Email = e, cl_SessionVersion = v, cl_Issuer = i, cl_Subject = sub,
     cl_IssuedAt = t, cl_ExpiresAt = x\<rparr>"

lemma tuple_claims_inverse [simp]: "tuple_claims (claims_tuple c) = c"
  by (simp add: claims_tuple_def)

definition sample_sign :: "string \<Rightarrow> jwtClaims \<Rightarrow> string" where
  "sample_sign k c = CHR ''t'' # replicate (to_nat (k, claims_tuple c)) CHR ''x''"

definition sample_parse :: "string \<Rightarrow> string \<Rightarrow> time \<Rightarrow> string \<Rightarrow> jwtClaims option" where
  "sample_parse k iss now tok =
     (case (from_nat (length tok - 1) :: string \<times> string \<times> int \<times> string \<times> string \<times> int \<times> int) of (k', t) \<Rightarrow>
        let c = tuple_claims t
        in if k' = k \<and> cl_Issuer c = iss \<and> now < cl_ExpiresAt c then Some c else None)"

abbreviation "sample_jwt \<equiv> sample_auth_lib sample_sign sample_parse"

lemma sample_jwt_documented: "jwt_documented sample_jwt"
  by (simp add: jwt_documented_def sample_auth_lib_def sample_sign_def sample_parse_def Let_def)

definition sample_auth_env :: environment where
  "sample_auth_env n = (if n = ''AUTH_JWT_SECRET'' then replicate 32 CHR ''s''
     else if n = ''AUTH_MODE'' then ''development'' else [])"

definition sample_authenticator :: "string jwtAuthenticator" where
  "sample_authenticator = \<lparr>ja_secret = replicate 32 CHR ''s'', ja_issuer = defaultJWTIssuer, ja_ttl = defaultJWTTTL,
     ja_secureCookie = False, ja_requireHTTPS = False, ja_database = True, ja_trustedProxies = []\<rparr>"

lemma sample_authenticator_new: "newAuthenticator (\<lambda>_. None) (\<lambda>_. None) sample_auth_env True = Inr sample_authenticator"
  by code_simp

definition call_at :: "time \<Rightarrow> string \<Rightarrow> call_inputs" where
  "call_at t i = \<lparr>ci_ip_time = t, ci_account_time = t, ci_time = t, ci_uuid = i, ci_salt = [], ci_up = True,
     ci_write_error = None\<rparr>"

definition sample_credentials :: authCredentials where
  "sample_credentials = \<lparr>cr_Email = '' Ann@x.org'', cr_Password = ''correct horse''\<rparr>"

definition no_accounts :: auth_state where
  "no_accounts = \<lparr>as_users = [], as_limiter = WithDatabase []\<rparr>"

definition sample_account :: authUser where
  "sample_account = \<lparr>u_ID = ''u1'', u_Email = ''ann@x.org'', u_PasswordHash = ''correct horse'', u_SessionVersion = 0,
     u_CreatedAt = 0, u_UpdatedAt = 0\<rparr>"

definition with_cookie :: "string \<Rightarrow> authCredentials request" where
  "with_cookie tok = (sample_request ''1.2.3.4:5'' [] sample_credentials)\<lparr>req_Cookie := (\<lambda>n. Some tok)\<rparr>"

lemma sample_registration:
  "case auth_exec (sample_auth_lib sign parse) sample_authenticator
        (Register, call_at 0 ''u1'', sample_request ''1.2.3.4:5'' [] sample_credentials) no_accounts of
     (err, w, s) \<Rightarrow>
       w = [Set_Cookie ''documind_token'' (sign (replicate 32 CHR ''s'') (session_claims sample_authenticator 0 sample_account)) False 28800,
            Body 200 [(''subject'', ''u1''), (''email'', ''ann@x.org'')]] \<and>
       as_users s = [sample_account]"
  by code_simp

lemma session_accepted_until_logout_witness:
  "\<exists>tok c. handed (fst (snd (auth_exec sample_jwt sample_authenticator
       (Register, call_at 0 ''u1'', sample_request ''1.2.3.4:5'' [] sample_credentials) no_accounts))) = Some tok \<and>
     claimsFromRequest sample_jwt sample_authenticator (call_at time_Hour ''x'') (with_cookie tok)
       (as_users (auth_run sample_jwt sample_authenticator []
         (snd (snd (auth_exec sample_jwt sample_authenticator
           (Register, call_at 0 ''u1'', sample_request ''1.2.3.4:5'' [] sample_credentials) no_accounts))))) = Inr c \<and>
     cl_Subject c = ''u1''"
proof -
  let ?r = "sample_request ''1.2.3.4:5'' [] sample_credentials"
  let ?tok = "sample_sign (replicate 32 CHR ''s'') (session_claims sample_authenticator 0 sample_account)"
  obtain err w s1 where ex: "auth_exec sample_jwt sample_authenticator (Register, call_at 0 ''u1'', ?r) no_accounts = (err, w, s1)"
    using prod_cases3 by blast
  from sample_registration [of sample_sign sample_parse] ex have w:
    "w = [Set_Cookie ''documind_token'' ?tok False 28800, Body 200 [(''subject'', ''u1''), (''email'', ''ann@x.org'')]]"
    by (simp only: prod.case)
  have h: "handed w = Some ?tok" by (simp add: w sample_sign_def)
  have ok: "users_ok (as_users no_accounts)" "ci_uuid (call_at 0 ''u1'') \<noteq> []"
      "req_Cookie (with_cookie ?tok) authCookie = Some ?tok" "ci_up (call_at time_Hour ''x'')"
    by (simp_all add: users_ok_def no_accounts_def call_at_def with_cookie_def)
  from session_accepted_until_logout [OF sample_authenticator_new sample_jwt_documented ok(1,2) ex h ok(3,4), of "[]"]
  obtain c where "cl_Subject c = ''u1''"
    "claimsFromRequest sample_jwt sample_authenticator (call_at time_Hour ''x'') (with_cookie ?tok) (as_users s1) = Inr c"
    by (auto simp: w call_at_def sample_authenticator_def defaultJWTTTL_def Truncate_def)
  with ex h show ?thesis by auto
qed

end
