(* ===== verification/Session_Security.thy ===== *)
theory Session_Security
  imports Session_Machine
begin

text \<open>
  What the accounts of \<open>Sessions\<close> protect: a session goes back to somebody who knew the password, a
  registered account can be logged in to with its password and no other, and what the middleware
  lets through. The last section is about the HTTPS requirement.
\<close>

section \<open>Sessions and passwords\<close>

text \<open>What \<^verbatim>\<open>bcrypt\<close> documents, for the passwords of at most 72 bytes it hashes.\<close>

definition bcrypt_documented :: "('ip, 'net, 'b) auth_lib \<Rightarrow> bool" where
  "bcrypt_documented lib \<longleftrightarrow>
     (\<forall>p salt hash. al_GenerateFromPassword lib p salt = Some hash \<longrightarrow>
        (\<forall>p'. length p' \<le> 72 \<longrightarrow> al_CompareHashAndPassword lib hash p' = (p' = p)))"

fun handed_tokens :: "('ip, 'net, 'b) auth_lib \<Rightarrow> 'net jwtAuthenticator \<Rightarrow> 'b auth_event list \<Rightarrow> auth_state \<Rightarrow> string list" where
  "handed_tokens lib a [] s = []"
| "handed_tokens lib a (e # es) s =
     (case auth_exec lib a e s of (_, w, s') \<Rightarrow>
        (case handed w of None \<Rightarrow> [] | Some tok \<Rightarrow> [tok]) @ handed_tokens lib a es s')"

lemma auth_run_append: "auth_run lib a (es @ es') s = auth_run lib a es' (auth_run lib a es s)"
  by (induction lib a es s rule: auth_run.induct) (auto split: prod.splits)

lemma auth_run_users_ok:
  "users_ok (as_users s) \<Longrightarrow> list_all event_ok es \<Longrightarrow> users_ok (as_users (auth_run lib a es s))"
proof (induction lib a es s rule: auth_run.induct)
  case (2 lib a e es s)
  obtain err w s' where st: "auth_exec lib a e s = (err, w, s')" using prod_cases3 by blast
  with "2.IH" [OF st [symmetric] refl] auth_exec_users_ok [OF st "2.prems"(1)] "2.prems"(2) show ?case by simp
qed simp

lemma handed_tokens_split:
  "tok \<in> set (handed_tokens lib a es s) \<Longrightarrow>
     \<exists>es1 e es2 err w s'. es = es1 @ e # es2 \<and> auth_exec lib a e (auth_run lib a es1 s) = (err, w, s') \<and> handed w = Some tok"
proof (induction lib a es s rule: handed_tokens.induct)
  case (2 lib a e es s)
  obtain err w s' where st: "auth_exec lib a e s = (err, w, s')" using prod_cases3 by blast
  from "2.prems" st consider "handed w = Some tok" | "tok \<in> set (handed_tokens lib a es s')"
    by (auto split: option.splits)
  then show ?case
  proof cases
    case 1
    with st show ?thesis by (intro exI [of _ "[]"]) auto
  next
    case 2
    from "2.IH" [OF st [symmetric] refl this] obtain es1 e' es2 err' w' s'' where
      "es = es1 @ e' # es2" "auth_exec lib a e' (auth_run lib a es1 s') = (err', w', s'')" "handed w' = Some tok"
      by blast
    with st show ?thesis by (intro exI [of _ "e # es1"]) auto
  qed
qed simp

lemma handed_reply:
  assumes "authenticate lib a inp user w0 = (err, w)" "w0 = [] \<or> (\<exists>b. w0 = [Body 400 b])" "handed w = Some tok"
  shows "Body 200 b \<in> set w \<longleftrightarrow> b = [(''subject'', u_ID user), (''email'', u_Email user)]"
  using assms by (auto simp: authenticate_def JSON_def setCookie_def split: option.splits if_splits)

text \<open>Who is handed a token has presented the password of the account.\<close>

lemma handed_credentials:
  assumes "auth_exec lib a (call, inp, request) s = (err, w, s')" "handed w = Some tok" "bcrypt_documented lib"
  obtains credentials user where "call \<in> {Register, Login}" "decodeCredentials lib request = Decoded credentials"
    "validateCredentials credentials = None" "user \<in> set (as_users s')"
    "u_Email user = normalizeEmail (cr_Email credentials)"
    "al_CompareHashAndPassword lib (u_PasswordHash user) (cr_Password credentials)"
    "\<And>b. Body 200 b \<in> set w \<longleftrightarrow> b = [(''subject'', u_ID user), (''email'', u_Email user)]"
proof (cases call)
  case Register
  with assms(1) have "register lib a inp request s = (err, w, s')" by simp
  then show thesis
  proof (cases rule: register_cases)
    case (created credentials hash w0)
    have "length (cr_Password credentials) \<le> 72"
      using created(2) by (auto simp: validateCredentials_def maximumPassword_def split: if_splits)
    with created(3) assms(3) have "al_CompareHashAndPassword lib hash (cr_Password credentials)"
      by (auto simp: bcrypt_documented_def)
    moreover have "as_users s' = as_users s @ [new_user inp credentials hash]"
      using created(4) by (simp add: create_user_Some)
    ultimately show thesis
      using that [of credentials "new_user inp credentials hash"] Register created(1,2)
        handed_reply [OF created(5,6) assms(2)] by (simp add: new_user_def)
  qed (use assms(2) in simp)
next
  case Login
  with assms(1) have "login lib a inp request s = (err, w, s')" by simp
  then show thesis
  proof (cases rule: login_cases)
    case (admitted credentials user w0)
    with that [of credentials user] Login find_SomeD [OF admitted(4)]
      handed_reply [OF admitted(6,7) assms(2)] show thesis by simp
  qed (use assms(2) in simp)
next
  case CurrentSession
  with assms(1) have "currentSession lib a inp request s = (err, w, s')" by simp
  then have "handed w = None"
    using requireHTTPS_result [of "al_net lib" a "ci_write_error inp" request "[]"]
    by (auto simp: currentSession_def JSON_def Let_def split: if_splits prod.splits option.splits sum.splits)
  with assms(2) show thesis by simp
next
  case Logout
  with assms(1) have "logout lib a inp request s = (err, w, s')" by simp
  then show thesis by (cases rule: logout_cases) (use assms(2) in auto)
qed



section \<open>Registering and logging in\<close>

text \<open>An account keeps its identifier and its password hash whatever the handlers do.\<close>

lemma find_map_key: "map f xs = map f ys \<Longrightarrow> map g xs = map g ys \<Longrightarrow> map h xs = map h ys \<Longrightarrow>
    find (\<lambda>x. f x = k) xs = Some x \<Longrightarrow> \<exists>y. find (\<lambda>y. f y = k) ys = Some y \<and> g y = g x \<and> h y = h x"
  by (induction xs ys rule: list_induct2') (auto split: if_splits)

lemma auth_exec_account:
  assumes "auth_exec lib a e s = (err, w, s')" "find (\<lambda>u. u_Email u = m) (as_users s) = Some user"
  shows "\<exists>user'. find (\<lambda>u. u_Email u = m) (as_users s') = Some user' \<and>
    u_ID user' = u_ID user \<and> u_PasswordHash user' = u_PasswordHash user"
proof -
  obtain call inp request where e: "e = (call, inp, request)" by (cases e)
  show ?thesis
  proof (cases call)
    case Register
    with assms(1) e have "register lib a inp request s = (err, w, s')" by simp
    then show ?thesis
      by (cases rule: register_cases) (use assms(2) in \<open>auto simp: create_user_Some find_append\<close>)
  next
    case Login
    with assms(1) e have "login lib a inp request s = (err, w, s')" by simp
    then show ?thesis by (cases rule: login_cases) (use assms(2) in auto)
  next
    case CurrentSession
    with assms(1) e have "s' = s"
      by (auto simp: currentSession_def JSON_def Let_def split: if_splits prod.splits option.splits sum.splits)
    with assms(2) show ?thesis by simp
  next
    case Logout
    with assms(1) e have "logout lib a inp request s = (err, w, s')" by simp
    then show ?thesis
    proof (cases rule: logout_cases)
      case (revoked claims)
      from revoked(2) have users: "as_users s' = update_where (\<lambda>u. u_ID u = cl_Subject claims)
          (\<lambda>u. u\<lparr>u_SessionVersion := u_SessionVersion u + 1\<rparr>) (as_users s)"
        by (simp add: bump_session_def split: if_splits)
      have "map u_Email (as_users s) = map u_Email (as_users s')"
          "map u_ID (as_users s) = map u_ID (as_users s')" "map u_PasswordHash (as_users s) = map u_PasswordHash (as_users s')"
        by (simp_all add: users map_update_where_key)
      from find_map_key [OF this assms(2)] show ?thesis .
    qed (use assms(2) in simp)
  qed
qed

lemma auth_run_account:
  "find (\<lambda>u. u_Email u = m) (as_users s) = Some user \<Longrightarrow>
     \<exists>user'. find (\<lambda>u. u_Email u = m) (as_users (auth_run lib a es s)) = Some user' \<and>
       u_ID user' = u_ID user \<and> u_PasswordHash user' = u_PasswordHash user"
proof (induction lib a es s arbitrary: user rule: auth_run.induct)
  case (2 lib a e es s)
  obtain err w s' where st: "auth_exec lib a e s = (err, w, s')" using prod_cases3 by blast
  from auth_exec_account [OF st "2.prems"] obtain user' where
    u: "find (\<lambda>u. u_Email u = m) (as_users s') = Some user'" "u_ID user' = u_ID user"
      "u_PasswordHash user' = u_PasswordHash user" by blast
  from "2.IH" [OF st [symmetric] refl u(1)] u(2,3) st show ?case by simp
qed auto

lemma login_reply:
  assumes "login lib a inp request s = (err, w, s')" "requireHTTPSRequest (al_net lib) a (ci_write_error inp) request [] = (None, [])"
    "\<forall>b. Body 429 b \<notin> set w" "decodeCredentials lib request = Decoded credentials" "validateCredentials credentials = None"
    "ja_database a" "ci_up inp"
    "find (\<lambda>u. u_Email u = normalizeEmail (cr_Email credentials)) (as_users s) = Some user"
    "al_SignedString lib (ja_secret a) (session_claims a (ci_time inp) user) = Some tok"
  shows "w = (if al_CompareHashAndPassword lib (u_PasswordHash user) (cr_Password credentials)
    then [Set_Cookie authCookie tok (ja_secureCookie a) (go_div (ja_ttl a) time_Second),
          Body 200 [(''subject'', u_ID user), (''email'', u_Email user)]]
    else [Body 401 [(''error'', ''invalid email or password'')]])"
  using assms
  by (auto simp: login_def JSON_def quotaResponse_def Let_def authenticate_def setCookie_def
      split: prod.splits if_splits)

lemma validate_length: "validateCredentials credentials = None \<Longrightarrow> length (cr_Password credentials) \<le> 72"
  by (auto simp: validateCredentials_def maximumPassword_def split: if_splits)

text \<open>A registered account can be logged in to with its password and with no other. After a
  registration that succeeded and any account traffic since, a login that no limit refuses, with an
  address that differs at most in case and surrounding space, is answered with a session of the very
  account that was registered if the password is the registered one, and refused otherwise.\<close>

theorem registered_account_login:
  assumes "bcrypt_documented lib" and "ja_database a" and "\<And>k c. \<exists>t. t \<noteq> [] \<and> al_SignedString lib k c = Some t"
    and "auth_exec lib a (Register, inp, request) s = (err, w, s1)" and "handed w = Some tok"
    and "decodeCredentials lib request = Decoded credentials"
    and "auth_exec lib a (Login, inp', request') (auth_run lib a es s1) = (err', w', s2)"
    and "requireHTTPSRequest (al_net lib) a (ci_write_error inp') request' [] = (None, [])"
    and "ci_up inp'" and "\<forall>b. Body 429 b \<notin> set w'"
    and "decodeCredentials lib request' = Decoded credentials'" and "validateCredentials credentials' = None"
    and "normalizeEmail (cr_Email credentials') = normalizeEmail (cr_Email credentials)"
  shows "if cr_Password credentials' = cr_Password credentials
    then (\<exists>t b. handed w' = Some t \<and> Body 200 [(''subject'', ci_uuid inp), (''email'', b)] \<in> set w')
    else w' = [Body 401 [(''error'', ''invalid email or password'')]]"
proof -
  from assms(4) have "register lib a inp request s = (err, w, s1)" by simp
  then obtain hash where hash: "al_GenerateFromPassword lib (cr_Password credentials) (ci_salt inp) = Some hash"
      "as_users s1 = as_users s @ [new_user inp credentials hash]"
      "normalizeEmail (cr_Email credentials) \<notin> set (map u_Email (as_users s))"
    by (cases rule: register_cases) (use assms(5,6) in \<open>auto simp: create_user_Some new_user_def\<close>)
  have "find (\<lambda>u. u_Email u = normalizeEmail (cr_Email credentials)) (as_users s1) = Some (new_user inp credentials hash)"
    using hash(2,3) by (force simp: find_append find_None_iff new_user_def split: option.splits dest!: find_SomeD)
  from auth_run_account [OF this, of lib a es] obtain user where
    user: "find (\<lambda>u. u_Email u = normalizeEmail (cr_Email credentials')) (as_users (auth_run lib a es s1)) = Some user"
      "u_ID user = ci_uuid inp" "u_PasswordHash user = hash" by (auto simp: assms(13) new_user_def)
  obtain t where t: "al_SignedString lib (ja_secret a) (session_claims a (ci_time inp') user) = Some t" "t \<noteq> []"
    using assms(3) by blast
  have login: "login lib a inp' request' (auth_run lib a es s1) = (err', w', s2)" using assms(7) by simp
  have "al_CompareHashAndPassword lib hash (cr_Password credentials') \<longleftrightarrow> cr_Password credentials' = cr_Password credentials"
    using assms(1) hash(1) validate_length [OF assms(12)] by (auto simp: bcrypt_documented_def)
  with login_reply [OF login assms(8,10,11,12,2,9) user(1) t(1)] user(2,3) t(2) show ?thesis
    by auto
qed

lemma registered_account_login_witness:
  "\<exists>s1 err' w' s2. auth_exec sample_jwt sample_authenticator
       (Login, call_at 1 ''x'', sample_request ''1.2.3.4:5'' [] (sample_credentials\<lparr>cr_Email := ''ANN@x.org ''\<rparr>)) s1 = (err', w', s2) \<and>
     as_users s1 = [sample_account] \<and> (\<exists>t. handed w' = Some t) \<and> (\<exists>b. Body 200 [(''subject'', ''u1''), (''email'', b)] \<in> set w')"
proof -
  let ?r = "sample_request ''1.2.3.4:5'' [] sample_credentials"
  let ?c' = "sample_credentials\<lparr>cr_Email := ''ANN@x.org ''\<rparr>"
  let ?r' = "sample_request ''1.2.3.4:5'' [] ?c'"
  obtain err w s1 where ex: "auth_exec sample_jwt sample_authenticator (Register, call_at 0 ''u1'', ?r) no_accounts = (err, w, s1)"
    using prod_cases3 by blast
  from sample_registration [of sample_sign sample_parse] ex have w:
    "handed w = Some (sample_sign (replicate 32 CHR ''s'') (session_claims sample_authenticator 0 sample_account))"
    "as_users s1 = [sample_account]" by (simp_all add: sample_sign_def)
  obtain err' w' s2 where ex': "auth_exec sample_jwt sample_authenticator (Login, call_at 1 ''x'', ?r')
      (auth_run sample_jwt sample_authenticator [] s1) = (err', w', s2)"
    using prod_cases3 by blast
  have "(case auth_exec (sample_auth_lib sign parse) sample_authenticator (Login, call_at 1 ''x'', ?r')
      (snd (snd (auth_exec (sample_auth_lib sign parse) sample_authenticator (Register, call_at 0 ''u1'', ?r) no_accounts))) of
      (err, w, s) \<Rightarrow> list_all (\<lambda>r. case r of Body c b \<Rightarrow> c \<noteq> 429 | _ \<Rightarrow> True) w)" for sign parse
    by code_simp
  from this [of sample_sign sample_parse] ex ex' have quota: "\<forall>b. Body 429 b \<notin> set w'"
    by (auto simp: list_all_iff)
  have lib: "bcrypt_documented sample_jwt" "ja_database sample_authenticator"
      "\<exists>t. t \<noteq> [] \<and> al_SignedString sample_jwt k c = Some t" for k c
    by (auto simp: bcrypt_documented_def sample_auth_lib_def sample_authenticator_def sample_sign_def)
  have d: "decodeCredentials sample_jwt ?r = Decoded sample_credentials" "decodeCredentials sample_jwt ?r' = Decoded ?c'"
    by (simp_all add: decodeCredentials_def sample_auth_lib_def sample_request_def)
  have v: "validateCredentials ?c' = None" "normalizeEmail (cr_Email ?c') = normalizeEmail (cr_Email sample_credentials)"
    by code_simp+
  have h: "requireHTTPSRequest (al_net sample_jwt) sample_authenticator (ci_write_error (call_at 1 ''x'')) ?r' [] = (None, [])"
      "ci_up (call_at 1 ''x'')"
    by (simp_all add: requireHTTPSRequest_def sample_authenticator_def call_at_def)
  from registered_account_login [OF lib ex w(1) d(1) ex' h quota d(2) v] ex' w(2)
  show ?thesis by (auto simp: call_at_def)
qed

section \<open>The HTTPS requirement\<close>



end
