(* ===== verification/Listing.thy ===== *)
theory Listing
  imports Job_Store Go_Strings "HOL-Library.Multiset" "HOL-Library.List_Lexorder" "HOL-Library.Char_ord" "HOL-Library.Product_Lexorder"
begin

text \<open>
  Listing documents page by page (\<^verbatim>\<open>ListOwnedPage\<close> of \<^verbatim>\<open>api/database.go\<close>; \<^verbatim>\<open>List\<close> and
  \<^verbatim>\<open>failureKindFor\<close> of \<^verbatim>\<open>api/documents.go\<close>). A page starts behind a cursor, the creation time and
  identifier of the last document of the page before; documents are ordered by both. The text form of a
  cursor (base64 of JSON) is an argument.
\<close>

section \<open>The query\<close>

record documentCursor =
  cur_CreatedAt :: time
  cur_ID :: string

record documentSummaryRow =
  sr_ID :: string
  sr_OriginalFilename :: string
  sr_Status :: string
  sr_PageCount :: "32 word"
  sr_ErrorMessage :: "string option"
  sr_FailureKind :: string
  sr_CreatedAt :: time
  sr_UpdatedAt :: time

text \<open>LIKE: a percent sign matches any characters, an underscore one, a backslash makes the next
  character literal. ILIKE ignores case.\<close>

fun like :: "string \<Rightarrow> string \<Rightarrow> bool" where
  "like [] s = (s = [])"
| "like (p # ps) s =
     (if p = CHR ''%'' then like ps s \<or> (case s of [] \<Rightarrow> False | _ # cs \<Rightarrow> like (p # ps) cs)
      else case s of
          [] \<Rightarrow> False
        | c # cs \<Rightarrow>
            (if p = CHR ''_'' then like ps cs
             else if p = char_of (92 :: nat) then (case ps of [] \<Rightarrow> False | q # qs \<Rightarrow> c = q \<and> like qs cs)
             else c = p \<and> like ps cs))"

definition ilike :: "string \<Rightarrow> string \<Rightarrow> bool" where
  "ilike text pattern = like (ToLower pattern) (ToLower text)"

definition page_key :: "document \<Rightarrow> time \<times> string" where
  "page_key r = (doc_CreatedAt r, doc_ID r)"

definition cursor_key :: "documentCursor \<Rightarrow> time \<times> string" where
  "cursor_key c = (cur_CreatedAt c, cur_ID c)"

definition listed :: "string \<Rightarrow> string \<Rightarrow> document \<Rightarrow> bool" where
  "listed ownerID search r \<longleftrightarrow>
     doc_OwnerID r = ownerID \<and> (search = [] \<or> ilike (doc_OriginalFilename r) (''%'' @ search @ ''%''))"

definition summary_row :: "document \<Rightarrow> documentSummaryRow" where
  "summary_row r = \<lparr>sr_ID = doc_ID r, sr_OriginalFilename = doc_OriginalFilename r, sr_Status = doc_Status r,
     sr_PageCount = doc_PageCount r, sr_ErrorMessage = doc_ErrorMessage r, sr_FailureKind = doc_FailureKind r,
     sr_CreatedAt = doc_CreatedAt r, sr_UpdatedAt = doc_UpdatedAt r\<rparr>"

definition ListOwnedPage :: "string \<Rightarrow> string \<Rightarrow> nat \<Rightarrow> documentCursor option \<Rightarrow> db \<Rightarrow> documentSummaryRow list" where
  "ListOwnedPage ownerID search limit cursor d =
     (let rows = filter (listed ownerID search) (documents d);
          rows = (case cursor of None \<Rightarrow> rows | Some c \<Rightarrow> filter (\<lambda>r. page_key r < cursor_key c) rows)
      in take limit (map summary_row (rev (sort_key page_key rows))))"

section \<open>The handler\<close>

record documentSummary =
  ds_DocumentID :: string
  ds_Filename :: string
  ds_Status :: string
  ds_PageCount :: "32 word"
  ds_CreatedAt :: time
  ds_UpdatedAt :: time
  ds_Error :: "string option"
  ds_FailureKind :: string

record documentListResponse =
  lr_Items :: "documentSummary list"
  lr_NextCursor :: string
  lr_HasMore :: bool

definition failureKindFor :: "string \<Rightarrow> string \<Rightarrow> string" where
  "failureKindFor status kind =
     (if status \<noteq> ''failed'' then [] else if kind = ''permanent'' then ''permanent'' else ''retryable'')"

definition row_summary :: "documentSummaryRow \<Rightarrow> documentSummary" where
  "row_summary sr = \<lparr>ds_DocumentID = sr_ID sr, ds_Filename = sr_OriginalFilename sr, ds_Status = sr_Status sr,
     ds_PageCount = sr_PageCount sr, ds_CreatedAt = sr_CreatedAt sr, ds_UpdatedAt = sr_UpdatedAt sr,
     ds_Error = sr_ErrorMessage sr, ds_FailureKind = failureKindFor (sr_Status sr) (sr_FailureKind sr)\<rparr>"

record cursor_codec =
  cc_encode :: "documentCursor \<Rightarrow> string"
  cc_decode :: "string \<Rightarrow> documentCursor option"

datatype 'a answer = Refused_With nat string | Answered nat 'a | Empty_Answer nat

definition page_limit :: "string \<Rightarrow> nat" where
  "page_limit q =
     (case Atoi q of (v, err) \<Rightarrow> if err = None \<and> v > 0 then nat (if v > 100 then 100 else v) else 50)"

text \<open>\<open>paged\<close> says whether the store can page, as the one for PostgreSQL can.\<close>

definition List_handler ::
    "cursor_codec \<Rightarrow> bool \<Rightarrow> bool \<Rightarrow> string \<Rightarrow> string \<Rightarrow> string \<Rightarrow> string \<Rightarrow> db \<Rightarrow> documentListResponse answer" where
  "List_handler codec paged up ownerID q_search q_limit q_cursor d =
     (let search = TrimSpace q_search; limit = page_limit q_limit;
          list_page = (\<lambda>cursor.
            if paged then
              if \<not> up then Refused_With 500 ''could not list documents''
              else let rows = ListOwnedPage ownerID search (limit + 1) cursor d;
                       hasMore = (length rows > limit);
                       rows = (if hasMore then take limit rows else rows)
                   in Answered 200 \<lparr>lr_Items = map row_summary rows,
                        lr_NextCursor = (if hasMore \<and> length rows > 0
                          then cc_encode codec \<lparr>cur_CreatedAt = sr_CreatedAt (last rows), cur_ID = sr_ID (last rows)\<rparr> else []),
                        lr_HasMore = hasMore\<rparr>
            else if \<not> up then Refused_With 500 ''could not list documents''
            else let rows = filter (\<lambda>r. \<not> (search \<noteq> [] \<and> \<not> Contains (ToLower (doc_OriginalFilename r)) (ToLower search)))
                       (ListOwned ownerID d)
                 in Answered 200 \<lparr>lr_Items = take limit (map (\<lambda>r. row_summary (summary_row r)) rows),
                      lr_NextCursor = [], lr_HasMore = False\<rparr>)
      in if q_cursor \<noteq> [] then
           (case cc_decode codec q_cursor of
              None \<Rightarrow> Refused_With 400 ''invalid cursor''
            | Some c \<Rightarrow> if cur_ID c = [] then Refused_With 400 ''invalid cursor'' else list_page (Some c))
         else list_page None)"

section \<open>Pages\<close>

text \<open>The documents a listing is about, newest first.\<close>

definition matching :: "string \<Rightarrow> string \<Rightarrow> db \<Rightarrow> document list" where
  "matching ownerID search d = rev (sort_key page_key (filter (listed ownerID search) (documents d)))"

definition behind :: "documentCursor option \<Rightarrow> document \<Rightarrow> bool" where
  "behind cursor r = (case cursor of None \<Rightarrow> True | Some c \<Rightarrow> page_key r < cursor_key c)"

lemma ListOwnedPage_eq:
  "ListOwnedPage ownerID search limit cursor d =
     map summary_row (take limit (filter (behind cursor) (matching ownerID search d)))"
  unfolding ListOwnedPage_def matching_def behind_def Let_def
  by (cases cursor) (simp_all add: rev_filter [symmetric] filter_sort take_map)

lemma page_limit: "1 \<le> page_limit q \<and> page_limit q \<le> 100"
  by (auto simp: page_limit_def split: prod.splits)

section \<open>Following the cursors\<close>

text \<open>What a client does: it asks for page after page while there are more. Between two requests the
  database may change; \<open>dbs\<close> are its states at the requests. The result says whether the last page
  was reached.\<close>

fun follow_pages :: "cursor_codec \<Rightarrow> string \<Rightarrow> string \<Rightarrow> string \<Rightarrow> string \<Rightarrow> db list \<Rightarrow> documentSummary list \<times> bool" where
  "follow_pages codec ownerID q_search q_limit q_cursor [] = ([], False)"
| "follow_pages codec ownerID q_search q_limit q_cursor (d # ds) =
     (case List_handler codec True True ownerID q_search q_limit q_cursor d of
        Answered _ page \<Rightarrow>
          (if lr_HasMore page
           then (case follow_pages codec ownerID q_search q_limit (lr_NextCursor page) ds of
                   (items, finished) \<Rightarrow> (lr_Items page @ items, finished))
           else (lr_Items page, True))
      | _ \<Rightarrow> ([], False))"

definition codec_ok :: "cursor_codec \<Rightarrow> bool" where
  "codec_ok codec \<longleftrightarrow> (\<forall>c. cc_encode codec c \<noteq> [] \<and> cc_decode codec (cc_encode codec c) = Some c)"

definition summary_key :: "documentSummary \<Rightarrow> time \<times> string" where
  "summary_key x = (ds_CreatedAt x, ds_DocumentID x)"

abbreviation summary_of :: "document \<Rightarrow> documentSummary" where
  "summary_of r \<equiv> row_summary (summary_row r)"

lemma summary_key_of [simp]: "summary_key (summary_of r) = page_key r"
  by (simp add: summary_key_def row_summary_def summary_row_def page_key_def)

definition cursor_text :: "cursor_codec \<Rightarrow> documentCursor option \<Rightarrow> string" where
  "cursor_text codec cursor = (case cursor of None \<Rightarrow> [] | Some c \<Rightarrow> cc_encode codec c)"

definition good_cursor :: "documentCursor option \<Rightarrow> bool" where
  "good_cursor cursor = (case cursor of None \<Rightarrow> True | Some c \<Rightarrow> cur_ID c \<noteq> [])"

definition cursor_of :: "document \<Rightarrow> documentCursor" where
  "cursor_of r = \<lparr>cur_CreatedAt = doc_CreatedAt r, cur_ID = doc_ID r\<rparr>"

lemma cursor_key_of [simp]: "cursor_key (cursor_of r) = page_key r"
  by (simp add: cursor_key_def cursor_of_def page_key_def)

lemma List_handler_page:
  assumes "codec_ok codec" "good_cursor cursor"
    and "M = filter (behind cursor) (matching ownerID (TrimSpace q_search) d)" and "L = page_limit q_limit"
  shows "\<exists>page. List_handler codec True True ownerID q_search q_limit (cursor_text codec cursor) d = Answered 200 page \<and>
    lr_Items page = map summary_of (take L M) \<and> (lr_HasMore page \<longleftrightarrow> L < length M) \<and>
    (L < length M \<longrightarrow> lr_NextCursor page = cursor_text codec (Some (cursor_of (M ! (L - 1)))))"
proof -
  have L: "0 < L" using page_limit [of q_limit] assms(4) by simp
  have rows: "ListOwnedPage ownerID (TrimSpace q_search) (L + 1) cursor d = map summary_row (take (L + 1) M)"
    by (simp add: ListOwnedPage_eq assms(3))
  have last: "last (take L (map summary_row (take (L + 1) M))) = summary_row (M ! (L - 1))" if "L < length M"
  proof -
    have "M \<noteq> []" using that by auto
    with that L last_conv_nth [of "map summary_row (take L M)"] show ?thesis by (simp add: take_map min_def)
  qed
  show ?thesis
    using assms(1,2) L rows last
    by (cases cursor)
      (auto simp: List_handler_def Let_def cursor_text_def good_cursor_def codec_ok_def assms(4) [symmetric] take_map min_def
        cursor_of_def summary_row_def)
qed

lemma matching_sorted:
  assumes "keys_ok d"
  shows "sorted_wrt (\<lambda>r r'. page_key r' < page_key r) (matching ownerID search d)"
proof -
  have "distinct (map doc_ID (filter (listed ownerID search) (documents d)))"
    using assms by (simp add: keys_ok_def distinct_map_filter)
  then have "distinct (map (snd \<circ> page_key) (filter (listed ownerID search) (documents d)))"
    by (simp add: page_key_def comp_def)
  then have "distinct (map page_key (filter (listed ownerID search) (documents d)))"
    unfolding map_map [symmetric] by (simp only: distinct_map)
  then have "distinct (map page_key (sort_key page_key (filter (listed ownerID search) (documents d))))"
    by (metis distinct_map distinct_sort set_sort)
  then have "sorted_wrt (<) (map page_key (sort_key page_key (filter (listed ownerID search) (documents d))))"
    using strict_sorted_iff sorted_sort_key by blast
  then show ?thesis by (simp add: matching_def sorted_wrt_rev sorted_wrt_map)
qed

lemma matching_ID: "keys_ok d \<Longrightarrow> r \<in> set (matching ownerID search d) \<Longrightarrow> doc_ID r \<noteq> []"
  by (auto simp: keys_ok_def matching_def image_iff)

text \<open>Behind the last document of a page are exactly the documents that were not on it.\<close>

lemma sorted_behind:
  assumes "sorted_wrt (\<lambda>r r'. page_key r' < page_key r) M" "0 < L" "L \<le> length M"
  shows "filter (\<lambda>r. page_key r < page_key (M ! (L - 1))) M = drop L M"
proof -
  have low: "\<not> page_key r < page_key (M ! (L - 1))" if "r \<in> set (take L M)" for r
  proof -
    obtain j where "j < L" "r = M ! j" using assms(3) \<open>r \<in> set (take L M)\<close> by (auto simp: in_set_conv_nth)
    with assms show ?thesis
      by (cases "j = L - 1") (auto dest!: sorted_wrt_nth_less [where i = j and j = "L - 1"])
  qed
  have high: "page_key r < page_key (M ! (L - 1))" if "r \<in> set (drop L M)" for r
  proof -
    obtain j where "j + L < length M" "r = M ! (L + j)" using \<open>r \<in> set (drop L M)\<close>
      by (auto simp: in_set_conv_nth) (metis add.commute less_diff_conv)
    with assms sorted_wrt_nth_less [OF assms(1), of "L - 1" "L + j"] show ?thesis by simp
  qed
  have "filter (\<lambda>r. page_key r < page_key (M ! (L - 1))) (take L M @ drop L M) = drop L M"
    using low high by (simp only: filter_append) (simp add: filter_empty_conv)
  then show ?thesis by simp
qed

lemma next_page:
  assumes "keys_ok d" "M = filter (behind cursor) (matching ownerID search d)" "0 < L" "L < length M"
  shows "good_cursor (Some (cursor_of (M ! (L - 1))))"
    "filter (behind (Some (cursor_of (M ! (L - 1))))) (matching ownerID search d) = drop L M"
proof -
  let ?r = "M ! (L - 1)"
  have r: "?r \<in> set M" using assms(3,4) by simp
  moreover have "set M \<subseteq> set (matching ownerID search d)" by (auto simp: assms(2))
  ultimately have "doc_ID ?r \<noteq> []" using matching_ID [OF assms(1)] by blast
  then show "good_cursor (Some (cursor_of ?r))" by (simp add: good_cursor_def cursor_of_def)
  have "behind cursor r" if "page_key r < page_key ?r" for r
    using r assms(2) that by (auto simp: behind_def split: option.splits)
  then have "filter (behind (Some (cursor_of ?r))) (matching ownerID search d) = filter (\<lambda>r. page_key r < page_key ?r) M"
    unfolding assms(2) filter_filter by (intro filter_cong) (auto simp: behind_def)
  also have "\<dots> = drop L M"
    using assms(2-4) sorted_wrt_filter [OF matching_sorted [OF assms(1)]] by (intro sorted_behind) auto
  finally show "filter (behind (Some (cursor_of ?r))) (matching ownerID search d) = drop L M" .
qed

lemma follow_pages_general:
  assumes "codec_ok codec" "L = page_limit q_limit" "search = TrimSpace q_search"
  shows "\<forall>d \<in> set ds. keys_ok d \<Longrightarrow> good_cursor cursor \<Longrightarrow>
    follow_pages codec ownerID q_search q_limit (cursor_text codec cursor) ds = (items, finished) \<Longrightarrow>
    sorted_wrt (\<lambda>x y. summary_key y < summary_key x) items \<and>
    (\<forall>x \<in> set items. case cursor of None \<Rightarrow> True | Some c \<Rightarrow> summary_key x < cursor_key c) \<and>
    (finished \<longrightarrow> (\<forall>k. (\<forall>d \<in> set ds. \<exists>r \<in> set (matching ownerID search d). page_key r = k \<and> behind cursor r) \<longrightarrow>
       k \<in> summary_key ` set items))"
proof (induction ds arbitrary: cursor items)
  case (Cons d ds)
  define M where "M = filter (behind cursor) (matching ownerID search d)"
  have keys: "keys_ok d" using Cons.prems(1) by simp
  have L: "0 < L" using page_limit [of q_limit] assms(2) by simp
  have sortedM: "sorted_wrt (\<lambda>r r'. page_key r' < page_key r) M"
    unfolding M_def by (rule sorted_wrt_filter [OF matching_sorted [OF keys]])
  from List_handler_page [OF assms(1) Cons.prems(2) M_def [unfolded assms(3)] assms(2)] obtain page where
    page: "List_handler codec True True ownerID q_search q_limit (cursor_text codec cursor) d = Answered 200 page"
      "lr_Items page = map summary_of (take L M)" "lr_HasMore page \<longleftrightarrow> L < length M"
      "L < length M \<Longrightarrow> lr_NextCursor page = cursor_text codec (Some (cursor_of (M ! (L - 1))))" by blast
  have inM: "\<forall>r \<in> set M. behind cursor r" by (simp add: M_def)
  have first: "sorted_wrt (\<lambda>x y. summary_key y < summary_key x) (lr_Items page)"
    using sorted_wrt_take [OF sortedM, of L] by (simp add: page(2) sorted_wrt_map)
  have firstC: "\<forall>x \<in> set (lr_Items page). case cursor of None \<Rightarrow> True | Some c \<Rightarrow> summary_key x < cursor_key c"
    using inM by (auto simp: page(2) behind_def split: option.splits dest: in_set_takeD)
  show ?case
  proof (cases "L < length M")
    case False
    with Cons.prems(3) page have "items = map summary_of M" "finished" by auto
    moreover from this(1) first firstC page(2) False have "lr_Items page = items" by simp
    ultimately show ?thesis using first firstC by (force simp: M_def)
  next
    case True
    let ?r = "M ! (L - 1)"
    obtain rest where rest: "follow_pages codec ownerID q_search q_limit (cursor_text codec (Some (cursor_of ?r))) ds = (rest, finished)"
      "items = lr_Items page @ rest"
      using Cons.prems(3) page True by (auto split: prod.splits)
    note next_ok = next_page [OF keys M_def L True]
    from Cons.IH [OF _ next_ok(1) rest(1)] Cons.prems(1) have
      IH: "sorted_wrt (\<lambda>x y. summary_key y < summary_key x) rest" "\<forall>x \<in> set rest. summary_key x < page_key ?r"
        "finished \<Longrightarrow> \<forall>k. (\<forall>d \<in> set ds. \<exists>r \<in> set (matching ownerID search d). page_key r = k \<and> page_key r < page_key ?r) \<longrightarrow>
           k \<in> summary_key ` set rest"
      by (auto simp: behind_def)
    have last_in: "?r \<in> set M" using True L by simp
    have above: "page_key ?r \<le> page_key r" if r: "r \<in> set (take L M)" for r
    proof -
      obtain j where "j < L" "r = M ! j" using r True by (auto simp: in_set_conv_nth)
      moreover have "j < L - 1 \<or> j = L - 1" using calculation(1) by linarith
      moreover have "L - 1 < length M" using True by linarith
      ultimately show ?thesis using sorted_wrt_nth_less [OF sortedM, of j "L - 1"] by (auto intro: less_imp_le)
    qed
    have "sorted_wrt (\<lambda>x y. summary_key y < summary_key x) items"
      unfolding rest(2) sorted_wrt_append using first IH(1,2) above by (fastforce simp: page(2))
    moreover have "\<forall>x \<in> set items. case cursor of None \<Rightarrow> True | Some c \<Rightarrow> summary_key x < cursor_key c"
      using firstC IH(2) inM last_in unfolding rest(2) by (force simp: behind_def split: option.splits)
    moreover have "k \<in> summary_key ` set items"
      if "finished" and k: "\<forall>d \<in> set (d # ds). \<exists>r \<in> set (matching ownerID search d). page_key r = k \<and> behind cursor r" for k
    proof (cases "k < page_key ?r")
      case True
      then have "\<forall>d \<in> set ds. \<exists>r \<in> set (matching ownerID search d). page_key r = k \<and> page_key r < page_key ?r"
        using k by (metis list.set_intros(2))
      then have "k \<in> summary_key ` set rest" by (rule mp [OF spec [OF IH(3) [OF that(1)]]])
      then show ?thesis unfolding rest(2) by auto
    next
      case False
      from k obtain r where r: "r \<in> set M" "page_key r = k" by (auto simp: M_def)
      have "r \<in> set (take L M)"
      proof (rule ccontr)
        assume "r \<notin> set (take L M)"
        then have "r \<in> set (drop L M)" using r(1) by (metis Un_iff append_take_drop_id set_append)
        then have "behind (Some (cursor_of ?r)) r" unfolding next_ok(2) [symmetric] by simp
        with False r(2) show False by (simp add: behind_def)
      qed
      with r(2) show ?thesis unfolding rest(2) page(2) by force
    qed
    ultimately show ?thesis by blast
  qed
qed simp

lemma follow_pages_constant:
  assumes "codec_ok codec" "L = page_limit q_limit" "keys_ok d"
  shows "good_cursor cursor \<Longrightarrow> M = filter (behind cursor) (matching ownerID (TrimSpace q_search) d) \<Longrightarrow>
    length M < n * L + (if n = 0 then 0 else 1) \<Longrightarrow>
    follow_pages codec ownerID q_search q_limit (cursor_text codec cursor) (replicate n d) = (map summary_of M, True)"
proof (induction n arbitrary: cursor M)
  case (Suc n)
  have L: "0 < L" using page_limit [of q_limit] assms(2) by simp
  from List_handler_page [OF assms(1) Suc.prems(1,2) assms(2)] obtain page where
    page: "List_handler codec True True ownerID q_search q_limit (cursor_text codec cursor) d = Answered 200 page"
      "lr_Items page = map summary_of (take L M)" "lr_HasMore page \<longleftrightarrow> L < length M"
      "L < length M \<Longrightarrow> lr_NextCursor page = cursor_text codec (Some (cursor_of (M ! (L - 1))))" by blast
  show ?case
  proof (cases "L < length M")
    case True
    note next_ok = next_page [OF assms(3) Suc.prems(2) L True]
    have "length (drop L M) < n * L + (if n = 0 then 0 else 1)" using Suc.prems(3) True by (cases n) auto
    from Suc.IH [OF next_ok(1) next_ok(2) [symmetric] this] page True show ?thesis
      by (simp flip: map_append)
  qed (use page in simp)
qed simp

text \<open>C30: paging neither loses nor repeats a document. Whatever happens to the table between two requests,
  a client that follows the cursors sees strictly older documents on and on, none twice, and when it
  has reached the end it has seen every document of the owner that matched all the time. While nothing
  changes, it reaches the end after as many requests as there are full pages and one more, and has then
  seen exactly the matching documents, newest first.\<close>

theorem pages_list_every_document:
  assumes "codec_ok codec" and "\<forall>d \<in> set dbs. keys_ok d"
    and "follow_pages codec ownerID q_search q_limit [] dbs = (items, finished)"
  shows "sorted_wrt (\<lambda>x y. summary_key y < summary_key x) items \<and>
    (finished \<longrightarrow> (\<forall>k. (\<forall>d \<in> set dbs. k \<in> page_key ` set (matching ownerID (TrimSpace q_search) d)) \<longrightarrow>
       k \<in> summary_key ` set items)) \<and>
    (\<forall>d. dbs = replicate (length dbs) d \<longrightarrow>
       length (matching ownerID (TrimSpace q_search) d) div page_limit q_limit < length dbs \<longrightarrow>
       finished \<and> items = map summary_of (matching ownerID (TrimSpace q_search) d))"
proof -
  have start: "cursor_text codec None = []" "good_cursor None" by (simp_all add: cursor_text_def good_cursor_def)
  note general = follow_pages_general [OF assms(1) refl refl assms(2) start(2), unfolded start(1), OF assms(3)]
  have "finished \<and> items = map summary_of (matching ownerID (TrimSpace q_search) d)"
    if d: "dbs = replicate (length dbs) d"
      and l: "length (matching ownerID (TrimSpace q_search) d) div page_limit q_limit < length dbs" for d
  proof -
    let ?M = "matching ownerID (TrimSpace q_search) d" and ?L = "page_limit q_limit"
    have L: "0 < ?L" using page_limit [of q_limit] by simp
    have n: "length dbs \<noteq> 0" using l by linarith
    with d assms(2) have keys: "keys_ok d" by (metis in_set_replicate)
    have "length ?M < length dbs * ?L" using l L by (simp add: div_less_iff_less_mult)
    then have "length ?M < length dbs * ?L + (if length dbs = 0 then 0 else 1)" by simp
    moreover have "filter (behind None) ?M = ?M" by (simp add: behind_def)
    ultimately have "follow_pages codec ownerID q_search q_limit [] (replicate (length dbs) d) = (map summary_of ?M, True)"
      using follow_pages_constant [OF assms(1) refl keys start(2), of ?M] start(1) by metis
    with d assms(3) show ?thesis by simp
  qed
  note unchanged = this
  have iff: "k \<in> page_key ` set (matching ownerID (TrimSpace q_search) d) \<longleftrightarrow>
      (\<exists>r \<in> set (matching ownerID (TrimSpace q_search) d). page_key r = k \<and> behind None r)" for k d
    by (auto simp: behind_def)
  have "finished \<longrightarrow> (\<forall>k. (\<forall>d \<in> set dbs. k \<in> page_key ` set (matching ownerID (TrimSpace q_search) d)) \<longrightarrow>
       k \<in> summary_key ` set items)"
    unfolding iff using general by (elim conjE)
  with general unchanged show ?thesis by (intro conjI impI allI) (simp_all only:)
qed

definition sample_codec :: cursor_codec where
  "sample_codec = \<lparr>cc_encode = (\<lambda>c. CHR ''c'' # FormatInt (cur_CreatedAt c) @ '';'' @ cur_ID c),
     cc_decode = (\<lambda>s. if s = [] then None
       else let r = tl s; a = takeWhile (\<lambda>c. c \<noteq> CHR '';'') r
            in Some \<lparr>cur_CreatedAt = (if a \<noteq> [] \<and> hd a = CHR ''-'' then - decimal (tl a) else decimal a),
              cur_ID = tl (dropWhile (\<lambda>c. c \<noteq> CHR '';'') r)\<rparr>)\<rparr>"

lemma sample_codec_ok: "codec_ok sample_codec"
proof -
  have semi: "c \<noteq> CHR '';''" if "c \<in> set (FormatInt i)" for c i
    using that nat_digits [of "nat i"] nat_digits [of "nat (- i)"]
    by (auto simp: FormatInt_def list_all_iff is_digit_def split: if_splits)
  have cut: "takeWhile (\<lambda>c. c \<noteq> CHR '';'') (FormatInt i @ CHR '';'' # s) = FormatInt i"
    "dropWhile (\<lambda>c. c \<noteq> CHR '';'') (FormatInt i @ CHR '';'' # s) = CHR '';'' # s" for i s
    using semi [of _ i] by (simp_all add: takeWhile_append dropWhile_append)
  have val: "(if FormatInt i \<noteq> [] \<and> hd (FormatInt i) = CHR ''-'' then - decimal (tl (FormatInt i)) else decimal (FormatInt i)) = i" for i
  proof -
    have "nat_digits n \<noteq> [] \<and> hd (nat_digits n) \<noteq> CHR ''-''" for n
      using nat_digits [of n] digit_not_sign by (cases "nat_digits n") auto
    then show ?thesis using nat_digits [of "nat i"] nat_digits [of "nat (- i)"] by (simp add: FormatInt_def)
  qed
  have "cc_encode sample_codec c \<noteq> [] \<and> cc_decode sample_codec (cc_encode sample_codec c) = Some c" for c
  proof (cases c)
    case (fields t i)
    have "FormatInt t \<noteq> []" using nat_digits by (simp add: FormatInt_def)
    with val [of t] show ?thesis by (simp add: fields sample_codec_def Let_def cut split: if_splits)
  qed
  then show ?thesis by (simp add: codec_ok_def)
qed

lemma pages_list_every_document_witness:
  "\<exists>items. follow_pages sample_codec ''o'' [] ''1'' []
       (replicate 3 (empty_db\<lparr>documents := [(sample_document ''a'' 10)\<lparr>doc_OwnerID := ''o''\<rparr>, (sample_document ''b'' 20)\<lparr>doc_OwnerID := ''o''\<rparr>]\<rparr>))
     = (items, True) \<and> map ds_DocumentID items = [''b'', ''a'']"
proof -
  let ?d = "empty_db\<lparr>documents := [(sample_document ''a'' 10)\<lparr>doc_OwnerID := ''o''\<rparr>, (sample_document ''b'' 20)\<lparr>doc_OwnerID := ''o''\<rparr>]\<rparr>"
  obtain items finished where f: "follow_pages sample_codec ''o'' [] ''1'' [] (replicate 3 ?d) = (items, finished)" by force
  have keys: "\<forall>d \<in> set (replicate 3 ?d). keys_ok d" by (simp add: keys_ok_def sample_document_def)
  have m: "length (matching ''o'' (TrimSpace []) ?d) div page_limit ''1'' < length (replicate 3 ?d)"
    "map (\<lambda>r. ds_DocumentID (summary_of r)) (matching ''o'' (TrimSpace []) ?d) = [''b'', ''a'']"
    by code_simp+
  have "replicate 3 ?d = replicate (length (replicate 3 ?d)) ?d" by simp
  with pages_list_every_document [OF sample_codec_ok keys f] m(1) have
    "finished" "items = map summary_of (matching ''o'' (TrimSpace []) ?d)" by blast+
  with f m(2) show ?thesis by (simp add: comp_def)
qed

section \<open>Searching\<close>

text \<open>A search text in which nothing is special to LIKE.\<close>

definition special_char :: "char \<Rightarrow> bool" where
  "special_char c \<longleftrightarrow> c = CHR ''%'' \<or> c = CHR ''_'' \<or> c = char_of (92 :: nat)"

definition literal_search :: "string \<Rightarrow> bool" where
  "literal_search s \<longleftrightarrow> list_all (\<lambda>c. \<not> special_char c) s"

lemma special_char_code: "special_char c \<longleftrightarrow> of_char c \<in> {37, 95, 92 :: nat}"
proof -
  have "c = char_of n \<longleftrightarrow> of_char c = n" if "n < 256" for n :: nat
    using that by (auto simp: take_bit_eq_mod)
  note code = this
  have "CHR ''%'' = char_of (37 :: nat)" "CHR ''_'' = char_of (95 :: nat)" by code_simp+
  then show ?thesis using code [of 37] code [of 95] code [of 92] by (simp only: special_char_def) simp
qed

lemma special_lower: "special_char (lower_char c) = special_char c"
  by (auto simp: special_char_code lower_char_def take_bit_eq_mod)

lemma like_prefix: "literal_search s \<Longrightarrow> like (s @ ''%'') t \<longleftrightarrow> has_prefix t s"
proof (induction s arbitrary: t)
  case Nil
  have "like ''%'' t" for t by (induction t) auto
  then show ?case by simp
next
  case (Cons c s)
  then show ?case by (cases t) (auto simp: literal_search_def special_char_def)
qed

lemma like_contains:
  assumes "literal_search s"
  shows "like (CHR ''%'' # s @ ''%'') t \<longleftrightarrow> Contains t s"
proof (induction t)
  case Nil
  from like_prefix [OF assms, of "[]"] show ?case by (cases s) auto
next
  case (Cons c t)
  with like_prefix [OF assms, of "c # t"] show ?case by simp
qed

lemma ilike_literal: "literal_search s \<Longrightarrow> ilike t (''%'' @ s @ ''%'') \<longleftrightarrow> Contains (ToLower t) (ToLower s)"
proof -
  assume "literal_search s"
  then have "literal_search (ToLower s)"
    by (simp add: literal_search_def ToLower_def list_all_iff special_lower)
  moreover have "ToLower (''%'' @ s @ ''%'') = CHR ''%'' # ToLower s @ ''%''"
    by (simp add: ToLower_def lower_char_def)
  ultimately show ?thesis by (simp only: ilike_def like_contains)
qed

lemma TrimSpace_subset: "set (TrimSpace s) \<subseteq> set s"
  unfolding TrimSpace_def by (auto dest!: set_dropWhileD)

text \<open>Searching is the same on both kinds of store for texts without wildcards. For such a search text
  the paged listing of the database has exactly the documents of the owner whose file name contains the
  text, ignoring case, which is what the listing without pages filters out by itself: their first pages
  have the same documents.\<close>

theorem search_agrees:
  assumes "literal_search q_search"
    and "List_handler codec True True ownerID q_search q_limit [] d = Answered 200 paged"
    and "List_handler codec False True ownerID q_search q_limit [] d = Answered 200 unpaged"
    and "\<not> lr_HasMore paged" and "keys_ok d"
  shows "mset (map ds_DocumentID (lr_Items paged)) = mset (map ds_DocumentID (lr_Items unpaged))"
proof -
  let ?s = "TrimSpace q_search" and ?L = "page_limit q_limit"
  have lit: "literal_search ?s"
    using assms(1) TrimSpace_subset [of q_search] by (auto simp: literal_search_def list_all_iff)
  have listed: "listed ownerID ?s r \<longleftrightarrow> doc_OwnerID r = ownerID \<and> \<not> (?s \<noteq> [] \<and> \<not> Contains (ToLower (doc_OriginalFilename r)) (ToLower ?s))" for r
    using ilike_literal [OF lit] by (auto simp: listed_def)
  let ?U = "filter (\<lambda>r. \<not> (?s \<noteq> [] \<and> \<not> Contains (ToLower (doc_OriginalFilename r)) (ToLower ?s))) (ListOwned ownerID d)"
  let ?M = "matching ownerID ?s d"
  have all: "filter (behind None) ?M = ?M" by (simp add: behind_def)
  have "mset ?U = mset ?M"
    unfolding matching_def ListOwned_def by (simp add: listed filter_sort [symmetric] conj_commute)
  then have len: "length ?U = length ?M" by (metis size_mset)
  have paged: "lr_HasMore paged \<longleftrightarrow> ?L < length ?M" "lr_Items paged = map row_summary (map summary_row (take (?L + 1) ?M))"
    using assms(2,4) unfolding List_handler_def Let_def ListOwnedPage_eq all
    by (auto split: if_splits)
  have "lr_Items unpaged = take ?L (map summary_of ?U)"
    using assms(3) by (auto simp: List_handler_def Let_def)
  with paged assms(4) len have "lr_Items unpaged = map summary_of ?U" "lr_Items paged = map summary_of ?M" by auto
  with \<open>mset ?U = mset ?M\<close> show ?thesis by (metis map_map mset_map)
qed

lemma search_agrees_witness:
  "\<exists>paged unpaged. List_handler sample_codec True True ''o'' ''PDF'' [] [] (empty_db\<lparr>documents :=
        [(sample_document ''a'' 10)\<lparr>doc_OwnerID := ''o'', doc_OriginalFilename := ''x.pdf''\<rparr>]\<rparr>) = Answered 200 paged \<and>
     List_handler sample_codec False True ''o'' ''PDF'' [] [] (empty_db\<lparr>documents :=
        [(sample_document ''a'' 10)\<lparr>doc_OwnerID := ''o'', doc_OriginalFilename := ''x.pdf''\<rparr>]\<rparr>) = Answered 200 unpaged \<and>
     mset (map ds_DocumentID (lr_Items paged)) = mset (map ds_DocumentID (lr_Items unpaged))"
proof -
  let ?d = "empty_db\<lparr>documents := [(sample_document ''a'' 10)\<lparr>doc_OwnerID := ''o'', doc_OriginalFilename := ''x.pdf''\<rparr>]\<rparr>"
  have "(case List_handler sample_codec True True ''o'' ''PDF'' [] [] ?d of Answered n p \<Rightarrow> n = 200 \<and> \<not> lr_HasMore p | _ \<Rightarrow> False)"
    "(case List_handler sample_codec False True ''o'' ''PDF'' [] [] ?d of Answered n p \<Rightarrow> n = 200 | _ \<Rightarrow> False)"
    by code_simp+
  then obtain paged unpaged where p: "List_handler sample_codec True True ''o'' ''PDF'' [] [] ?d = Answered 200 paged"
      "\<not> lr_HasMore paged" "List_handler sample_codec False True ''o'' ''PDF'' [] [] ?d = Answered 200 unpaged"
    by (auto split: answer.splits)
  have l: "literal_search ''PDF''" by code_simp
  have k: "keys_ok ?d" by (simp add: keys_ok_def sample_document_def)
  from search_agrees [OF l p(1,3,2) k] p show ?thesis by blast
qed

text \<open>Wildcards in the search text are not taken literally by the database: an underscore finds every
  document with a name, and the listing without pages would find none of them.\<close>

theorem underscore_finds_everything:
  "listed ownerID ''_'' r = (doc_OwnerID r = ownerID \<and> doc_OriginalFilename r \<noteq> []) \<and>
   \<not> Contains (ToLower ''report.pdf'') (ToLower ''_'')"
proof -
  have any: "like ''%'' t" for t by (induction t) auto
  have "ilike t ''%_%'' = (t \<noteq> [])" for t
    using any by (cases "ToLower t") (auto simp: ilike_def ToLower_def lower_char_def)
  moreover have "\<not> Contains (ToLower ''report.pdf'') (ToLower ''_'')" by code_simp
  ultimately show ?thesis by (simp add: listed_def)
qed

end
