(* ===== verification/Storage.thy ===== *)
theory Storage
  imports Go_Strings "HOL-Library.Sublist" "HOL-Library.List_Lexorder" "HOL-Library.Char_ord"
begin

text \<open>
  The storage of uploaded files (\<^verbatim>\<open>documentStorage\<close> and \<^verbatim>\<open>filesystemStorage\<close> of
  \<^verbatim>\<open>api/storage.go\<close>). A path of the operating system is the list of its components from the root
  of the file system on; a file system is a table of paths, each a directory or a file with its
  content and modification time. Failing system calls are arguments. The locale
  \<open>document_storage\<close> is the contract the API relies on, for any storage behind a network too;
  \<open>local_storage\<close> adds what a storage without one promises.
\<close>

section \<open>The interface\<close>

datatype storage_error = ErrStorageNotFound | ErrStorage

record storageInfo =
  si_Size :: int
  si_LastModified :: time

record storageObject =
  so_Key :: string
  so_LastModified :: time

section \<open>File systems\<close>

type_synonym path = "string list"

datatype node = Directory | File string time

type_synonym filesystem = "(path \<times> node) list"

text \<open>The root of the file system is a directory.\<close>

definition node_at :: "filesystem \<Rightarrow> path \<Rightarrow> node option" where
  "node_at fs p = (if p = [] then Some Directory else map_of fs p)"

definition set_node :: "path \<Rightarrow> node \<Rightarrow> filesystem \<Rightarrow> filesystem" where
  "set_node p n fs = (p, n) # filter (\<lambda>x. fst x \<noteq> p) fs"

definition remove_node :: "path \<Rightarrow> filesystem \<Rightarrow> filesystem" where
  "remove_node p fs = filter (\<lambda>x. fst x \<noteq> p) fs"

text \<open>\<^verbatim>\<open>os.MkdirAll\<close>: every missing directory on the way is made, and a file on the way is an error.\<close>

fun make_dirs :: "path list \<Rightarrow> filesystem \<Rightarrow> storage_error option \<times> filesystem" where
  "make_dirs [] fs = (None, fs)"
| "make_dirs (p # ps) fs =
     (case node_at fs p of
        Some Directory \<Rightarrow> make_dirs ps fs
      | Some (File _ _) \<Rightarrow> (Some ErrStorage, fs)
      | None \<Rightarrow> make_dirs ps (set_node p Directory fs))"

definition MkdirAll :: "path \<Rightarrow> filesystem \<Rightarrow> storage_error option \<times> filesystem" where
  "MkdirAll p fs = make_dirs (prefixes p) fs"

text \<open>What opening or examining a path finds: a file among its parents is another error than a
  missing file.\<close>

definition open_node :: "path \<Rightarrow> filesystem \<Rightarrow> storage_error + node" where
  "open_node p fs =
     (case node_at fs p of
        Some n \<Rightarrow> Inr n
      | None \<Rightarrow>
          if list_ex (\<lambda>q. case node_at fs q of Some (File _ _) \<Rightarrow> True | _ \<Rightarrow> False) (prefixes p)
          then Inl ErrStorage else Inl ErrStorageNotFound)"

text \<open>\<^verbatim>\<open>os.RemoveAll\<close>: everything at and below the path, except what the system refuses to remove and
  the directories above that.\<close>

definition RemoveAll :: "(path \<Rightarrow> bool) \<Rightarrow> path \<Rightarrow> filesystem \<Rightarrow> storage_error option \<times> filesystem" where
  "RemoveAll stuck p fs =
     (let kept = filter (\<lambda>q. prefix p q \<and> stuck q) (map fst fs)
      in (if kept = [] then None else Some ErrStorage,
          filter (\<lambda>x. prefix p (fst x) \<longrightarrow> list_ex (\<lambda>q. prefix (fst x) q) kept) fs))"

section \<open>Keys and paths\<close>

text \<open>\<^verbatim>\<open>filepath.Clean\<close> of a path that starts at the root: empty components and dots vanish, two dots
  take back the component before.\<close>

definition clean_step :: "path \<Rightarrow> string \<Rightarrow> path" where
  "clean_step cs c = (if c = [] \<or> c = ''.'' then cs else if c = ''..'' then butlast cs else cs @ [c])"

definition plain_name :: "string \<Rightarrow> bool" where
  "plain_name i \<longleftrightarrow> i \<noteq> [] \<and> i \<noteq> ''.'' \<and> i \<noteq> ''..'' \<and> CHR ''/'' \<notin> set i"

definition clean_rooted :: "string \<Rightarrow> path" where
  "clean_rooted s = foldl clean_step [] (Split CHR ''/'' s)"

definition slash_join :: "path \<Rightarrow> string" where
  "slash_join cs = concat (map (\<lambda>(i, c). if i = 0 then c else CHR ''/'' # c) (enumerate 0 cs))"

section \<open>The file system storage\<close>

text \<open>The root directory is a clean path.\<close>

record filesystemStorage =
  fs_root :: path

definition storage_path :: "filesystemStorage \<Rightarrow> string \<Rightarrow> path" where
  "storage_path s key = fs_root s @ clean_rooted (CHR ''/'' # key)"

text \<open>Where a \<^verbatim>\<open>Put\<close> may fail.\<close>

datatype put_fault = NoFault | FailMkdir | FailCreate | FailCopy nat | FailClose | FailChmod | FailRename

text \<open>The system calls of \<^verbatim>\<open>Put\<close>: the file systems after each of them, in order, and the error. The
  random part of the temporary name is an argument. The deferred removal of the temporary file
  comes last.\<close>

definition put_trace ::
    "filesystemStorage \<Rightarrow> put_fault \<Rightarrow> string \<Rightarrow> time \<Rightarrow> string \<Rightarrow> string \<Rightarrow> filesystem \<Rightarrow> storage_error option \<times> filesystem list" where
  "put_trace s fault random now key source fs =
     (let p = storage_path s key; dir = butlast p; t = dir @ [''.upload-'' @ random]
      in case MkdirAll dir fs of (e, fs1) \<Rightarrow>
          if e \<noteq> None \<or> fault = FailMkdir then (Some ErrStorage, [fs1])
          else if fault = FailCreate \<or> node_at fs1 t \<noteq> None then (Some ErrStorage, [fs1])
          else let fs2 = set_node t (File [] now) fs1
               in case fault of
                   FailCopy n \<Rightarrow>
                     (let fs3 = set_node t (File (take n source) now) fs2
                      in (Some ErrStorage, [fs1, fs2, fs3, remove_node t fs3]))
                 | _ \<Rightarrow>
                     (let fs3 = set_node t (File source now) fs2
                      in if fault = FailClose \<or> fault = FailChmod \<or> fault = FailRename \<or> node_at fs3 p = Some Directory
                         then (Some ErrStorage, [fs1, fs2, fs3, remove_node t fs3])
                         else (let fs4 = set_node p (File source now) (remove_node t fs3)
                               in (None, [fs1, fs2, fs3, fs4, remove_node t fs4]))))"

definition storage_Put ::
    "filesystemStorage \<Rightarrow> put_fault \<Rightarrow> string \<Rightarrow> time \<Rightarrow> string \<Rightarrow> string \<Rightarrow> filesystem \<Rightarrow> storage_error option \<times> filesystem" where
  "storage_Put s fault random now key source fs =
     (case put_trace s fault random now key source fs of (e, states) \<Rightarrow> (e, last states))"

text \<open>An opened file; a directory can be opened but not read.\<close>

datatype handle = Readable string | NotReadable

definition storage_Get :: "filesystemStorage \<Rightarrow> string \<Rightarrow> filesystem \<Rightarrow> storage_error + handle" where
  "storage_Get s key fs =
     (case open_node (storage_path s key) fs of
        Inl e \<Rightarrow> Inl e
      | Inr (File content _) \<Rightarrow> Inr (Readable content)
      | Inr Directory \<Rightarrow> Inr NotReadable)"

definition storage_Stat :: "filesystemStorage \<Rightarrow> storageInfo \<Rightarrow> string \<Rightarrow> filesystem \<Rightarrow> storage_error + storageInfo" where
  "storage_Stat s directory_info key fs =
     (case open_node (storage_path s key) fs of
        Inl e \<Rightarrow> Inl e
      | Inr (File content modified) \<Rightarrow> Inr \<lparr>si_Size = int (length content), si_LastModified = modified\<rparr>
      | Inr Directory \<Rightarrow> Inr directory_info)"

definition storage_GetRange :: "filesystemStorage \<Rightarrow> string \<Rightarrow> int \<Rightarrow> int \<Rightarrow> filesystem \<Rightarrow> storage_error + handle" where
  "storage_GetRange s key start stop fs =
     (case storage_Get s key fs of
        Inl e \<Rightarrow> Inl e
      | Inr h \<Rightarrow>
          if start < 0 then Inl ErrStorage
          else Inr (case h of
              Readable content \<Rightarrow> Readable (take (nat (stop - start + 1)) (drop (nat start) content))
            | NotReadable \<Rightarrow> NotReadable))"

definition storage_Delete :: "filesystemStorage \<Rightarrow> (path \<Rightarrow> bool) \<Rightarrow> string \<Rightarrow> filesystem \<Rightarrow> storage_error option \<times> filesystem" where
  "storage_Delete s stuck key fs = RemoveAll stuck (butlast (storage_path s key)) fs"

text \<open>\<^verbatim>\<open>filepath.WalkDir\<close> visits in lexical order; every file it finds is listed under its path relative
  to the root of the storage.\<close>

definition storage_List :: "filesystemStorage \<Rightarrow> string \<Rightarrow> filesystem \<Rightarrow> storageObject list" where
  "storage_List s key_prefix fs =
     (let below = filter (\<lambda>p. prefix (storage_path s key_prefix) p) (sort (map fst fs))
      in concat (map (\<lambda>p. case node_at fs p of
           Some (File _ modified) \<Rightarrow> [\<lparr>so_Key = slash_join (drop (length (fs_root s)) p), so_LastModified = modified\<rparr>]
         | _ \<Rightarrow> []) below))"

section \<open>The contract\<close>

text \<open>The key of a document's file; a key is the path that \<^verbatim>\<open>filepath.Join\<close> makes of the three
  components.\<close>

definition storedPath :: "string \<Rightarrow> string" where
  "storedPath i = ''documents/'' @ i @ ''/original.pdf''"

definition document_key :: "string \<Rightarrow> bool" where
  "document_key key \<longleftrightarrow> (case Split CHR ''/'' key of
     [a, i, b] \<Rightarrow> a = ''documents'' \<and> b = ''original.pdf'' \<and> plain_name i | _ \<Rightarrow> False)"

text \<open>A storage keeps for every key the content and the time it was written. \<open>'f\<close>, \<open>'g\<close> and \<open>'h\<close>
  stand for what may go wrong while writing, deleting and reading. What every storage promises is that
  what it says is true: a call that succeeds has done or read what it should, one that fails has done
  it or nothing, and a file that is said to be missing is.\<close>

locale document_storage =
  fixes put :: "'f \<Rightarrow> time \<Rightarrow> string \<Rightarrow> string \<Rightarrow> 's \<Rightarrow> storage_error option \<times> 's"
    and get :: "'h \<Rightarrow> string \<Rightarrow> 's \<Rightarrow> storage_error + handle"
    and stat :: "'h \<Rightarrow> string \<Rightarrow> 's \<Rightarrow> storage_error + storageInfo"
    and get_range :: "'h \<Rightarrow> string \<Rightarrow> int \<Rightarrow> int \<Rightarrow> 's \<Rightarrow> storage_error + handle"
    and delete :: "'g \<Rightarrow> string \<Rightarrow> 's \<Rightarrow> storage_error option \<times> 's"
    and list_objects :: "'h \<Rightarrow> string \<Rightarrow> 's \<Rightarrow> storage_error + storageObject list"
    and content :: "'s \<Rightarrow> string \<Rightarrow> (string \<times> time) option"
    and invar :: "'s \<Rightarrow> bool"
  assumes put_done: "invar s \<Longrightarrow> document_key k \<Longrightarrow> put f now k src s = (None, s') \<Longrightarrow>
      invar s' \<and> content s' = (content s)(k \<mapsto> (src, now))"
    and put_stopped: "invar s \<Longrightarrow> document_key k \<Longrightarrow> put f now k src s = (Some e, s') \<Longrightarrow>
      invar s' \<and> (content s' = content s \<or> content s' = (content s)(k \<mapsto> (src, now)))"
    and delete_done: "invar s \<Longrightarrow> document_key k \<Longrightarrow> delete g k s = (None, s') \<Longrightarrow>
      invar s' \<and> content s' = (content s)(k := None)"
    and delete_failed: "invar s \<Longrightarrow> document_key k \<Longrightarrow> delete g k s = (Some e, s') \<Longrightarrow>
      invar s' \<and> (content s' = content s \<or> content s' = (content s)(k := None))"
    and get_true: "invar s \<Longrightarrow> document_key k \<Longrightarrow> get h k s = Inr (Readable c) \<Longrightarrow> \<exists>t. content s k = Some (c, t)"
    and get_missing: "invar s \<Longrightarrow> document_key k \<Longrightarrow> get h k s = Inl ErrStorageNotFound \<Longrightarrow> content s k = None"
    and stat_true: "invar s \<Longrightarrow> document_key k \<Longrightarrow> stat h k s = Inr info \<Longrightarrow>
      \<exists>c. content s k = Some (c, si_LastModified info) \<and> si_Size info = int (length c)"
    and stat_missing: "invar s \<Longrightarrow> document_key k \<Longrightarrow> stat h k s = Inl ErrStorageNotFound \<Longrightarrow> content s k = None"
    and range_true: "invar s \<Longrightarrow> document_key k \<Longrightarrow> 0 \<le> start \<Longrightarrow> start \<le> stop \<Longrightarrow> get_range h k start stop s = Inr (Readable b) \<Longrightarrow>
      \<exists>c t. content s k = Some (c, t) \<and> b = take (nat (stop - start + 1)) (drop (nat start) c)"
    and list_plain: "invar s \<Longrightarrow> list_objects h ''documents/'' s = Inr xs \<Longrightarrow> x \<in> set xs \<Longrightarrow>
      Split CHR ''/'' (so_Key x) = [''documents'', i, ''original.pdf''] \<Longrightarrow> plain_name i"
    and list_content: "invar s \<Longrightarrow> document_key k \<Longrightarrow> list_objects h ''documents/'' s = Inr xs \<Longrightarrow>
      \<lparr>so_Key = k, so_LastModified = t\<rparr> \<in> set xs \<longleftrightarrow> (\<exists>c. content s k = Some (c, t))"
begin

text \<open>Other files are not touched, whether a call succeeds or not, and what was put is what is read.\<close>

lemma put_other:
  assumes "invar s" "document_key k" "k' \<noteq> k" "put f now k src s = (e, s')"
  shows "invar s' \<and> content s' k' = content s k'"
  using put_done [OF assms(1,2)] put_stopped [OF assms(1,2)] assms(3,4) by (cases e) fastforce+

lemma delete_other:
  assumes "invar s" "document_key k" "k' \<noteq> k" "delete g k s = (e, s')"
  shows "invar s' \<and> content s' k' = content s k'"
  using delete_done [OF assms(1,2)] delete_failed [OF assms(1,2)] assms(3,4) by (cases e) fastforce+

lemma put_get:
  assumes "invar s" "document_key k" "put f now k src s = (None, s')" "get h k s' = Inr (Readable c)"
  shows "c = src"
  using put_done [OF assms(1-3)] get_true [OF _ assms(2,4)] by auto

end

text \<open>A storage at hand also answers every question, and a failed \<open>Put\<close> has changed nothing.\<close>

locale local_storage = document_storage put get stat get_range delete list_objects content invar
  for put :: "'f \<Rightarrow> time \<Rightarrow> string \<Rightarrow> string \<Rightarrow> 's \<Rightarrow> storage_error option \<times> 's"
    and get :: "'h \<Rightarrow> string \<Rightarrow> 's \<Rightarrow> storage_error + handle"
    and stat :: "'h \<Rightarrow> string \<Rightarrow> 's \<Rightarrow> storage_error + storageInfo"
    and get_range :: "'h \<Rightarrow> string \<Rightarrow> int \<Rightarrow> int \<Rightarrow> 's \<Rightarrow> storage_error + handle"
    and delete :: "'g \<Rightarrow> string \<Rightarrow> 's \<Rightarrow> storage_error option \<times> 's"
    and list_objects :: "'h \<Rightarrow> string \<Rightarrow> 's \<Rightarrow> storage_error + storageObject list"
    and content :: "'s \<Rightarrow> string \<Rightarrow> (string \<times> time) option"
    and invar :: "'s \<Rightarrow> bool" +
  assumes put_failed: "invar s \<Longrightarrow> document_key k \<Longrightarrow> put f now k src s = (Some e, s') \<Longrightarrow> content s' = content s"
    and get_content: "invar s \<Longrightarrow> document_key k \<Longrightarrow>
      get h k s = (case content s k of None \<Rightarrow> Inl ErrStorageNotFound | Some (c, t) \<Rightarrow> Inr (Readable c))"
    and stat_content: "invar s \<Longrightarrow> document_key k \<Longrightarrow>
      stat h k s = (case content s k of None \<Rightarrow> Inl ErrStorageNotFound
        | Some (c, t) \<Rightarrow> Inr \<lparr>si_Size = int (length c), si_LastModified = t\<rparr>)"
    and range_content: "invar s \<Longrightarrow> document_key k \<Longrightarrow> content s k = Some (c, t) \<Longrightarrow> 0 \<le> start \<Longrightarrow>
      get_range h k start stop s = Inr (Readable (take (nat (stop - start + 1)) (drop (nat start) c)))"
begin

lemma put_reads_back: "invar s \<Longrightarrow> document_key k \<Longrightarrow> put f now k src s = (None, s') \<Longrightarrow> get h k s' = Inr (Readable src)"
  using put_done get_content by fastforce

lemma put_leaves_others:
  assumes "invar s" "document_key k" "document_key k'" "k' \<noteq> k" "put f now k src s = (e, s')"
  shows "get h k' s' = get h k' s \<and> stat h k' s' = stat h k' s"
  using put_other [OF assms(1,2,4,5)] assms(1,3) by (simp add: get_content stat_content)

end

section \<open>The file system storage meets the contract\<close>

lemma storedPath_Split: "plain_name i \<Longrightarrow> Split CHR ''/'' (storedPath i) = [''documents'', i, ''original.pdf'']"
  using Split_append [of "CHR ''/''" "''documents''" "i @ ''/original.pdf''"] Split_append [of "CHR ''/''" i "''original.pdf''"]
  by (simp add: storedPath_def Split_none plain_name_def)

lemma document_key_storedPath: "plain_name i \<Longrightarrow> document_key (storedPath i)"
  by (simp add: document_key_def storedPath_Split)

lemma Split_concat: "slash_join (Split CHR ''/'' s) = s"
proof -
  have step: "slash_join (w # ws) = w @ concat (map (\<lambda>c. CHR ''/'' # c) ws)" for w ws
  proof -
    have "concat (map (\<lambda>(i, c). if i = 0 then c else CHR ''/'' # c) (enumerate (Suc n) ws)) = concat (map (\<lambda>c. CHR ''/'' # c) ws)" for n
      by (induction ws arbitrary: n) auto
    then show ?thesis by (simp add: slash_join_def)
  qed
  show ?thesis
  proof (induction s)
    case (Cons c s)
    obtain w ws where w: "Split CHR ''/'' s = w # ws" using Split_nonempty [of "CHR ''/''" s] by (cases "Split CHR ''/'' s") auto
    with Cons step [of w ws] show ?case by (simp add: step del: Split_nonempty)
  qed (simp add: slash_join_def)
qed

lemma document_key_iff: "document_key key \<longleftrightarrow> (\<exists>i. plain_name i \<and> key = storedPath i)"
proof
  assume "document_key key"
  then obtain i where i: "Split CHR ''/'' key = [''documents'', i, ''original.pdf'']" "plain_name i"
    by (auto simp: document_key_def split: list.splits)
  then have "slash_join [''documents'', i, ''original.pdf''] = key" using Split_concat [of key] by simp
  with i(2) show "\<exists>i. plain_name i \<and> key = storedPath i" by (auto simp: slash_join_def storedPath_def)
next
  assume "\<exists>i. plain_name i \<and> key = storedPath i"
  then show "document_key key" using document_key_storedPath by blast
qed

lemma storedPath_inj: "storedPath i = storedPath j \<longleftrightarrow> i = j"
  by (simp add: storedPath_def)

lemma storage_path_document:
  assumes "plain_name i"
  shows "storage_path s (storedPath i) = fs_root s @ [''documents'', i, ''original.pdf'']"
proof -
  have "Split CHR ''/'' (CHR ''/'' # storedPath i) = [[], ''documents'', i, ''original.pdf'']"
    using storedPath_Split [OF assms] by simp
  with assms show ?thesis by (simp add: storage_path_def clean_rooted_def clean_step_def plain_name_def)
qed

lemma clean_step_components:
  "list_all plain_name cs \<Longrightarrow> CHR ''/'' \<notin> set d \<Longrightarrow> list_all plain_name (clean_step cs d)"
  unfolding clean_step_def by (auto simp: list_all_iff plain_name_def dest: in_set_butlastD)

lemma clean_fold_components:
  "list_all plain_name cs \<Longrightarrow> \<forall>d \<in> set ds. CHR ''/'' \<notin> set d \<Longrightarrow> list_all plain_name (foldl clean_step cs ds)"
  by (induction ds arbitrary: cs) (simp_all add: clean_step_components)

lemma Split_components: "c \<in> set (Split sep t) \<Longrightarrow> sep \<notin> set c"
  by (induction t arbitrary: c) (auto split: if_splits list.splits)

text \<open>No key leads out of the storage: whatever dots and slashes a key has, its path lies below
  the root directory, and no component it adds is empty, a dot or two dots.\<close>

theorem storage_confined:
  "prefix (fs_root s) (storage_path s key) \<and>
   list_all plain_name (drop (length (fs_root s)) (storage_path s key))"
  unfolding storage_path_def clean_rooted_def
  using clean_fold_components [of "[]" "Split CHR ''/'' (CHR ''/'' # key)"] Split_components by simp

end
