(* ===== verification/File_Storage.thy ===== *)
theory File_Storage
  imports Storage
begin

text \<open>
  \<open>filesystemStorage\<close> of \<open>Storage\<close> meets the contract \<open>local_storage\<close>, and its \<^verbatim>\<open>Put\<close> is atomic:
  at no point of its run is a half-written document visible.
\<close>

section \<open>Nodes\<close>

lemma node_at_set [simp]:
  "node_at (set_node p n fs) q = (if q = [] then Some Directory else if q = p then Some n else node_at fs q)"
proof -
  have "map_of (filter (\<lambda>x. fst x \<noteq> p) fs) q = map_of fs q" if "q \<noteq> p"
    using that by (induction fs) auto
  then show ?thesis by (auto simp: node_at_def set_node_def)
qed

lemma node_at_remove [simp]: "node_at (remove_node p fs) q = (if q = p \<and> q \<noteq> [] then None else node_at fs q)"
proof -
  have "map_of (filter (\<lambda>x. fst x \<noteq> p) fs) q = (if q = p then None else map_of fs q)"
    by (induction fs) auto
  then show ?thesis by (auto simp: node_at_def remove_node_def)
qed

definition paths_ok :: "filesystem \<Rightarrow> bool" where
  "paths_ok fs \<longleftrightarrow> distinct (map fst fs) \<and> (\<forall>p \<in> set (map fst fs). \<forall>c \<in> set p. plain_name c)"

lemma paths_ok_filter: "paths_ok fs \<Longrightarrow> paths_ok (filter P fs)"
  by (auto simp: paths_ok_def distinct_map_filter)

lemma paths_ok_remove: "paths_ok fs \<Longrightarrow> paths_ok (remove_node p fs)"
  by (simp add: remove_node_def paths_ok_filter)

lemma paths_ok_set: "paths_ok fs \<Longrightarrow> \<forall>c \<in> set p. plain_name c \<Longrightarrow> paths_ok (set_node p n fs)"
  using paths_ok_filter [of fs "\<lambda>x. fst x \<noteq> p"] by (auto simp: paths_ok_def set_node_def)

lemma paths_ok_set_remove: "paths_ok (remove_node p fs) \<Longrightarrow> paths_ok (remove_node p (set_node p n fs))"
  by (simp add: remove_node_def set_node_def)

lemma node_at_root [simp]: "node_at fs [] = Some Directory"
  by (simp add: node_at_def)

lemma node_at_None: "node_at fs p = None \<Longrightarrow> p \<noteq> []"
  by (auto simp: node_at_def)

lemma make_dirs_nodes:
  "make_dirs ps fs = (e, fs') \<Longrightarrow>
     node_at fs' q = node_at fs q \<or> q \<in> set ps \<and> node_at fs q = None \<and> node_at fs' q = Some Directory"
proof (induction ps fs rule: make_dirs.induct)
  case (2 p ps fs)
  show ?case
  proof (cases "node_at fs p")
    case None
    with "2.prems" have "make_dirs ps (set_node p Directory fs) = (e, fs')" by simp
    from "2.IH"(1) [OF None this] node_at_None [OF None] None show ?thesis
      by (cases "q = p") (auto split: if_splits)
  next
    case (Some n)
    with "2.IH"(2) [of n] "2.prems" show ?thesis by (cases n) auto
  qed
qed auto

lemma make_dirs_paths:
  "make_dirs ps fs = (e, fs') \<Longrightarrow> paths_ok fs \<Longrightarrow> \<forall>p \<in> set ps. \<forall>c \<in> set p. plain_name c \<Longrightarrow> paths_ok fs'"
proof (induction ps fs rule: make_dirs.induct)
  case (2 p ps fs)
  then show ?case
    by (cases "node_at fs p") (auto simp: paths_ok_set split: node.splits)
qed simp

lemma make_dirs_done:
  "make_dirs ps fs = (e, fs') \<Longrightarrow> \<forall>p \<in> set ps. \<forall>c t. node_at fs p \<noteq> Some (File c t) \<Longrightarrow> e = None"
proof (induction ps fs rule: make_dirs.induct)
  case (2 p ps fs)
  show ?case
  proof (cases "node_at fs p")
    case None
    with "2.prems" have "make_dirs ps (set_node p Directory fs) = (e, fs')" by simp
    moreover have "\<forall>q \<in> set ps. \<forall>c t. node_at (set_node p Directory fs) q \<noteq> Some (File c t)"
      using "2.prems"(2) by simp
    ultimately show ?thesis by (rule "2.IH"(1) [OF None])
  next
    case (Some n)
    with "2.IH"(2) [of n] "2.prems" show ?thesis by (cases n) auto
  qed
qed simp

section \<open>The documents of a file system\<close>

abbreviation document_dir :: "filesystemStorage \<Rightarrow> string \<Rightarrow> path" where
  "document_dir s i \<equiv> fs_root s @ [''documents'', i]"

abbreviation document_path :: "filesystemStorage \<Rightarrow> string \<Rightarrow> path" where
  "document_path s i \<equiv> fs_root s @ [''documents'', i, ''original.pdf'']"

definition fs_ok :: "filesystemStorage \<Rightarrow> filesystem \<Rightarrow> bool" where
  "fs_ok s fs \<longleftrightarrow> paths_ok fs \<and> (\<forall>c \<in> set (fs_root s). plain_name c) \<and>
     (\<forall>i. plain_name i \<longrightarrow>
        (\<forall>q \<in> set (prefixes (document_dir s i)). \<forall>c t. node_at fs q \<noteq> Some (File c t)) \<and>
        node_at fs (document_path s i) \<noteq> Some Directory)"

definition fs_content :: "filesystemStorage \<Rightarrow> filesystem \<Rightarrow> string \<Rightarrow> (string \<times> time) option" where
  "fs_content s fs k =
     (if document_key k then (case node_at fs (storage_path s k) of Some (File c t) \<Rightarrow> Some (c, t) | _ \<Rightarrow> None) else None)"

lemma fs_content_document:
  "plain_name i \<Longrightarrow> fs_content s fs (storedPath i) =
     (case node_at fs (document_path s i) of Some (File c t) \<Rightarrow> Some (c, t) | _ \<Rightarrow> None)"
  by (simp add: fs_content_def document_key_storedPath storage_path_document)

lemma fs_content_cong:
  assumes "\<And>i. plain_name i \<Longrightarrow> node_at fs' (document_path s i) = node_at fs (document_path s i)"
  shows "fs_content s fs' = fs_content s fs"
proof
  fix k
  show "fs_content s fs' k = fs_content s fs k"
  proof (cases "document_key k")
    case True
    then obtain i where "plain_name i" "k = storedPath i" by (auto simp: document_key_iff)
    with assms [of i] show ?thesis by (simp add: fs_content_document)
  qed (simp add: fs_content_def)
qed

lemma fs_content_upd:
  assumes "plain_name i"
    and "\<And>j. plain_name j \<Longrightarrow> j \<noteq> i \<Longrightarrow> node_at fs' (document_path s j) = node_at fs (document_path s j)"
  shows "fs_content s fs' = (fs_content s fs)(storedPath i := fs_content s fs' (storedPath i))"
proof
  fix k
  show "fs_content s fs' k = ((fs_content s fs)(storedPath i := fs_content s fs' (storedPath i))) k"
  proof (cases "document_key k")
    case True
    then obtain j where "plain_name j" "k = storedPath j" by (auto simp: document_key_iff)
    with assms show ?thesis by (cases "j = i") (simp_all add: fs_content_document storedPath_inj)
  qed (use assms(1) in \<open>auto simp: fs_content_def document_key_storedPath\<close>)
qed

lemma dir_prefix_length: "q \<in> set (prefixes (document_dir s i)) \<Longrightarrow> length q \<le> length (fs_root s) + 2"
  by (auto dest: prefix_length_le)

text \<open>Changing directories on the way to a document, or any node that is neither on the way to one nor
  one, keeps the documents.\<close>

lemma fs_ok_step:
  assumes "fs_ok s fs" "paths_ok fs'"
    and "\<And>q. node_at fs' q \<noteq> node_at fs q \<Longrightarrow> node_at fs' q = None \<or>
      node_at fs' q = Some Directory \<and> length q \<le> length (fs_root s) + 2 \<or>
      length q = length (fs_root s) + 3 \<and> node_at fs' q \<noteq> Some Directory"
  shows "fs_ok s fs'"
proof -
  have "node_at fs' q \<noteq> Some (File c t)" if "plain_name i" "q \<in> set (prefixes (document_dir s i))" for i q c t
    using assms(1) assms(3) [of q] dir_prefix_length [OF that(2)] that
    by (cases "node_at fs' q = node_at fs q") (auto simp: fs_ok_def)
  moreover have "node_at fs' (document_path s i) \<noteq> Some Directory" if "plain_name i" for i
    using assms(1) assms(3) [of "document_path s i"] that by (auto simp: fs_ok_def)
  ultimately show ?thesis using assms(1,2) by (simp add: fs_ok_def)
qed

section \<open>Put\<close>

definition temp_path :: "filesystemStorage \<Rightarrow> string \<Rightarrow> string \<Rightarrow> path" where
  "temp_path s i random = document_dir s i @ [''.upload-'' @ random]"

lemma temp_path_facts [simp]:
  "document_path s j \<noteq> temp_path s i random" "temp_path s i random \<noteq> document_path s j" "temp_path s i random \<noteq> []"
  "length (temp_path s i random) = length (fs_root s) + 3"
  by (simp_all add: temp_path_def)

lemma butlast_document: "butlast (document_path s i) = document_dir s i"
  by (simp add: butlast_append)

lemma slash_free_prefixes:
  assumes "fs_ok s fs" "plain_name i"
  shows "\<forall>p \<in> set (prefixes (document_dir s i)). \<forall>c \<in> set p. plain_name c"
proof -
  have "\<forall>c \<in> set (document_dir s i). plain_name c" using assms by (auto simp: fs_ok_def plain_name_def)
  moreover have "set p \<subseteq> set (document_dir s i)" if "p \<in> set (prefixes (document_dir s i))" for p
    using that set_mono_prefix by (metis in_set_prefixes)
  ultimately show ?thesis by blast
qed

lemma MkdirAll_document:
  assumes "fs_ok s fs" "plain_name i" "MkdirAll (document_dir s i) fs = (e, fs1)"
  shows "e = None" "fs_ok s fs1" "fs_content s fs1 = fs_content s fs"
proof -
  from assms(3) have mk: "make_dirs (prefixes (document_dir s i)) fs = (e, fs1)" by (simp add: MkdirAll_def)
  show "e = None" by (rule make_dirs_done [OF mk]) (use assms(1,2) in \<open>auto simp: fs_ok_def\<close>)
  have paths: "paths_ok fs1"
    using make_dirs_paths [OF mk _ slash_free_prefixes [OF assms(1,2)]] assms(1) by (simp add: fs_ok_def)
  show "fs_ok s fs1"
  proof (rule fs_ok_step [OF assms(1) paths])
    fix q
    assume "node_at fs1 q \<noteq> node_at fs q"
    with make_dirs_nodes [OF mk, of q] dir_prefix_length [of q s i]
    show "node_at fs1 q = None \<or> node_at fs1 q = Some Directory \<and> length q \<le> length (fs_root s) + 2 \<or>
      length q = length (fs_root s) + 3 \<and> node_at fs1 q \<noteq> Some Directory" by blast
  qed
  have "document_path s j \<notin> set (prefixes (document_dir s i))" for j
    using dir_prefix_length [of "document_path s j" s i] by auto
  with make_dirs_nodes [OF mk] show "fs_content s fs1 = fs_content s fs" by (intro fs_content_cong) blast
qed

text \<open>The three ways a \<^verbatim>\<open>Put\<close> can go.\<close>

lemma put_trace_cases:
  assumes "plain_name i" "MkdirAll (document_dir s i) fs = (None, fs1)"
    and "put_trace s fault random now (storedPath i) source fs = (e, states)"
  obtains (refused) "e = Some ErrStorage" "states = [fs1]"
  | (broken) x fs3 where "e = Some ErrStorage"
      "fs3 = set_node (temp_path s i random) (File x now) (set_node (temp_path s i random) (File [] now) fs1)"
      "states = [fs1, set_node (temp_path s i random) (File [] now) fs1, fs3, remove_node (temp_path s i random) fs3]"
  | (stored) fs3 fs4 where "e = None"
      "fs3 = set_node (temp_path s i random) (File source now) (set_node (temp_path s i random) (File [] now) fs1)"
      "fs4 = set_node (document_path s i) (File source now) (remove_node (temp_path s i random) fs3)"
      "states = [fs1, set_node (temp_path s i random) (File [] now) fs1, fs3, fs4, remove_node (temp_path s i random) fs4]"
proof -
  note def = temp_path_def [symmetric] put_trace_def storage_path_document [OF assms(1)] butlast_document assms(2) Let_def prod.case
  show thesis
  proof (cases "fault = FailMkdir \<or> fault = FailCreate \<or> node_at fs1 (temp_path s i random) \<noteq> None")
    case True
    with assms(3) refused show thesis unfolding def by (auto split: if_splits)
  next
    case False
    show thesis
    proof (cases "e = None")
      case True
      with assms(3) False stored [OF _ refl refl] show thesis
        unfolding def by (cases fault) (simp_all split: if_splits)
    next
      case error: False
      show thesis
      proof (cases fault)
        case (FailCopy n)
        with assms(3) False broken [of _ "take n source", OF _ refl] show thesis unfolding def by simp
      qed (use assms(3) False error broken [of _ source, OF _ refl] in \<open>unfold def, simp_all split: if_splits\<close>)
    qed
  qed
qed

text \<open>Every state a \<^verbatim>\<open>Put\<close> passes through shows either the old documents or the new one, and the
  last one is in order.\<close>

lemma put_states:
  assumes ok: "fs_ok s fs" and i: "plain_name i" and r: "CHR ''/'' \<notin> set random"
    and put: "put_trace s fault random now (storedPath i) source fs = (e, states)"
  shows "states \<noteq> []" "fs_ok s (last states)"
    "\<forall>fs' \<in> set states. fs_content s fs' = fs_content s fs \<or>
      e = None \<and> fs_content s fs' = (fs_content s fs)(storedPath i \<mapsto> (source, now))"
    "fs_content s (last states) = (if e = None then (fs_content s fs)(storedPath i \<mapsto> (source, now)) else fs_content s fs)"
proof -
  let ?t = "temp_path s i random" and ?p = "document_path s i"
  obtain e0 fs1 where mk: "MkdirAll (document_dir s i) fs = (e0, fs1)" by force
  note fs1 = MkdirAll_document [OF ok i mk]
  have same: "fs_content s (set_node ?t n f) = fs_content s f" "fs_content s (remove_node ?t f) = fs_content s f" for n f
    by (rule fs_content_cong; simp)+
  have removed: "fs_ok s (remove_node ?t f)" if "paths_ok (remove_node ?t f)" "\<And>q. q \<noteq> ?t \<Longrightarrow> node_at f q = node_at fs1 q" for f
    by (rule fs_ok_step [OF fs1(2) that(1)]) (use that(2) in \<open>auto split: if_splits\<close>)
  have slash: "\<forall>c \<in> set ?p. plain_name c" using ok i by (auto simp: fs_ok_def plain_name_def)
  have paths: "paths_ok (remove_node ?t (set_node ?t n (set_node ?t n' fs1)))" "paths_ok (remove_node ?t (set_node ?t n fs1))" for n n'
    using fs1(2) by (simp_all add: fs_ok_def set_node_def remove_node_def paths_ok_filter)
  have paths4: "paths_ok (remove_node ?t (set_node ?p m (remove_node ?t (set_node ?t n (set_node ?t n' fs1)))))" for m n n'
    by (intro paths_ok_remove paths_ok_set paths slash)
  have ok4: "fs_ok s (remove_node ?t (set_node ?p (File source now) (remove_node ?t (set_node ?t n (set_node ?t n' fs1)))))" for n n'
    by (rule fs_ok_step [OF fs1(2) paths4]) (auto split: if_splits)
  have content4: "fs_content s (set_node ?p (File source now) f) = (fs_content s f)(storedPath i \<mapsto> (source, now))" for f
    by (subst fs_content_upd [OF i, of _ s f]) (use i in \<open>auto simp: fs_content_document\<close>)
  have mk': "MkdirAll (document_dir s i) fs = (None, fs1)" using mk fs1(1) by simp
  from i mk' put show "states \<noteq> []" by (cases rule: put_trace_cases) simp_all
  from i mk' put show "fs_ok s (last states)"
    by (cases rule: put_trace_cases) (use fs1(2) in \<open>simp_all add: ok4 removed paths\<close>)
  from i mk' put show "\<forall>fs' \<in> set states. fs_content s fs' = fs_content s fs \<or>
      e = None \<and> fs_content s fs' = (fs_content s fs)(storedPath i \<mapsto> (source, now))"
    by (cases rule: put_trace_cases) (simp_all add: same content4 fs1(3))
  from i mk' put
  show "fs_content s (last states) = (if e = None then (fs_content s fs)(storedPath i \<mapsto> (source, now)) else fs_content s fs)"
    by (cases rule: put_trace_cases) (simp_all add: same content4 fs1(3))
qed

text \<open>All of them are in order too, so that the next call starts well after a crash.\<close>

lemma fs_ok_writes:
  assumes "fs_ok s fs" "\<forall>c \<in> set p. plain_name c" "length p = length (fs_root s) + 3"
  shows "fs_ok s (set_node p (File x t) fs)" "fs_ok s (remove_node p fs)"
proof -
  have paths: "paths_ok fs" using assms(1) by (simp add: fs_ok_def)
  show "fs_ok s (set_node p (File x t) fs)"
    by (rule fs_ok_step [OF assms(1) paths_ok_set [OF paths assms(2)]]) (use assms(3) in \<open>auto split: if_splits\<close>)
  show "fs_ok s (remove_node p fs)"
    by (rule fs_ok_step [OF assms(1) paths_ok_remove [OF paths]]) (auto split: if_splits)
qed

lemma put_states_ok:
  assumes ok: "fs_ok s fs" and i: "plain_name i" and r: "CHR ''/'' \<notin> set random"
    and put: "put_trace s fault random now (storedPath i) source fs = (e, states)"
  shows "\<forall>fs' \<in> set states. fs_ok s fs'"
proof -
  obtain e0 fs1 where mk: "MkdirAll (document_dir s i) fs = (e0, fs1)" by force
  note fs1 = MkdirAll_document [OF ok i mk]
  have plain: "\<forall>c \<in> set (document_path s i). plain_name c" "\<forall>c \<in> set (temp_path s i random). plain_name c"
    using ok i r by (auto simp: fs_ok_def plain_name_def temp_path_def)
  note writes = fs_ok_writes [OF _ plain(1)] fs_ok_writes [OF _ plain(2)]
  have mk': "MkdirAll (document_dir s i) fs = (None, fs1)" using mk fs1(1) by simp
  from i mk' put show ?thesis
    by (cases rule: put_trace_cases) (use fs1(2) in \<open>simp_all add: writes\<close>)
qed

text \<open>C28: storing a file is atomic. In every state of the file system between two system calls of a
  \<^verbatim>\<open>Put\<close>, and so after a crash at any point, each document's file reads as before or, for the key
  that is written, completely as the new one; when the call reports an error, wherever it failed, all
  files are as before, and when it does not, exactly this file has changed.\<close>

theorem put_atomic:
  assumes "fs_ok s fs" and "plain_name i" and "CHR ''/'' \<notin> set random"
    and "put_trace s fault random now (storedPath i) source fs = (e, states)"
  shows "(\<forall>fs' \<in> set states. \<forall>j. fs_content s fs' (storedPath j) = fs_content s fs (storedPath j) \<or>
      j = i \<and> fs_content s fs' (storedPath j) = Some (source, now)) \<and>
    (\<forall>j. fs_content s (last states) (storedPath j) =
      (if e = None \<and> j = i then Some (source, now) else fs_content s fs (storedPath j)))"
proof -
  note states = put_states [OF assms]
  from states(3) have "\<forall>fs' \<in> set states. \<forall>j. fs_content s fs' (storedPath j) = fs_content s fs (storedPath j) \<or>
      j = i \<and> fs_content s fs' (storedPath j) = Some (source, now)"
    by (metis fun_upd_apply storedPath_inj)
  with states(4) show ?thesis by (cases e) (simp_all add: storedPath_inj)
qed

section \<open>Delete\<close>

lemma RemoveAll_nodes:
  assumes "RemoveAll stuck p fs = (e, fs')"
  shows "paths_ok fs \<Longrightarrow> paths_ok fs'" "node_at fs' q = node_at fs q \<or> prefix p q \<and> node_at fs' q = None"
    "e = None \<Longrightarrow> prefix p q \<Longrightarrow> q \<noteq> [] \<Longrightarrow> node_at fs' q = None"
proof -
  define kept where "kept = filter (\<lambda>q. prefix p q \<and> stuck q) (map fst fs)"
  have fs': "fs' = filter (\<lambda>x. prefix p (fst x) \<longrightarrow> list_ex (\<lambda>q. prefix (fst x) q) kept) fs"
    "e = (if kept = [] then None else Some ErrStorage)"
    using assms by (simp_all add: RemoveAll_def kept_def Let_def)
  have "map_of (filter (\<lambda>x. P (fst x)) fs) q = (if P q then map_of fs q else None)" for P
    by (induction fs) auto
  note lookup = this [of "\<lambda>x. prefix p x \<longrightarrow> list_ex (\<lambda>q. prefix x q) kept"]
  show "paths_ok fs \<Longrightarrow> paths_ok fs'" by (simp add: fs' paths_ok_filter)
  show "node_at fs' q = node_at fs q \<or> prefix p q \<and> node_at fs' q = None"
    by (auto simp: fs' node_at_def lookup)
  show "e = None \<Longrightarrow> prefix p q \<Longrightarrow> q \<noteq> [] \<Longrightarrow> node_at fs' q = None"
    by (simp add: fs' node_at_def lookup split: if_splits)
qed

lemma delete_document:
  assumes ok: "fs_ok s fs" and i: "plain_name i" and call: "storage_Delete s stuck (storedPath i) fs = (e, fs')"
  shows "fs_ok s fs'"
    "fs_content s fs' = fs_content s fs \<or> fs_content s fs' = (fs_content s fs)(storedPath i := None)"
    "e = None \<Longrightarrow> fs_content s fs' = (fs_content s fs)(storedPath i := None)"
proof -
  from call have rm: "RemoveAll stuck (document_dir s i) fs = (e, fs')"
    by (simp add: storage_Delete_def storage_path_document [OF i] butlast_document)
  note nodes = RemoveAll_nodes [OF rm]
  have "paths_ok fs'" using nodes(1) ok by (simp add: fs_ok_def)
  from fs_ok_step [OF ok this] nodes(2) show "fs_ok s fs'" by blast
  have other: "node_at fs' (document_path s j) = node_at fs (document_path s j)" if "j \<noteq> i" for j
    using nodes(2) [of "document_path s j"] that by auto
  have eq: "fs_content s fs' = (fs_content s fs)(storedPath i := fs_content s fs' (storedPath i))"
    using fs_content_upd [OF i] other by blast
  moreover have "fs_content s fs' (storedPath i) = fs_content s fs (storedPath i) \<or> fs_content s fs' (storedPath i) = None"
    using nodes(2) [of "document_path s i"] i by (auto simp: fs_content_document)
  ultimately show "fs_content s fs' = fs_content s fs \<or> fs_content s fs' = (fs_content s fs)(storedPath i := None)"
    by (metis fun_upd_triv)
  show "fs_content s fs' = (fs_content s fs)(storedPath i := None)" if "e = None"
    using eq nodes(3) [OF that, of "document_path s i"] i by (simp add: fs_content_document)
qed

section \<open>List\<close>

lemma slash_join_Cons: "slash_join (w # ws) = w @ concat (map (\<lambda>c. CHR ''/'' # c) ws)"
proof -
  have "concat (map (\<lambda>(i, c). if i = 0 then c else CHR ''/'' # c) (enumerate (Suc n) ws)) = concat (map (\<lambda>c. CHR ''/'' # c) ws)" for n
    by (induction ws arbitrary: n) auto
  then show ?thesis by (simp add: slash_join_def)
qed

lemma Split_slash_join:
  "ws \<noteq> [] \<Longrightarrow> \<forall>c \<in> set ws. CHR ''/'' \<notin> set c \<Longrightarrow> Split CHR ''/'' (slash_join ws) = ws"
proof (induction ws)
  case (Cons w ws)
  show ?case
  proof (cases ws)
    case Nil
    with Cons.prems show ?thesis by (simp add: slash_join_Cons Split_none)
  next
    case (Cons v vs)
    then have "slash_join (w # ws) = w @ CHR ''/'' # slash_join ws" by (simp add: slash_join_Cons)
    with Cons.IH Cons.prems Cons show ?thesis by (simp add: Split_append Split_none)
  qed
qed simp

lemma in_storage_List:
  "\<lparr>so_Key = k, so_LastModified = t\<rparr> \<in> set (storage_List s key_prefix fs) \<longleftrightarrow>
    (\<exists>p \<in> set (map fst fs). prefix (storage_path s key_prefix) p \<and> (\<exists>c. node_at fs p = Some (File c t)) \<and>
      slash_join (drop (length (fs_root s)) p) = k)"
proof -
  have "\<lparr>so_Key = k, so_LastModified = t\<rparr> \<in> set (case node_at fs p of Some (File _ modified) \<Rightarrow>
        [\<lparr>so_Key = slash_join (drop (length (fs_root s)) p), so_LastModified = modified\<rparr>] | _ \<Rightarrow> []) \<longleftrightarrow>
      (\<exists>c. node_at fs p = Some (File c t)) \<and> slash_join (drop (length (fs_root s)) p) = k" for p
  proof (cases "node_at fs p")
    case (Some n)
    then show ?thesis by (cases n) auto
  qed simp
  then show ?thesis by (auto simp: storage_List_def Let_def)
qed

lemma list_documents:
  assumes ok: "fs_ok s fs" and i: "plain_name i"
  shows "\<lparr>so_Key = storedPath i, so_LastModified = t\<rparr> \<in> set (storage_List s ''documents/'' fs) \<longleftrightarrow>
    (\<exists>c. fs_content s fs (storedPath i) = Some (c, t))"
proof -
  have dir: "storage_path s ''documents/'' = fs_root s @ [''documents'']"
    by (simp add: storage_path_def clean_rooted_def clean_step_def)
  have key: "slash_join (drop (length (fs_root s)) (document_path s i)) = storedPath i"
    by (simp add: slash_join_Cons storedPath_def)
  have only: "p = document_path s i" if "p \<in> set (map fst fs)" "prefix (fs_root s @ [''documents'']) p"
      "slash_join (drop (length (fs_root s)) p) = storedPath i" for p
  proof -
    from that(2) obtain ds where p: "p = fs_root s @ ''documents'' # ds" by (auto simp: prefix_def)
    have "\<forall>c \<in> set (''documents'' # ds). CHR ''/'' \<notin> set c"
      using ok that(1) p by (force simp: fs_ok_def paths_ok_def plain_name_def)
    from Split_slash_join [OF _ this] that(3) p storedPath_Split [OF i] show ?thesis by simp
  qed
  have listed: "p \<in> set (map fst fs)" if "node_at fs p = Some (File c t)" for p c
    using that by (force simp: node_at_def dest: map_of_SomeD split: if_splits)
  have content: "fs_content s fs (storedPath i) = Some (c, t) \<longleftrightarrow> node_at fs (document_path s i) = Some (File c t)" for c
    by (auto simp: fs_content_document [OF i] split: option.splits node.splits)
  show ?thesis
  proof
    assume "\<lparr>so_Key = storedPath i, so_LastModified = t\<rparr> \<in> set (storage_List s ''documents/'' fs)"
    with only content show "\<exists>c. fs_content s fs (storedPath i) = Some (c, t)" unfolding in_storage_List dir by metis
  next
    assume "\<exists>c. fs_content s fs (storedPath i) = Some (c, t)"
    then obtain c where c: "node_at fs (document_path s i) = Some (File c t)" using content by blast
    show "\<lparr>so_Key = storedPath i, so_LastModified = t\<rparr> \<in> set (storage_List s ''documents/'' fs)"
      unfolding in_storage_List dir
      by (rule bexI [OF _ listed [OF c]]) (use c key in simp)
  qed
qed

lemma listed_plain:
  assumes ok: "fs_ok s fs" and x: "x \<in> set (storage_List s ''documents/'' fs)"
    and key: "Split CHR ''/'' (so_Key x) = [''documents'', i, ''original.pdf'']"
  shows "plain_name i"
proof -
  obtain k t where k: "x = \<lparr>so_Key = k, so_LastModified = t\<rparr>" by (cases x) auto
  with x obtain p where p: "p \<in> set (map fst fs)" "prefix (storage_path s ''documents/'') p"
      "slash_join (drop (length (fs_root s)) p) = k" unfolding k in_storage_List by blast
  then obtain ds where ds: "p = fs_root s @ ''documents'' # ds"
    by (auto simp: storage_path_def clean_rooted_def clean_step_def prefix_def)
  have plain: "\<forall>c \<in> set (''documents'' # ds). plain_name c"
    using ok p(1) ds by (force simp: fs_ok_def paths_ok_def)
  then have "Split CHR ''/'' k = ''documents'' # ds"
    using Split_slash_join [of "''documents'' # ds"] p(3) ds by (simp add: plain_name_def)
  with key k plain show ?thesis by simp
qed

section \<open>The contract is met\<close>

lemma open_document:
  assumes "fs_ok s fs" "plain_name i"
  shows "open_node (document_path s i) fs = (case fs_content s fs (storedPath i) of
      None \<Rightarrow> Inl ErrStorageNotFound | Some (c, t) \<Rightarrow> Inr (File c t))"
proof (cases "node_at fs (document_path s i)")
  case None
  have "prefixes (document_path s i) = prefixes (document_dir s i) @ [document_path s i]"
    using prefixes_snoc [of "document_dir s i" "''original.pdf''"] by simp
  moreover have "\<not> (case node_at fs q of Some (File _ _) \<Rightarrow> True | _ \<Rightarrow> False)" if "q \<in> set (prefixes (document_dir s i))" for q
    using assms that by (auto simp: fs_ok_def split: option.split node.split)
  ultimately show ?thesis
    using None assms(2) by (auto simp: open_node_def fs_content_document list_ex_iff)
next
  case (Some n)
  with assms show ?thesis by (cases n) (auto simp: open_node_def fs_content_document fs_ok_def)
qed

text \<open>The random part of a temporary name has no slash.\<close>

definition fs_put :: "filesystemStorage \<Rightarrow> put_fault \<times> nat \<Rightarrow> time \<Rightarrow> string \<Rightarrow> string \<Rightarrow> filesystem \<Rightarrow> storage_error option \<times> filesystem" where
  "fs_put s f now key source fs = storage_Put s (fst f) (nat_digits (snd f)) now key source fs"

lemma nat_digits_slash: "CHR ''/'' \<notin> set (nat_digits n)"
  using nat_digits [of n] by (auto simp: list_all_iff is_digit_def)

lemma fs_put_result:
  assumes "fs_ok s fs" "document_key k" "fs_put s f now k source fs = (e, fs')"
  shows "fs_ok s fs' \<and> fs_content s fs' = (if e = None then (fs_content s fs)(k \<mapsto> (source, now)) else fs_content s fs)"
proof -
  obtain i where i: "plain_name i" "k = storedPath i" using assms(2) by (auto simp: document_key_iff)
  obtain states where tr: "put_trace s (fst f) (nat_digits (snd f)) now (storedPath i) source fs = (e, states)" "fs' = last states"
    using assms(3) by (auto simp: fs_put_def storage_Put_def i(2) split: prod.splits)
  from put_states [OF assms(1) i(1) nat_digits_slash tr(1)] tr(2) i(2) show ?thesis by simp
qed

text \<open>Walking the directories may fail on the way. What may vary from one reading call to the next is that, and what the
  file system says of a directory.\<close>

definition fs_List :: "filesystemStorage \<Rightarrow> bool \<Rightarrow> string \<Rightarrow> filesystem \<Rightarrow> storage_error + storageObject list" where
  "fs_List s walk_error key_prefix fs = (if walk_error then Inl ErrStorage else Inr (storage_List s key_prefix fs))"

lemma range_bytes_document:
  assumes "fs_ok s fs" "document_key k" "0 \<le> start"
  shows "storage_GetRange s k start stop fs = (case fs_content s fs k of None \<Rightarrow> Inl ErrStorageNotFound
    | Some (c, t) \<Rightarrow> Inr (Readable (take (nat (stop - start + 1)) (drop (nat start) c))))"
proof -
  from assms(2) obtain i where i: "plain_name i" "k = storedPath i" by (auto simp: document_key_iff)
  with assms(3) open_document [OF assms(1) i(1)] storage_path_document [OF i(1)] show ?thesis
    by (simp add: storage_GetRange_def storage_Get_def split: option.split prod.split)
qed

interpretation fs: local_storage "fs_put s" "\<lambda>_. storage_Get s" "\<lambda>h. storage_Stat s (fst h)" "\<lambda>_. storage_GetRange s"
    "storage_Delete s" "\<lambda>h. fs_List s (snd h)" "fs_content s" "fs_ok s"
  for s
proof unfold_locales
  fix fs fs' :: filesystem and k :: string
  assume ok: "fs_ok s fs" and "document_key k"
  then obtain i where i: "plain_name i" "k = storedPath i" by (auto simp: document_key_iff)
  note opened = open_document [OF ok i(1)] storage_path_document [OF i(1)]
  note put = fs_put_result [OF ok \<open>document_key k\<close>] and del = delete_document [OF ok i(1)]
  show "fs_ok s fs' \<and> fs_content s fs' = (fs_content s fs)(k \<mapsto> (src, now))" if "fs_put s f now k src fs = (None, fs')" for f now src
    using put [OF that] by simp
  show "fs_ok s fs' \<and> (fs_content s fs' = fs_content s fs \<or> fs_content s fs' = (fs_content s fs)(k \<mapsto> (src, now)))"
    and "fs_content s fs' = fs_content s fs"
    if "fs_put s f now k src fs = (Some e, fs')" for f now src e
    using put [OF that] by simp_all
  show "fs_ok s fs' \<and> fs_content s fs' = (fs_content s fs)(k := None)" if "storage_Delete s g k fs = (None, fs')" for g
    using del that i(2) by blast
  show "fs_ok s fs' \<and> (fs_content s fs' = fs_content s fs \<or> fs_content s fs' = (fs_content s fs)(k := None))"
    if "storage_Delete s g k fs = (Some e, fs')" for g e
    using del that i(2) by blast
  show get: "storage_Get s k fs = (case fs_content s fs k of None \<Rightarrow> Inl ErrStorageNotFound | Some (c, t) \<Rightarrow> Inr (Readable c))"
    by (simp add: storage_Get_def i(2) opened split: option.split prod.split)
  show stat: "storage_Stat s (fst h) k fs = (case fs_content s fs k of None \<Rightarrow> Inl ErrStorageNotFound
      | Some (c, t) \<Rightarrow> Inr \<lparr>si_Size = int (length c), si_LastModified = t\<rparr>)" for h :: "storageInfo \<times> bool"
    by (simp add: storage_Stat_def i(2) opened split: option.split prod.split)
  show "\<exists>t. fs_content s fs k = Some (c, t)" if "storage_Get s k fs = Inr (Readable c)" for c
    using that by (auto simp: get split: option.splits)
  show "fs_content s fs k = None" if "storage_Get s k fs = Inl ErrStorageNotFound"
    using that by (auto simp: get split: option.splits)
  show "\<exists>c. fs_content s fs k = Some (c, si_LastModified info) \<and> si_Size info = int (length c)"
    if "storage_Stat s (fst h) k fs = Inr info" for info and h :: "storageInfo \<times> bool"
    using that by (auto simp: stat split: option.splits)
  show "fs_content s fs k = None" if "storage_Stat s (fst h) k fs = Inl ErrStorageNotFound" for h :: "storageInfo \<times> bool"
    using that by (auto simp: stat split: option.splits)
  note bytes = range_bytes_document [OF ok \<open>document_key k\<close>]
  show "storage_GetRange s k start stop fs = Inr (Readable (take (nat (stop - start + 1)) (drop (nat start) c)))"
    if "fs_content s fs k = Some (c, t)" "0 \<le> start" for c t start stop
    using bytes [OF that(2)] that(1) by simp
  show "\<exists>c t. fs_content s fs k = Some (c, t) \<and> b = take (nat (stop - start + 1)) (drop (nat start) c)"
    if "0 \<le> start" "storage_GetRange s k start stop fs = Inr (Readable b)" for b start stop
    using bytes [OF that(1)] that(2) by (auto split: option.splits)
  show "\<lparr>so_Key = k, so_LastModified = t\<rparr> \<in> set xs \<longleftrightarrow> (\<exists>c. fs_content s fs k = Some (c, t))"
    if "fs_List s (snd h) ''documents/'' fs = Inr xs" for t xs and h :: "storageInfo \<times> bool"
    using list_documents [OF ok i(1)] i(2) that by (auto simp: fs_List_def split: if_splits)
qed (auto simp: fs_List_def intro: listed_plain split: if_splits)

definition sample_storage :: filesystemStorage where
  "sample_storage = \<lparr>fs_root = [''uploads'']\<rparr>"

lemma empty_fs_ok: "\<forall>c \<in> set (fs_root s). plain_name c \<Longrightarrow> fs_ok s []"
  by (auto simp: fs_ok_def paths_ok_def node_at_def split: if_splits)

lemma put_atomic_witness:
  "\<exists>e states. put_trace sample_storage (FailCopy 2) ''17'' 5 (storedPath ''a'') ''%PDF-1'' [] = (e, states) \<and>
     length states = 4 \<and> fs_content sample_storage (last states) (storedPath ''a'') = None"
proof -
  obtain e states where tr: "put_trace sample_storage (FailCopy 2) ''17'' 5 (storedPath ''a'') ''%PDF-1'' [] = (e, states)" by force
  have ok: "fs_ok sample_storage []" "plain_name ''a''" "CHR ''/'' \<notin> set ''17''"
    by (simp_all add: empty_fs_ok sample_storage_def plain_name_def)
  have "(case put_trace sample_storage (FailCopy 2) ''17'' 5 (storedPath ''a'') ''%PDF-1'' [] of
      (e, states) \<Rightarrow> e = Some ErrStorage \<and> length states = 4)" by code_simp
  with tr have "e = Some ErrStorage \<and> length states = 4" by simp
  moreover have "fs_content sample_storage (last states) (storedPath ''a'') = fs_content sample_storage [] (storedPath ''a'')"
    using put_atomic [OF ok tr] calculation by simp
  moreover have "fs_content sample_storage [] (storedPath ''a'') = None" by code_simp
  ultimately show ?thesis using tr by simp
qed

end
