(* ===== verification/Object_Storage.thy ===== *)
theory Object_Storage
  imports File_Storage Auth_Config "HOL-Library.AList"
begin

text \<open>
  The storage of uploaded files in a bucket (\<^verbatim>\<open>objectStorage\<close>, \<^verbatim>\<open>newObjectStorage\<close>,
  \<^verbatim>\<open>normalizeStorageError\<close> of \<^verbatim>\<open>api/storage.go\<close>). The client library (\<^verbatim>\<open>minio-go\<close>) and the
  service behind it are arguments, collected in a record; what they document is the hypothesis
  \<open>minio_documented\<close>. Under it the bucket meets the same contract \<open>document_storage\<close> as the
  file system.
\<close>

section \<open>The client\<close>

text \<open>An error carries the code of the service's answer (\<^verbatim>\<open>ToErrorResponse(err).Code\<close>). \<open>'f\<close>
  stands for what happens on the way to the service, \<open>'s\<close> for what the service stores. A read may
  ask for the bytes from one position to another.\<close>

type_synonym minio_error = string

record ('f, 's) minio_client =
  mc_BucketExists :: "'f \<Rightarrow> string \<Rightarrow> 's \<Rightarrow> minio_error + bool"
  mc_MakeBucket :: "'f \<Rightarrow> string \<Rightarrow> 's \<Rightarrow> minio_error option \<times> 's"
  mc_PutObject :: "'f \<Rightarrow> time \<Rightarrow> string \<Rightarrow> string \<Rightarrow> string \<Rightarrow> int \<Rightarrow> string \<Rightarrow> 's \<Rightarrow> minio_error option \<times> 's"
  mc_SetRange :: "int \<Rightarrow> int \<Rightarrow> bool"
  mc_GetObject :: "'f \<Rightarrow> string \<Rightarrow> string \<Rightarrow> (int \<times> int) option \<Rightarrow> 's \<Rightarrow> minio_error + handle"
  mc_StatObject :: "'f \<Rightarrow> string \<Rightarrow> string \<Rightarrow> 's \<Rightarrow> minio_error + storageInfo"
  mc_RemoveObject :: "'f \<Rightarrow> string \<Rightarrow> string \<Rightarrow> 's \<Rightarrow> minio_error option \<times> 's"
  mc_ListObjects :: "'f \<Rightarrow> string \<Rightarrow> string \<Rightarrow> 's \<Rightarrow> (minio_error + storageObject) list"

section \<open>The storage\<close>

record ('f, 's) objectStorage =
  os_client :: "('f, 's) minio_client"
  os_bucket :: string

definition normalizeStorageError :: "minio_error \<Rightarrow> storage_error" where
  "normalizeStorageError e = (if e = ''NoSuchKey'' then ErrStorageNotFound else ErrStorage)"

definition object_Put ::
    "('f, 's) objectStorage \<Rightarrow> 'f \<Rightarrow> time \<Rightarrow> string \<Rightarrow> string \<Rightarrow> int \<Rightarrow> string \<Rightarrow> 's \<Rightarrow> storage_error option \<times> 's" where
  "object_Put st f now key source sz contentType s =
     (case mc_PutObject (os_client st) f now (os_bucket st) (TrimPrefix key ''/'') source sz contentType s of
        (e, s) \<Rightarrow> (map_option (\<lambda>_. ErrStorage) e, s))"

definition object_Get :: "('f, 's) objectStorage \<Rightarrow> 'f \<Rightarrow> string \<Rightarrow> 's \<Rightarrow> storage_error + handle" where
  "object_Get st f key s =
     (case mc_GetObject (os_client st) f (os_bucket st) (TrimPrefix key ''/'') None s of
        Inl e \<Rightarrow> Inl ErrStorage
      | Inr h \<Rightarrow> Inr h)"

definition object_Stat :: "('f, 's) objectStorage \<Rightarrow> 'f \<Rightarrow> string \<Rightarrow> 's \<Rightarrow> storage_error + storageInfo" where
  "object_Stat st f key s =
     (case mc_StatObject (os_client st) f (os_bucket st) (TrimPrefix key ''/'') s of
        Inl e \<Rightarrow> Inl (normalizeStorageError e)
      | Inr info \<Rightarrow> Inr \<lparr>si_Size = si_Size info, si_LastModified = si_LastModified info\<rparr>)"

definition object_GetRange :: "('f, 's) objectStorage \<Rightarrow> 'f \<Rightarrow> string \<Rightarrow> int \<Rightarrow> int \<Rightarrow> 's \<Rightarrow> storage_error + handle" where
  "object_GetRange st f key start stop s =
     (if \<not> mc_SetRange (os_client st) start stop then Inl ErrStorage
      else case mc_GetObject (os_client st) f (os_bucket st) (TrimPrefix key ''/'') (Some (start, stop)) s of
          Inl e \<Rightarrow> Inl (normalizeStorageError e)
        | Inr h \<Rightarrow> Inr h)"

definition object_Delete :: "('f, 's) objectStorage \<Rightarrow> 'f \<Rightarrow> string \<Rightarrow> 's \<Rightarrow> storage_error option \<times> 's" where
  "object_Delete st f key s =
     (case mc_RemoveObject (os_client st) f (os_bucket st) (TrimPrefix key ''/'') s of
        (e, s) \<Rightarrow> (map_option (\<lambda>_. ErrStorage) e, s))"

text \<open>The loop over the channel of objects.\<close>

fun receive_objects :: "(minio_error + storageObject) list \<Rightarrow> storage_error + storageObject list" where
  "receive_objects [] = Inr []"
| "receive_objects (Inl e # xs) = Inl ErrStorage"
| "receive_objects (Inr x # xs) =
     (case receive_objects xs of
        Inl e \<Rightarrow> Inl e
      | Inr objects \<Rightarrow> Inr (\<lparr>so_Key = so_Key x, so_LastModified = so_LastModified x\<rparr> # objects))"

definition object_List :: "('f, 's) objectStorage \<Rightarrow> 'f \<Rightarrow> string \<Rightarrow> 's \<Rightarrow> storage_error + storageObject list" where
  "object_List st f key_prefix s =
     receive_objects (mc_ListObjects (os_client st) f (os_bucket st) (TrimPrefix key_prefix ''/'') s)"

section \<open>Opening the bucket\<close>

text \<open>The points where the service is asked.\<close>

datatype open_point = Bucket_Exists | Make_Bucket

text \<open>\<open>new_client\<close> is \<^verbatim>\<open>minio.New\<close>; its arguments are the endpoint, the two keys and whether
  the connection is secure.\<close>

definition newObjectStorage ::
    "(string \<Rightarrow> string \<Rightarrow> string \<Rightarrow> bool \<Rightarrow> ('f, 's) minio_client option) \<Rightarrow> (open_point \<Rightarrow> 'f) \<Rightarrow> environment \<Rightarrow> 's \<Rightarrow>
     (string + ('f, 's) objectStorage) \<times> 's" where
  "newObjectStorage new_client f env s =
     (let endpoint = getenv env ''OBJECT_STORAGE_ENDPOINT'' []
      in if endpoint = [] then (Inl ''file does not exist'', s)
         else if env ''OBJECT_STORAGE_ACCESS_KEY'' = [] \<or> env ''OBJECT_STORAGE_SECRET_KEY'' = []
         then (Inl ''OBJECT_STORAGE_ACCESS_KEY and OBJECT_STORAGE_SECRET_KEY are required when object storage is enabled'', s)
         else let secure = (getenv env ''OBJECT_STORAGE_SECURE'' ''false'' = ''true'')
              in case new_client endpoint (env ''OBJECT_STORAGE_ACCESS_KEY'') (env ''OBJECT_STORAGE_SECRET_KEY'') secure of
                  None \<Rightarrow> (Inl ''invalid endpoint'', s)
                | Some client \<Rightarrow>
                    (let bucket = getenv env ''OBJECT_STORAGE_BUCKET'' ''documind''
                     in case mc_BucketExists client (f Bucket_Exists) bucket s of
                         Inl e \<Rightarrow> (Inl e, s)
                       | Inr found \<Rightarrow>
                           if found then (Inr \<lparr>os_client = client, os_bucket = bucket\<rparr>, s)
                           else (case mc_MakeBucket client (f Make_Bucket) bucket s of
                               (Some e, s) \<Rightarrow> (Inl e, s)
                             | (None, s) \<Rightarrow> (Inr \<lparr>os_client = client, os_bucket = bucket\<rparr>, s))))"

section \<open>What the client documents\<close>

text \<open>\<open>stored\<close> is what the service keeps in the bucket. A call that succeeds has done what it says, one
  that fails has done it or nothing; what is read is what is stored, and \<^verbatim>\<open>NoSuchKey\<close> is said of
  missing objects only. A listing without an error names the objects with the prefix.\<close>

definition range_of :: "(int \<times> int) option \<Rightarrow> string \<Rightarrow> string" where
  "range_of r c = (case r of None \<Rightarrow> c | Some (a, z) \<Rightarrow> take (nat (z - a + 1)) (drop (nat a) c))"

definition valid_range :: "(int \<times> int) option \<Rightarrow> bool" where
  "valid_range r \<longleftrightarrow> (case r of None \<Rightarrow> True | Some (a, z) \<Rightarrow> 0 \<le> a \<and> a \<le> z)"

definition writes_documented :: "('f, 's) minio_client \<Rightarrow> string \<Rightarrow> ('s \<Rightarrow> string \<Rightarrow> (string \<times> time) option) \<Rightarrow> ('s \<Rightarrow> bool) \<Rightarrow> bool" where
  "writes_documented cl bucket stored invar \<longleftrightarrow>
     (\<forall>s f now k src ct. invar s \<longrightarrow> (case mc_PutObject cl f now bucket k src (int (length src)) ct s of (e, s') \<Rightarrow>
        invar s' \<and> (stored s' = (stored s)(k \<mapsto> (src, now)) \<or> e \<noteq> None \<and> stored s' = stored s))) \<and>
     (\<forall>s f k. invar s \<longrightarrow> (case mc_RemoveObject cl f bucket k s of (e, s') \<Rightarrow>
        invar s' \<and> (stored s' = (stored s)(k := None) \<or> e \<noteq> None \<and> stored s' = stored s)))"

definition reads_documented :: "('f, 's) minio_client \<Rightarrow> string \<Rightarrow> ('s \<Rightarrow> string \<Rightarrow> (string \<times> time) option) \<Rightarrow> ('s \<Rightarrow> bool) \<Rightarrow> bool" where
  "reads_documented cl bucket stored invar \<longleftrightarrow>
     (\<forall>s f k info. invar s \<longrightarrow> mc_StatObject cl f bucket k s = Inr info \<longrightarrow>
        (\<exists>c. stored s k = Some (c, si_LastModified info) \<and> si_Size info = int (length c))) \<and>
     (\<forall>s f k. invar s \<longrightarrow> mc_StatObject cl f bucket k s = Inl ''NoSuchKey'' \<longrightarrow> stored s k = None) \<and>
     (\<forall>s f k r b. invar s \<longrightarrow> valid_range r \<longrightarrow> mc_GetObject cl f bucket k r s = Inr (Readable b) \<longrightarrow>
        (\<exists>c t. stored s k = Some (c, t) \<and> b = range_of r c)) \<and>
     (\<forall>s f p xs. invar s \<longrightarrow> mc_ListObjects cl f bucket p s = map Inr xs \<longrightarrow>
        (\<forall>k t. \<lparr>so_Key = k, so_LastModified = t\<rparr> \<in> set xs \<longleftrightarrow> has_prefix k p \<and> (\<exists>c. stored s k = Some (c, t))))"

definition minio_documented :: "('f, 's) minio_client \<Rightarrow> string \<Rightarrow> ('s \<Rightarrow> string \<Rightarrow> (string \<times> time) option) \<Rightarrow> ('s \<Rightarrow> bool) \<Rightarrow> bool" where
  "minio_documented cl bucket stored invar \<longleftrightarrow> writes_documented cl bucket stored invar \<and> reads_documented cl bucket stored invar"

lemma receive_objects_Inr:
  "receive_objects items = Inr xs \<Longrightarrow> items = map Inr xs"
  by (induction items arbitrary: xs rule: receive_objects.induct) (auto split: sum.splits)

lemma document_key_stripped: "document_key k \<Longrightarrow> TrimPrefix k ''/'' = k"
  by (auto simp: document_key_iff storedPath_def TrimPrefix_def)

section \<open>The contract\<close>

text \<open>The bucket holds what the API has put there.\<close>

definition bucket_ok :: "('s \<Rightarrow> string \<Rightarrow> (string \<times> time) option) \<Rightarrow> ('s \<Rightarrow> bool) \<Rightarrow> 's \<Rightarrow> bool" where
  "bucket_ok stored invar s \<longleftrightarrow> invar s \<and> (\<forall>k. stored s k \<noteq> None \<longrightarrow> document_key k)"

lemma object_Put_result:
  assumes "writes_documented (os_client st) (os_bucket st) stored invar" "bucket_ok stored invar s" "document_key k"
    and "object_Put st f now k src (int (length src)) ct s = (e, s')"
  shows "bucket_ok stored invar s'" "stored s' = (stored s)(k \<mapsto> (src, now)) \<or> e \<noteq> None \<and> stored s' = stored s"
proof -
  obtain e' where put: "mc_PutObject (os_client st) f now (os_bucket st) k src (int (length src)) ct s = (e', s')" "e = map_option (\<lambda>_. ErrStorage) e'"
    using assms(4) by (auto simp: object_Put_def document_key_stripped [OF assms(3)] split: prod.splits)
  have "invar s" using assms(2) by (simp add: bucket_ok_def)
  then have "case mc_PutObject (os_client st) f now (os_bucket st) k src (int (length src)) ct s of (e, s') \<Rightarrow>
      invar s' \<and> (stored s' = (stored s)(k \<mapsto> (src, now)) \<or> e \<noteq> None \<and> stored s' = stored s)"
    by (rule assms(1) [unfolded writes_documented_def, THEN conjunct1, rule_format])
  with put(1) have r: "invar s'" "stored s' = (stored s)(k \<mapsto> (src, now)) \<or> e' \<noteq> None \<and> stored s' = stored s" by simp_all
  with put(2) show "stored s' = (stored s)(k \<mapsto> (src, now)) \<or> e \<noteq> None \<and> stored s' = stored s" by auto
  from r assms(2,3) show "bucket_ok stored invar s'" by (auto simp: bucket_ok_def split: if_splits)
qed

lemma object_Delete_result:
  assumes "writes_documented (os_client st) (os_bucket st) stored invar" "bucket_ok stored invar s" "document_key k"
    and "object_Delete st f k s = (e, s')"
  shows "bucket_ok stored invar s'" "stored s' = (stored s)(k := None) \<or> e \<noteq> None \<and> stored s' = stored s"
proof -
  obtain e' where remove: "mc_RemoveObject (os_client st) f (os_bucket st) k s = (e', s')" "e = map_option (\<lambda>_. ErrStorage) e'"
    using assms(4) by (auto simp: object_Delete_def document_key_stripped [OF assms(3)] split: prod.splits)
  have "invar s" using assms(2) by (simp add: bucket_ok_def)
  then have "case mc_RemoveObject (os_client st) f (os_bucket st) k s of (e, s') \<Rightarrow>
      invar s' \<and> (stored s' = (stored s)(k := None) \<or> e \<noteq> None \<and> stored s' = stored s)"
    by (rule assms(1) [unfolded writes_documented_def, THEN conjunct2, rule_format])
  with remove(1) have r: "invar s'" "stored s' = (stored s)(k := None) \<or> e' \<noteq> None \<and> stored s' = stored s" by simp_all
  with remove(2) show "stored s' = (stored s)(k := None) \<or> e \<noteq> None \<and> stored s' = stored s" by auto
  from r assms(2) show "bucket_ok stored invar s'" by (auto simp: bucket_ok_def split: if_splits)
qed

text \<open>A service that can be reached gives these answers. A missing object is opened all the same, and
  only reading it fails (\<^verbatim>\<open>GetObject\<close> sends nothing before the first read).\<close>

definition minio_answers :: "('f, 's) minio_client \<Rightarrow> string \<Rightarrow> ('s \<Rightarrow> string \<Rightarrow> (string \<times> time) option) \<Rightarrow> 'f \<Rightarrow> 's \<Rightarrow> bool" where
  "minio_answers cl bucket stored f s \<longleftrightarrow>
     (\<forall>k. mc_StatObject cl f bucket k s = (case stored s k of None \<Rightarrow> Inl ''NoSuchKey''
        | Some (c, t) \<Rightarrow> Inr \<lparr>si_Size = int (length c), si_LastModified = t\<rparr>)) \<and>
     (\<forall>k r. valid_range r \<longrightarrow> mc_GetObject cl f bucket k r s =
        Inr (case stored s k of None \<Rightarrow> NotReadable | Some (c, t) \<Rightarrow> Readable (range_of r c))) \<and>
     (\<forall>a z. 0 \<le> a \<and> a \<le> z \<longrightarrow> mc_SetRange cl a z)"

text \<open>Whatever the network does, the calls of \<^verbatim>\<open>objectStorage\<close> do what they say on the keys of documents, and leave
  other files alone.\<close>

lemma object_storage_contract:
  assumes "minio_documented (os_client st) (os_bucket st) stored invar"
  shows "document_storage (\<lambda>f now k src. object_Put st f now k src (int (length src)) ''application/pdf'') (object_Get st)
    (object_Stat st) (object_GetRange st) (object_Delete st) (object_List st) stored (bucket_ok stored invar)"
proof unfold_locales
  note w = conjunct1 [OF assms [unfolded minio_documented_def]]
  note r = conjunct2 [OF assms [unfolded minio_documented_def]]
  fix s s' :: 'b and k :: string
  assume ok: "bucket_ok stored invar s" and key: "document_key k"
  then have inv: "invar s" by (simp add: bucket_ok_def)
  note put = object_Put_result [OF w ok key] and del = object_Delete_result [OF w ok key]
  show "bucket_ok stored invar s' \<and> stored s' = (stored s)(k \<mapsto> (src, now))"
    if "object_Put st f now k src (int (length src)) ''application/pdf'' s = (None, s')" for f now src
    using put [OF that] by simp
  show "bucket_ok stored invar s' \<and> (stored s' = stored s \<or> stored s' = (stored s)(k \<mapsto> (src, now)))"
    if "object_Put st f now k src (int (length src)) ''application/pdf'' s = (Some e, s')" for f now src e
    using put [OF that] by auto
  show "bucket_ok stored invar s' \<and> stored s' = (stored s)(k := None)" if "object_Delete st g k s = (None, s')" for g
    using del [OF that] by simp
  show "bucket_ok stored invar s' \<and> (stored s' = stored s \<or> stored s' = (stored s)(k := None))"
    if "object_Delete st g k s = (Some e, s')" for g e
    using del [OF that] by auto
  have got: "\<exists>c t. stored s k = Some (c, t) \<and> b = range_of rg c"
    if "mc_GetObject (os_client st) h (os_bucket st) k rg s = Inr (Readable b)" "valid_range rg" for h rg b
    using r inv that unfolding reads_documented_def by blast
  show "\<exists>t. stored s k = Some (c, t)" if "object_Get st h k s = Inr (Readable c)" for h c
    using got [of h None c] that
    by (auto simp: object_Get_def document_key_stripped [OF key] range_of_def valid_range_def split: sum.splits)
  show "stored s k = None" if "object_Get st h k s = Inl ErrStorageNotFound" for h
    using that by (auto simp: object_Get_def split: sum.splits)
  show "\<exists>c t. stored s k = Some (c, t) \<and> b = take (nat (stop - start + 1)) (drop (nat start) c)"
    if "0 \<le> start" "start \<le> stop" "object_GetRange st h k start stop s = Inr (Readable b)" for h start stop b
    using got [of h "Some (start, stop)" b] that
    by (auto simp: object_GetRange_def document_key_stripped [OF key] range_of_def valid_range_def split: sum.splits if_splits)
  show "\<exists>c. stored s k = Some (c, si_LastModified info) \<and> si_Size info = int (length c)" if "object_Stat st h k s = Inr info" for h info
  proof -
    from that obtain inf where i: "mc_StatObject (os_client st) h (os_bucket st) k s = Inr inf"
      "info = \<lparr>si_Size = si_Size inf, si_LastModified = si_LastModified inf\<rparr>"
      by (auto simp: object_Stat_def document_key_stripped [OF key] split: sum.splits)
    with r inv show ?thesis unfolding reads_documented_def by simp
  qed
  show "stored s k = None" if "object_Stat st h k s = Inl ErrStorageNotFound" for h
    using that r inv unfolding reads_documented_def
    by (auto simp: object_Stat_def document_key_stripped [OF key] normalizeStorageError_def split: sum.splits if_splits)
  show "\<lparr>so_Key = k, so_LastModified = t\<rparr> \<in> set xs \<longleftrightarrow> (\<exists>c. stored s k = Some (c, t))"
    if "object_List st h ''documents/'' s = Inr xs" for h xs t
  proof -
    have "mc_ListObjects (os_client st) h (os_bucket st) ''documents/'' s = map Inr xs"
      using receive_objects_Inr that by (simp add: object_List_def TrimPrefix_def)
    moreover have "has_prefix k ''documents/''" using key by (auto simp: document_key_iff storedPath_def)
    ultimately show ?thesis using r inv unfolding reads_documented_def by blast
  qed
next
  note r = conjunct2 [OF assms [unfolded minio_documented_def]]
  fix s h xs x i
  assume ok: "bucket_ok stored invar s" and l: "object_List st h ''documents/'' s = Inr xs" and x: "x \<in> set xs"
    and sp: "Split CHR ''/'' (so_Key x) = [''documents'', i, ''original.pdf'']"
  have "mc_ListObjects (os_client st) h (os_bucket st) ''documents/'' s = map Inr xs"
    using receive_objects_Inr l by (simp add: object_List_def TrimPrefix_def)
  moreover have "\<lparr>so_Key = so_Key x, so_LastModified = so_LastModified x\<rparr> \<in> set xs" by (cases x) (use x in simp)
  moreover have "invar s" using ok by (simp add: bucket_ok_def)
  ultimately have "stored s (so_Key x) \<noteq> None" using r unfolding reads_documented_def by blast
  with ok have "document_key (so_Key x)" by (simp add: bucket_ok_def)
  with sp show "plain_name i" by (simp add: document_key_def)
qed

text \<open>The service in a test: one bucket as a list, and a call that may not get through or lose the
  answer on its way back.\<close>

datatype network = Fine | Lost | Answer_Lost

type_synonym bucket = "(string \<times> string \<times> time) list"

definition lossy :: "network \<Rightarrow> (bucket \<Rightarrow> bucket) \<Rightarrow> bucket \<Rightarrow> minio_error option \<times> bucket" where
  "lossy f change s = (case f of Fine \<Rightarrow> (None, change s) | Lost \<Rightarrow> (Some ''timeout'', s) | Answer_Lost \<Rightarrow> (Some ''timeout'', change s))"

definition sample_client :: "(network, bucket) minio_client" where
  "sample_client = \<lparr>mc_BucketExists = (\<lambda>f b s. if f = Fine then Inr True else Inl ''timeout''),
     mc_MakeBucket = (\<lambda>f b s. (None, s)),
     mc_PutObject = (\<lambda>f now b k src sz ct. lossy f (AList.update k (src, now))),
     mc_SetRange = (\<lambda>a z. 0 \<le> a \<and> a \<le> z),
     mc_GetObject = (\<lambda>f b k r s. Inr (if f \<noteq> Fine then NotReadable
        else case map_of s k of None \<Rightarrow> NotReadable | Some (c, t) \<Rightarrow> Readable (range_of r c))),
     mc_StatObject = (\<lambda>f b k s. if f \<noteq> Fine then Inl ''timeout''
        else case map_of s k of None \<Rightarrow> Inl ''NoSuchKey'' | Some (c, t) \<Rightarrow> Inr \<lparr>si_Size = int (length c), si_LastModified = t\<rparr>),
     mc_RemoveObject = (\<lambda>f b k. lossy f (AList.delete k)),
     mc_ListObjects = (\<lambda>f b p s. if f \<noteq> Fine then [Inl ''timeout'']
        else map (\<lambda>(k, c, t). Inr \<lparr>so_Key = k, so_LastModified = t\<rparr>) (filter (\<lambda>x. has_prefix (fst x) p) s))\<rparr>"

lemma sample_client_documented: "minio_documented sample_client b map_of (\<lambda>s. distinct (map fst s))"
proof -
  have "map (Inr :: _ \<Rightarrow> minio_error + storageObject) xs = map (\<lambda>(k, c, t). Inr \<lparr>so_Key = k, so_LastModified = t\<rparr>) ys \<Longrightarrow>
      xs = map (\<lambda>(k, c, t). \<lparr>so_Key = k, so_LastModified = t\<rparr>) ys" for xs :: "storageObject list" and ys :: bucket
    by (induction ys arbitrary: xs) auto
  note step = this
  have "\<lparr>so_Key = k, so_LastModified = t\<rparr> \<in> set xs \<longleftrightarrow> has_prefix k p \<and> (\<exists>c. map_of s k = Some (c, t))"
    if "distinct (map fst s)" "mc_ListObjects sample_client f b p s = map Inr xs" for s f p xs k t
  proof -
    have "f = Fine" using that(2) by (cases xs) (auto simp: sample_client_def split: if_splits)
    then have "xs = map (\<lambda>(k, c, t). \<lparr>so_Key = k, so_LastModified = t\<rparr>) (filter (\<lambda>x. has_prefix (fst x) p) s)"
      using that(2) by (intro step) (simp add: sample_client_def)
    then have "\<lparr>so_Key = k, so_LastModified = t\<rparr> \<in> set xs \<longleftrightarrow> has_prefix k p \<and> (\<exists>c. (k, c, t) \<in> set s)" by (force simp: image_iff)
    with that(1) show ?thesis by simp
  qed
  then have "reads_documented sample_client b map_of (\<lambda>s. distinct (map fst s))"
    unfolding reads_documented_def by (auto simp: sample_client_def split: if_splits option.splits)
  moreover have "case lossy f change s of (e, s') \<Rightarrow> distinct (map fst s') \<and> (map_of s' = g \<or> e \<noteq> None \<and> map_of s' = map_of s)"
    if "distinct (map fst s)" "distinct (map fst (change s))" "map_of (change s) = g" for f change s g
    using that by (simp add: lossy_def split: network.split)
  then have "writes_documented sample_client b map_of (\<lambda>s. distinct (map fst s))"
    by (simp add: writes_documented_def sample_client_def distinct_update distinct_delete update_conv' delete_conv')
  ultimately show ?thesis by (simp add: minio_documented_def)
qed

definition sample_bucket :: "(network, bucket) objectStorage" where
  "sample_bucket = \<lparr>os_client = sample_client, os_bucket = ''documind''\<rparr>"

lemma sample_client_answers: "minio_answers sample_client b map_of Fine s"
  by (auto simp: minio_answers_def sample_client_def split: option.split)

end
