(* ===== verification/Document_Storage.thy ===== *)
theory Document_Storage
  imports Object_Storage
begin

text \<open>
  \<^verbatim>\<open>documentStorage\<close> (\<^verbatim>\<open>api/storage.go\<close>), the interface behind which the handlers, the clean-up and the
  workers keep the uploaded files: a directory or a bucket. A call goes to the method of the one that was
  configured. Whichever it is, the calls meet the contract \<open>document_storage\<close>.
\<close>

section \<open>The interface\<close>

datatype ('f, 's) documentStorage = Filesystem filesystemStorage | Bucket "('f, 's) objectStorage"

text \<open>What is outside: the files of the machine and what the service keeps.\<close>

record 's stores =
  ss_files :: filesystem
  ss_bucket :: 's

text \<open>What happens during one call: to the system calls of a \<^verbatim>\<open>Put\<close> (and the random part of the temporary name), the
  paths that cannot be removed, what \<^verbatim>\<open>stat\<close> says of a directory, whether walking fails; and on the way to the service.\<close>

record 'f storage_faults =
  sf_put :: put_fault
  sf_name :: nat
  sf_stuck :: "path \<Rightarrow> bool"
  sf_directory :: storageInfo
  sf_walk :: bool
  sf_call :: 'f

fun ds_Put ::
    "('f, 's) documentStorage \<Rightarrow> 'f storage_faults \<Rightarrow> time \<Rightarrow> string \<Rightarrow> string \<Rightarrow> int \<Rightarrow> string \<Rightarrow> 's stores \<Rightarrow> storage_error option \<times> 's stores" where
  "ds_Put (Filesystem st) f now key source sz contentType ss =
     (case storage_Put st (sf_put f) (nat_digits (sf_name f)) now key source (ss_files ss) of (e, fs) \<Rightarrow> (e, ss\<lparr>ss_files := fs\<rparr>))"
| "ds_Put (Bucket st) f now key source sz contentType ss =
     (case object_Put st (sf_call f) now key source sz contentType (ss_bucket ss) of (e, s) \<Rightarrow> (e, ss\<lparr>ss_bucket := s\<rparr>))"

fun ds_Get :: "('f, 's) documentStorage \<Rightarrow> 'f storage_faults \<Rightarrow> string \<Rightarrow> 's stores \<Rightarrow> storage_error + handle" where
  "ds_Get (Filesystem st) f key ss = storage_Get st key (ss_files ss)"
| "ds_Get (Bucket st) f key ss = object_Get st (sf_call f) key (ss_bucket ss)"

fun ds_Stat :: "('f, 's) documentStorage \<Rightarrow> 'f storage_faults \<Rightarrow> string \<Rightarrow> 's stores \<Rightarrow> storage_error + storageInfo" where
  "ds_Stat (Filesystem st) f key ss = storage_Stat st (sf_directory f) key (ss_files ss)"
| "ds_Stat (Bucket st) f key ss = object_Stat st (sf_call f) key (ss_bucket ss)"

fun ds_GetRange :: "('f, 's) documentStorage \<Rightarrow> 'f storage_faults \<Rightarrow> string \<Rightarrow> int \<Rightarrow> int \<Rightarrow> 's stores \<Rightarrow> storage_error + handle" where
  "ds_GetRange (Filesystem st) f key start stop ss = storage_GetRange st key start stop (ss_files ss)"
| "ds_GetRange (Bucket st) f key start stop ss = object_GetRange st (sf_call f) key start stop (ss_bucket ss)"

fun ds_Delete :: "('f, 's) documentStorage \<Rightarrow> 'f storage_faults \<Rightarrow> string \<Rightarrow> 's stores \<Rightarrow> storage_error option \<times> 's stores" where
  "ds_Delete (Filesystem st) f key ss = (case storage_Delete st (sf_stuck f) key (ss_files ss) of (e, fs) \<Rightarrow> (e, ss\<lparr>ss_files := fs\<rparr>))"
| "ds_Delete (Bucket st) f key ss = (case object_Delete st (sf_call f) key (ss_bucket ss) of (e, s) \<Rightarrow> (e, ss\<lparr>ss_bucket := s\<rparr>))"

fun ds_List :: "('f, 's) documentStorage \<Rightarrow> 'f storage_faults \<Rightarrow> string \<Rightarrow> 's stores \<Rightarrow> storage_error + storageObject list" where
  "ds_List (Filesystem st) f key_prefix ss = fs_List st (sf_walk f) key_prefix (ss_files ss)"
| "ds_List (Bucket st) f key_prefix ss = object_List st (sf_call f) key_prefix (ss_bucket ss)"

text \<open>Where a \<^verbatim>\<open>Put\<close> may be cut short by a crash.\<close>

fun put_points ::
    "('f, 's) documentStorage \<Rightarrow> 'f storage_faults \<Rightarrow> time \<Rightarrow> string \<Rightarrow> string \<Rightarrow> int \<Rightarrow> string \<Rightarrow> 's stores \<Rightarrow> 's stores list" where
  "put_points (Filesystem st) f now key source sz contentType ss =
     map (\<lambda>fs. ss\<lparr>ss_files := fs\<rparr>) (snd (put_trace st (sf_put f) (nat_digits (sf_name f)) now key source (ss_files ss)))"
| "put_points (Bucket st) f now key source sz contentType ss =
     [ss\<lparr>ss_bucket := snd (object_Put st (sf_call f) now key source sz contentType (ss_bucket ss))\<rparr>]"

section \<open>The contract\<close>

text \<open>How the service is seen: the objects of the bucket, and the states its client documents.\<close>

record 's bucket_view =
  bv_content :: "'s \<Rightarrow> string \<Rightarrow> (string \<times> time) option"
  bv_invar :: "'s \<Rightarrow> bool"

definition storage_documented :: "('f, 's) documentStorage \<Rightarrow> 's bucket_view \<Rightarrow> bool" where
  "storage_documented st v \<longleftrightarrow>
     (case st of Filesystem _ \<Rightarrow> True | Bucket ost \<Rightarrow> minio_documented (os_client ost) (os_bucket ost) (bv_content v) (bv_invar v))"

text \<open>What is held under each key, and a storage in order.\<close>

definition held_at :: "('f, 's) documentStorage \<Rightarrow> 's bucket_view \<Rightarrow> 's stores \<Rightarrow> string \<Rightarrow> (string \<times> time) option" where
  "held_at st v ss = (case st of Filesystem s \<Rightarrow> fs_content s (ss_files ss) | Bucket _ \<Rightarrow> bv_content v (ss_bucket ss))"

definition stores_ok :: "('f, 's) documentStorage \<Rightarrow> 's bucket_view \<Rightarrow> 's stores \<Rightarrow> bool" where
  "stores_ok st v ss \<longleftrightarrow> (case st of Filesystem s \<Rightarrow> fs_ok s (ss_files ss) | Bucket _ \<Rightarrow> bucket_ok (bv_content v) (bv_invar v) (ss_bucket ss))"

lemmas storage_case_defs = storage_documented_def held_at_def stores_ok_def

abbreviation put_pdf :: "('f, 's) documentStorage \<Rightarrow> 'f storage_faults \<Rightarrow> time \<Rightarrow> string \<Rightarrow> string \<Rightarrow> 's stores \<Rightarrow> storage_error option \<times> 's stores" where
  "put_pdf st f now key source \<equiv> ds_Put st f now key source (int (length source)) ''application/pdf''"

lemma fs_put_eq: "storage_Put st (sf_put f) (nat_digits (sf_name f)) = fs_put st (sf_put f, sf_name f)"
  by (simp add: fun_eq_iff fs_put_def)

text \<open>A storage that works on a part of the state meets the contract when it does so on that part.\<close>

lemma document_storage_on_part:
  assumes contract: "document_storage put get stat get_range delete list_objects content invar"
    and part: "\<And>x s. get_part (set_part x s) = x"
  shows "document_storage
    (\<lambda>f now k src s. case put (pf f) now k src (get_part s) of (e, x) \<Rightarrow> (e, set_part x s))
    (\<lambda>f k s. get (gf f) k (get_part s)) (\<lambda>f k s. stat (gf f) k (get_part s))
    (\<lambda>f k start stop s. get_range (gf f) k start stop (get_part s))
    (\<lambda>f k s. case delete (df f) k (get_part s) of (e, x) \<Rightarrow> (e, set_part x s))
    (\<lambda>f p s. list_objects (gf f) p (get_part s)) (\<lambda>s. content (get_part s)) (\<lambda>s. invar (get_part s))"
proof (unfold_locales, goal_cases)
  case (1 s k f now src s')
  with document_storage.put_done [OF contract, of "get_part s" k "pf f" now src] part show ?case by (auto split: prod.splits)
next
  case (2 s k f now src e s')
  with document_storage.put_stopped [OF contract, of "get_part s" k "pf f" now src e] part show ?case by (auto split: prod.splits)
next
  case (3 s k g s')
  with document_storage.delete_done [OF contract, of "get_part s" k "df g"] part show ?case by (auto split: prod.splits)
next
  case (4 s k g e s')
  with document_storage.delete_failed [OF contract, of "get_part s" k "df g" e] part show ?case by (auto split: prod.splits)
qed (fact document_storage.get_true [OF contract] document_storage.get_missing [OF contract] document_storage.stat_true [OF contract]
    document_storage.stat_missing [OF contract] document_storage.range_true [OF contract] document_storage.list_plain [OF contract]
    document_storage.list_content [OF contract])+

lemma documentStorage_contract:
  assumes "storage_documented st v"
  shows "document_storage (put_pdf st) (ds_Get st) (ds_Stat st) (ds_GetRange st) (ds_Delete st) (ds_List st) (held_at st v) (stores_ok st v)"
proof (cases st)
  case (Filesystem s)
  have eq: "held_at (Filesystem s) v = (\<lambda>ss. fs_content s (ss_files ss))" "stores_ok (Filesystem s) v = (\<lambda>ss. fs_ok s (ss_files ss))"
    by (simp_all add: fun_eq_iff held_at_def stores_ok_def)
  show ?thesis
    unfolding Filesystem eq ds_Put.simps ds_Get.simps ds_Stat.simps ds_GetRange.simps ds_Delete.simps ds_List.simps fs_put_eq
    using document_storage_on_part [OF fs.document_storage_axioms, where get_part = ss_files and set_part = "\<lambda>x. ss_files_update (\<lambda>_. x)"
      and pf = "\<lambda>f. (sf_put f, sf_name f)" and gf = "\<lambda>f. (sf_directory f, sf_walk f)" and df = sf_stuck]
    by simp
next
  case (Bucket ost)
  then have doc: "minio_documented (os_client ost) (os_bucket ost) (bv_content v) (bv_invar v)"
    using assms by (simp add: storage_documented_def)
  have eq: "held_at (Bucket ost) v = (\<lambda>ss. bv_content v (ss_bucket ss))" "stores_ok (Bucket ost) v = (\<lambda>ss. bucket_ok (bv_content v) (bv_invar v) (ss_bucket ss))"
    by (simp_all add: fun_eq_iff held_at_def stores_ok_def)
  show ?thesis
    unfolding Bucket eq ds_Put.simps ds_Get.simps ds_Stat.simps ds_GetRange.simps ds_Delete.simps ds_List.simps
    using document_storage_on_part [OF object_storage_contract [OF doc], where get_part = ss_bucket and set_part = "\<lambda>x. ss_bucket_update (\<lambda>_. x)"
      and pf = sf_call and gf = sf_call and df = sf_call]
    by simp
qed

text \<open>A directory meets the contract wherever it lies.\<close>

interpretation disk: document_storage "put_pdf (Filesystem s :: ('f, 's) documentStorage)" "ds_Get (Filesystem s :: ('f, 's) documentStorage)"
    "ds_Stat (Filesystem s :: ('f, 's) documentStorage)" "ds_GetRange (Filesystem s :: ('f, 's) documentStorage)"
    "ds_Delete (Filesystem s :: ('f, 's) documentStorage)" "ds_List (Filesystem s :: ('f, 's) documentStorage)"
    "held_at (Filesystem s :: ('f, 's) documentStorage) v" "stores_ok (Filesystem s :: ('f, 's) documentStorage) v"
  for s v
  by (rule documentStorage_contract) (simp add: storage_documented_def)

lemmas ds_list_plain = document_storage.list_plain [OF documentStorage_contract]

lemma ds_put:
  assumes "storage_documented st v" "stores_ok st v ss" "document_key k" "put_pdf st f now k src ss = (e, ss')"
  shows "stores_ok st v ss'" "e = None \<Longrightarrow> held_at st v ss' = (held_at st v ss)(k \<mapsto> (src, now))"
    "held_at st v ss' = held_at st v ss \<or> held_at st v ss' = (held_at st v ss)(k \<mapsto> (src, now))"
  using document_storage.put_done [OF documentStorage_contract [OF assms(1)] assms(2,3), of f now src ss']
    document_storage.put_stopped [OF documentStorage_contract [OF assms(1)] assms(2,3), of f now src _ ss'] assms(4)
  by (cases e; auto)+

lemma ds_delete:
  assumes "storage_documented st v" "stores_ok st v ss" "document_key k" "ds_Delete st f k ss = (e, ss')"
  shows "stores_ok st v ss'" "e = None \<Longrightarrow> held_at st v ss' = (held_at st v ss)(k := None)"
    "held_at st v ss' = held_at st v ss \<or> held_at st v ss' = (held_at st v ss)(k := None)"
  using document_storage.delete_done [OF documentStorage_contract [OF assms(1)] assms(2,3), of f ss']
    document_storage.delete_failed [OF documentStorage_contract [OF assms(1)] assms(2,3), of f _ ss'] assms(4)
  by (cases e; auto)+

text \<open>A \<^verbatim>\<open>Put\<close> that is cut short leaves the old or the new content, whole.\<close>

lemma put_points_ok:
  assumes "storage_documented st v" "stores_ok st v ss" "document_key k"
    and "ss' \<in> set (put_points st f now k src (int (length src)) ''application/pdf'' ss)"
  shows "stores_ok st v ss'" "held_at st v ss' = held_at st v ss \<or> held_at st v ss' = (held_at st v ss)(k \<mapsto> (src, now))"
proof -
  have "stores_ok st v ss' \<and> (held_at st v ss' = held_at st v ss \<or> held_at st v ss' = (held_at st v ss)(k \<mapsto> (src, now)))"
  proof (cases st)
    case (Filesystem s)
    from assms(3) obtain i where i: "plain_name i" "k = storedPath i" by (auto simp: document_key_iff)
    obtain e states where tr: "put_trace s (sf_put f) (nat_digits (sf_name f)) now (storedPath i) src (ss_files ss) = (e, states)" by force
    have ok: "fs_ok s (ss_files ss)" using assms(2) by (simp add: Filesystem stores_ok_def)
    obtain fs where fs: "fs \<in> set states" "ss' = ss\<lparr>ss_files := fs\<rparr>" using assms(4) tr i(2) Filesystem by auto
    have "fs_ok s fs" using put_states_ok [OF ok i(1) nat_digits_slash tr] fs(1) by blast
    moreover have "fs_content s fs = fs_content s (ss_files ss) \<or> fs_content s fs = (fs_content s (ss_files ss))(storedPath i \<mapsto> (src, now))"
      using put_states(3) [OF ok i(1) nat_digits_slash tr] fs(1) by blast
    ultimately show ?thesis using fs(2) i(2) by (simp add: Filesystem stores_ok_def held_at_def)
  next
    case (Bucket ost)
    obtain e ss1 where put: "put_pdf st f now k src ss = (e, ss1)" by force
    with assms(4) have "ss' = ss1" by (auto simp: Bucket split: prod.splits)
    with ds_put [OF assms(1-3) put] show ?thesis by blast
  qed
  then show "stores_ok st v ss'" "held_at st v ss' = held_at st v ss \<or> held_at st v ss' = (held_at st v ss)(k \<mapsto> (src, now))" by blast+
qed

section \<open>A storage that answers\<close>

text \<open>A directory always does, a bucket when its service can be reached.\<close>

definition storage_answers :: "('f, 's) documentStorage \<Rightarrow> 's bucket_view \<Rightarrow> 'f storage_faults \<Rightarrow> 's stores \<Rightarrow> bool" where
  "storage_answers st v f ss \<longleftrightarrow> (case st of Filesystem _ \<Rightarrow> True
     | Bucket ost \<Rightarrow> minio_answers (os_client ost) (os_bucket ost) (bv_content v) (sf_call f) (ss_bucket ss))"

lemma ds_stat_answer:
  assumes "storage_answers st v f ss" "stores_ok st v ss" "document_key k"
  shows "ds_Stat st f k ss = (case held_at st v ss k of None \<Rightarrow> Inl ErrStorageNotFound
    | Some (c, t) \<Rightarrow> Inr \<lparr>si_Size = int (length c), si_LastModified = t\<rparr>)"
proof (cases st)
  case (Filesystem s)
  with assms fs.stat_content [of s "ss_files ss" k "(sf_directory f, False)"] show ?thesis by (simp add: stores_ok_def held_at_def)
next
  case (Bucket ost)
  with assms show ?thesis
    by (auto simp: storage_answers_def minio_answers_def object_Stat_def held_at_def document_key_stripped [OF assms(3)] normalizeStorageError_def
        split: option.splits)
qed

lemma ds_range_answer:
  assumes "storage_answers st v f ss" "stores_ok st v ss" "document_key k" "held_at st v ss k = Some (c, t)" "0 \<le> start" "start \<le> stop"
  shows "ds_GetRange st f k start stop ss = Inr (Readable (take (nat (stop - start + 1)) (drop (nat start) c)))"
proof (cases st)
  case (Filesystem s)
  with assms fs.range_content [of s "ss_files ss" k c t start stop] show ?thesis by (simp add: stores_ok_def held_at_def)
next
  case (Bucket ost)
  with assms show ?thesis
    by (auto simp: storage_answers_def minio_answers_def object_GetRange_def held_at_def document_key_stripped [OF assms(3)] valid_range_def range_of_def
        split: option.splits)
qed

text \<open>Reading a file that is there: the bytes that were put, or an error of the service.\<close>

lemma ds_get_held:
  assumes "storage_documented st v" "stores_ok st v ss" "document_key k" "held_at st v ss k = Some (c, t)"
  shows "ds_Get st f k ss = Inr (Readable c) \<or> (\<exists>ost. st = Bucket ost) \<and> (ds_Get st f k ss = Inl ErrStorage \<or> ds_Get st f k ss = Inr NotReadable)"
proof (cases st)
  case (Filesystem s)
  with assms fs.get_content [of s "ss_files ss" k] show ?thesis by (simp add: stores_ok_def held_at_def)
next
  case (Bucket ost)
  have "x = c" if "ds_Get st f k ss = Inr (Readable x)" for x
    using document_storage.get_true [OF documentStorage_contract [OF assms(1)] assms(2,3) that] assms(4) by simp
  moreover have "ds_Get st f k ss \<noteq> Inl ErrStorageNotFound"
    using document_storage.get_missing [OF documentStorage_contract [OF assms(1)] assms(2,3)] assms(4) by auto
  ultimately show ?thesis using Bucket by (cases "ds_Get st f k ss") (auto intro: storage_error.exhaust handle.exhaust)
qed

section \<open>Examples\<close>

definition sample_local :: "(network, bucket) documentStorage" where
  "sample_local = Filesystem sample_storage"

definition sample_remote :: "(network, bucket) documentStorage" where
  "sample_remote = Bucket sample_bucket"

definition no_files :: "bucket stores" where
  "no_files = \<lparr>ss_files = [], ss_bucket = []\<rparr>"

definition no_faults :: "network storage_faults" where
  "no_faults = \<lparr>sf_put = NoFault, sf_name = 1, sf_stuck = (\<lambda>_. False), sf_directory = \<lparr>si_Size = 0, si_LastModified = 0\<rparr>,
     sf_walk = False, sf_call = Fine\<rparr>"

definition sample_view :: "bucket bucket_view" where
  "sample_view = \<lparr>bv_content = map_of, bv_invar = (\<lambda>s. distinct (map fst s))\<rparr>"

lemma sample_documented: "storage_documented sample_local sample_view" "storage_documented sample_remote sample_view"
  by (simp_all add: storage_documented_def sample_local_def sample_remote_def sample_view_def sample_bucket_def sample_client_documented)

lemma no_files_ok: "stores_ok sample_local sample_view no_files" "stores_ok sample_remote sample_view no_files"
  by (simp_all add: stores_ok_def sample_local_def sample_remote_def sample_view_def no_files_def bucket_ok_def empty_fs_ok
      sample_storage_def plain_name_def)

interpretation cloud: document_storage "put_pdf sample_remote" "ds_Get sample_remote" "ds_Stat sample_remote" "ds_GetRange sample_remote"
    "ds_Delete sample_remote" "ds_List sample_remote" "held_at sample_remote sample_view" "stores_ok sample_remote sample_view"
  by (rule documentStorage_contract [OF sample_documented(2)])

text \<open>C20: whichever storage is configured, directory or bucket, and whatever happens to its calls, it keeps the
  contract: on the keys of documents a call does what it says or fails, a failed one has done it or nothing, no
  other file is touched, what is read is what was put, and a \<^verbatim>\<open>Put\<close> that is cut short by a crash leaves the old or
  the new file, whole.\<close>

theorem storages_meet_contract:
  assumes "storage_documented st v"
  shows "document_storage (put_pdf st) (ds_Get st) (ds_Stat st) (ds_GetRange st) (ds_Delete st) (ds_List st) (held_at st v) (stores_ok st v) \<and>
    (\<forall>ss k f now src ss'. stores_ok st v ss \<and> document_key k \<and>
       ss' \<in> set (put_points st f now k src (int (length src)) ''application/pdf'' ss) \<longrightarrow>
       stores_ok st v ss' \<and> (held_at st v ss' = held_at st v ss \<or> held_at st v ss' = (held_at st v ss)(k \<mapsto> (src, now))))"
  using documentStorage_contract [OF assms] put_points_ok [OF assms] by blast

text \<open>A bucket whose answer to a \<^verbatim>\<open>Put\<close> is lost: the file is there.\<close>

lemma storages_meet_contract_witness:
  "document_storage (put_pdf sample_remote) (ds_Get sample_remote) (ds_Stat sample_remote) (ds_GetRange sample_remote) (ds_Delete sample_remote)
     (ds_List sample_remote) (held_at sample_remote sample_view) (stores_ok sample_remote sample_view) \<and>
   ds_Stat sample_remote no_faults (storedPath ''a'')
     (snd (put_pdf sample_remote (no_faults\<lparr>sf_call := Answer_Lost\<rparr>) 5 (storedPath ''a'') ''%PDF-'' no_files)) = Inr \<lparr>si_Size = 5, si_LastModified = 5\<rparr>"
proof (rule conjI)
  show "ds_Stat sample_remote no_faults (storedPath ''a'')
     (snd (put_pdf sample_remote (no_faults\<lparr>sf_call := Answer_Lost\<rparr>) 5 (storedPath ''a'') ''%PDF-'' no_files)) = Inr \<lparr>si_Size = 5, si_LastModified = 5\<rparr>"
    by code_simp
qed (use storages_meet_contract [OF sample_documented(2)] in blast)

end
