(* ===== verification/Byte_Range.thy ===== *)
theory Byte_Range
  imports Document_Storage Job_Store Client_Address
begin

text \<open>
  Serving a stored file (\<^verbatim>\<open>File\<close>, \<^verbatim>\<open>serveStoredFile\<close> and \<^verbatim>\<open>parseHTTPTime\<close> of
  \<^verbatim>\<open>api/documents.go\<close>): conditional requests, single byte ranges and what is written. Formatting and
  parsing HTTP dates and quoting a file name are arguments. A size is an \<^verbatim>\<open>int64\<close>.
\<close>

section \<open>Range headers\<close>

text \<open>The submatches of \<^verbatim>\<open>^bytes=(\d*)-(\d*)$\<close>: digits run up to the first other character, which must
  be the only dash.\<close>

definition singleRange :: "string \<Rightarrow> (string \<times> string) option" where
  "singleRange s =
     (if has_prefix s ''bytes=''
      then (let r = drop 6 s; a = takeWhile is_digit r
            in case dropWhile is_digit r of
                c # b \<Rightarrow> (if c = CHR ''-'' \<and> list_all is_digit b then Some (a, b) else None)
              | [] \<Rightarrow> None)
      else None)"

text \<open>The bounds the code computes from the two submatches; \<open>None\<close> is an unsatisfiable range. The
  error of the first number is overwritten by that of the second.\<close>

definition range_bounds :: "int \<Rightarrow> string \<times> string \<Rightarrow> (int \<times> int) option" where
  "range_bounds sz m =
     (case m of (m1, m2) \<Rightarrow>
        case (if m1 = [] then
                (case ParseInt m2 of (count, err) \<Rightarrow>
                   if err \<noteq> None \<or> count \<le> 0 then (0, sz - 1, True)
                   else let start = sz - count in (if start < 0 then 0 else start, sz - 1, False))
              else
                (case ParseInt m1 of (start, err) \<Rightarrow>
                   if m2 = [] then (start, sz - 1, err \<noteq> None)
                   else (case ParseInt m2 of (stop, err) \<Rightarrow> (start, stop, err \<noteq> None)))) of
          (start, stop, parseErr) \<Rightarrow>
            if parseErr \<or> start < 0 \<or> start \<ge> sz \<or> stop < start then None
            else Some (start, if stop \<ge> sz then sz - 1 else stop))"

section \<open>Serving\<close>

record http_time =
  FormatTime :: "time \<Rightarrow> string"
  ParseTime :: "string \<Rightarrow> time option"

text \<open>A time that cannot be parsed is the zero time.\<close>

definition parseHTTPTime :: "http_time \<Rightarrow> string \<Rightarrow> time" where
  "parseHTTPTime ht v = (case ParseTime ht v of Some parsed \<Rightarrow> parsed | None \<Rightarrow> 0)"

text \<open>\<^verbatim>\<open>filepath.Base\<close>.\<close>

definition Base :: "string \<Rightarrow> string" where
  "Base p =
     (if p = [] then ''.''
      else let q = rev (dropWhile (\<lambda>c. c = CHR ''/'') (rev p))
           in if q = [] then ''/'' else last (Split CHR ''/'' q))"

record file_answer =
  fa_status :: nat
  fa_headers :: "(string \<times> string) list"
  fa_body :: string
  fa_failed :: bool    \<comment> \<open>the handler returned an error\<close>

definition file_error :: "nat \<Rightarrow> string \<Rightarrow> (string \<times> string) list \<Rightarrow> file_answer" where
  "file_error code message headers = \<lparr>fa_status = code, fa_headers = headers, fa_body = message, fa_failed = False\<rparr>"

definition no_content :: "nat \<Rightarrow> (string \<times> string) list \<Rightarrow> file_answer" where
  "no_content code headers = \<lparr>fa_status = code, fa_headers = headers, fa_body = [], fa_failed = False\<rparr>"

text \<open>\<open>get_range\<close> is the storage, \<open>quote\<close> the \<^verbatim>\<open>%q\<close> of a file name. \<^verbatim>\<open>io.CopyN\<close> writes what there
  is and fails when that is less than the length.\<close>

definition serveStoredFile ::
    "http_time \<Rightarrow> (string \<Rightarrow> string) \<Rightarrow> (string \<Rightarrow> int \<Rightarrow> int \<Rightarrow> storage_error + handle) \<Rightarrow> string \<Rightarrow> 'b request \<Rightarrow> document \<Rightarrow>
     storageInfo \<Rightarrow> file_answer" where
  "serveStoredFile ht quote get_range meth request doc info =
     (let sz = si_Size info; modified = si_LastModified info;
          header = [(''Accept-Ranges'', ''bytes''), (''Content-Disposition'', ''inline; filename='' @ quote (Base (doc_OriginalFilename doc))),
            (''Content-Type'', doc_MIMEType doc)] @ (if modified = 0 then [] else [(''Last-Modified'', FormatTime ht modified)])
      in if req_Header request ''If-Modified-Since'' \<noteq> [] \<and>
            \<not> Truncate modified time_Second > parseHTTPTime ht (req_Header request ''If-Modified-Since'')
         then no_content 304 header
         else let rangeHeader = req_Header request ''Range'';
                  rangeHeader = (if rangeHeader \<noteq> [] \<and> req_Header request ''If-Range'' \<noteq> [] \<and>
                      req_Header request ''If-Range'' \<noteq> FormatTime ht modified then [] else rangeHeader);
                  unsatisfiable = no_content 416 (header @ [(''Content-Range'', ''bytes */'' @ FormatInt sz)]);
                  serve = (\<lambda>status header start stop.
                    let len = stop - start + 1; header = header @ [(''Content-Length'', FormatInt len)]
                    in if meth = ''HEAD'' \<or> len = 0 then no_content status header
                       else case get_range (doc_StoredPath doc) start stop of
                           Inl ErrStorageNotFound \<Rightarrow> file_error 404 ''document file not found'' header
                         | Inl ErrStorage \<Rightarrow> file_error 500 ''could not read document file'' header
                         | Inr (Readable content) \<Rightarrow>
                             \<lparr>fa_status = status, fa_headers = header, fa_body = take (nat len) content,
                              fa_failed = (int (length content) < len)\<rparr>
                         | Inr NotReadable \<Rightarrow> \<lparr>fa_status = status, fa_headers = header, fa_body = [], fa_failed = True\<rparr>)
              in if rangeHeader = [] then serve 200 header 0 (sz - 1)
                 else case singleRange rangeHeader of
                     None \<Rightarrow> unsatisfiable
                   | Some m \<Rightarrow>
                       if CHR '','' \<in> set rangeHeader then unsatisfiable
                       else case range_bounds sz m of
                           None \<Rightarrow> unsatisfiable
                         | Some (start, stop) \<Rightarrow>
                             serve 206 (header @ [(''Content-Range'', ''bytes '' @ FormatInt start @ ''-'' @ FormatInt stop @ ''/'' @ FormatInt sz)])
                               start stop)"

text \<open>\<open>up\<close>: whether the connection to the database holds; \<open>f\<close>, \<open>f'\<close>: what happens while the storage is asked for the
  file's size and while it is read.\<close>

definition File_handler ::
    "http_time \<Rightarrow> (string \<Rightarrow> string) \<Rightarrow> ('f, 's) documentStorage \<Rightarrow> bool \<Rightarrow> 'f storage_faults \<Rightarrow> 'f storage_faults \<Rightarrow> string \<Rightarrow>
     'b request \<Rightarrow> string \<Rightarrow> string \<Rightarrow> db \<Rightarrow> 's stores \<Rightarrow> file_answer" where
  "File_handler ht quote st up f f' meth request owner i d ss =
     (case (if up then FindOwned owner i d else Inl ErrUnavailable) of
        Inl _ \<Rightarrow> file_error 404 ''document not found'' []
      | Inr doc \<Rightarrow>
          (case ds_Stat st f (doc_StoredPath doc) ss of
             Inl ErrStorageNotFound \<Rightarrow> file_error 404 ''document file not found'' []
           | Inl ErrStorage \<Rightarrow> file_error 500 ''could not stat document file'' []
           | Inr info \<Rightarrow>
               serveStoredFile ht quote (\<lambda>key start stop. ds_GetRange st f' key start stop ss) meth request doc info))"

text \<open>The headers of the content are set before it is read, and stay when it cannot be read: the error answers carry
  the length (and the range) of the bytes that are not sent.\<close>

lemma failed_read_keeps_length:
  assumes "req_Header request ''If-Modified-Since'' = []" and "req_Header request ''Range'' = []" and "si_Size info \<noteq> 0"
    and "get_range (doc_StoredPath doc) 0 (si_Size info - 1) = Inl e" and "meth \<noteq> ''HEAD''"
  shows "let answer = serveStoredFile ht quote get_range meth request doc info
    in fa_status answer = (case e of ErrStorageNotFound \<Rightarrow> 404 | ErrStorage \<Rightarrow> 500) \<and>
      (''Content-Length'', FormatInt (si_Size info)) \<in> set (fa_headers answer) \<and>
      fa_body answer \<in> {''document file not found'', ''could not read document file''}"
  using assms by (cases e) (simp_all add: serveStoredFile_def Let_def file_error_def)

section \<open>What a range means\<close>

text \<open>The bytes a single range names (RFC 9110, 14.1.2): from the first to the last position, the last one
  cut off at the end of the file; or the last so many bytes. \<open>None\<close> when there are none.\<close>

definition named_bytes :: "int \<Rightarrow> string \<Rightarrow> string \<Rightarrow> (int \<times> int) option" where
  "named_bytes sz a b =
     (if a \<noteq> [] then
        (if decimal a < sz \<and> (b = [] \<or> decimal a \<le> decimal b)
         then Some (decimal a, if b = [] then sz - 1 else min (decimal b) (sz - 1)) else None)
      else if b \<noteq> [] \<and> 0 < decimal b \<and> 0 < sz then Some (max 0 (sz - decimal b), sz - 1) else None)"

lemma singleRange_bytes:
  assumes "list_all is_digit a" "list_all is_digit b"
  shows "singleRange (''bytes='' @ a @ ''-'' @ b) = Some (a, b)"
proof -
  have dash: "\<not> is_digit CHR ''-''" by (simp add: is_digit_def)
  have "takeWhile is_digit (a @ CHR ''-'' # b) = a" "dropWhile is_digit (a @ CHR ''-'' # b) = CHR ''-'' # b"
    using assms(1) dash by (simp_all add: list_all_iff takeWhile_append dropWhile_append)
  with assms(2) show ?thesis by (simp add: singleRange_def)
qed

lemma decimal_nonneg: "list_all is_digit a \<Longrightarrow> 0 \<le> decimal a"
  using decimal_from_ge [of 0 a] by simp

lemma range_bounds_exact:
  assumes "list_all is_digit a" "list_all is_digit b" "0 \<le> sz" "sz < 2 ^ 63"
  shows "range_bounds sz (a, b) = (if decimal b < 2 ^ 63 then named_bytes sz a b else None)"
proof -
  note nonneg = decimal_nonneg [OF assms(1)] decimal_nonneg [OF assms(2)]
  have empty: "ParseInt [] = (0, Some ErrSyntax)" by (simp add: ParseInt_def)
  have a: "ParseInt a = (if decimal a < 2 ^ 63 then (decimal a, None) else (maxInt64, Some ErrRange))" if "a \<noteq> []"
    by (rule ParseInt_digits [OF that assms(1)])
  have b: "ParseInt b = (if decimal b < 2 ^ 63 then (decimal b, None) else (maxInt64, Some ErrRange))" if "b \<noteq> []"
    by (rule ParseInt_digits [OF that assms(2)])
  show ?thesis
  proof (cases "a = []")
    case True
    with assms(3,4) nonneg b empty show ?thesis
      by (cases "b = []") (auto simp: range_bounds_def named_bytes_def Let_def max_def)
  next
    case False
    with assms(3,4) nonneg a b show ?thesis
      by (cases "b = []") (auto simp: range_bounds_def named_bytes_def min_def)
  qed
qed

lemma named_bytes_within:
  "list_all is_digit a \<Longrightarrow> list_all is_digit b \<Longrightarrow> named_bytes sz a b = Some (start, stop) \<Longrightarrow>
     0 \<le> start \<and> start \<le> stop \<and> stop < sz"
  using decimal_nonneg [of a] decimal_nonneg [of b] by (auto simp: named_bytes_def split: if_splits)

text \<open>C31: a download is exact, from a directory as from a bucket that answers. A request for the file of a document its sender
  owns is answered with the whole
  file, or, when it names one byte range, with status 206 and exactly the bytes the range names (RFC
  9110), the length and the position in the headers being those of the bytes sent; a range that names
  no byte is answered 416. The one exception is a range whose last number does not fit 63 bits, which
  is answered 416 as well.\<close>

theorem download_exact:
  assumes "stores_ok st v ss" and "FindOwned owner i d = Inr doc" and "doc_StoredPath doc = storedPath j" and "plain_name j"
    and "held_at st v ss (storedPath j) = Some (c, modified)" and "int (length c) < 2 ^ 63" and "meth \<noteq> ''HEAD''"
    and "list_all is_digit a" and "list_all is_digit b"
    and "req_Header request ''If-Modified-Since'' = []" and "req_Header request ''If-Range'' = []"
    and "req_Header request ''Range'' = (if whole then [] else ''bytes='' @ a @ ''-'' @ b)"
    and "storage_answers st v f ss" and "storage_answers st v f' ss"
    and "File_handler ht quote st True f f' meth request owner i d ss = answer"
  shows "if whole then fa_status answer = 200 \<and> fa_body answer = c \<and> \<not> fa_failed answer
    else case (if decimal b < 2 ^ 63 then named_bytes (int (length c)) a b else None) of
      None \<Rightarrow> fa_status answer = 416 \<and> fa_body answer = []
    | Some (start, stop) \<Rightarrow> fa_status answer = 206 \<and> \<not> fa_failed answer \<and>
        fa_body answer = take (nat (stop - start + 1)) (drop (nat start) c) \<and>
        int (length (fa_body answer)) = stop - start + 1 \<and>
        (''Content-Length'', FormatInt (int (length (fa_body answer)))) \<in> set (fa_headers answer) \<and>
        (''Content-Range'', ''bytes '' @ FormatInt start @ ''-'' @ FormatInt stop @ ''/'' @ FormatInt (int (length c)))
          \<in> set (fa_headers answer)"
proof -
  let ?n = "int (length c)"
  have key: "document_key (storedPath j)" by (rule document_key_storedPath [OF assms(4)])
  have stat: "ds_Stat st f (storedPath j) ss = Inr \<lparr>si_Size = ?n, si_LastModified = modified\<rparr>"
    using ds_stat_answer [OF assms(13,1) key] assms(5) by simp
  have get: "ds_GetRange st f' (storedPath j) start stop ss = Inr (Readable (take (nat (stop - start + 1)) (drop (nat start) c)))"
    if "0 \<le> start" "start \<le> stop" for start stop
    by (rule ds_range_answer [OF assms(14,1) key assms(5) that])
  have comma: "CHR '','' \<notin> set (''bytes='' @ a @ ''-'' @ b)"
    using assms(8,9) by (auto simp: list_all_iff is_digit_def)
  have ans: "serveStoredFile ht quote (\<lambda>key start stop. ds_GetRange st f' key start stop ss) meth request doc
      \<lparr>si_Size = ?n, si_LastModified = modified\<rparr> = answer"
    using assms(2,3,15) stat by (simp add: File_handler_def)
  show ?thesis
  proof (cases whole)
    case True
    with ans assms(3,7,10-12) get [of 0 "?n - 1"] show ?thesis
      by (auto simp: serveStoredFile_def Let_def no_content_def split: if_splits)
  next
    case False
    have sr: "singleRange (''bytes='' @ a @ ''-'' @ b) = Some (a, b)" by (rule singleRange_bytes [OF assms(8,9)])
    show ?thesis
    proof (cases "range_bounds ?n (a, b)")
      case None
      then have nb: "(if decimal b < 2 ^ 63 then named_bytes ?n a b else None) = None"
        using range_bounds_exact [OF assms(8,9) _ assms(6)] by simp
      have "fa_status answer = 416 \<and> fa_body answer = []"
        using ans [symmetric] assms(10-12) False sr comma None by (simp add: serveStoredFile_def Let_def no_content_def)
      with nb False show ?thesis by (simp only: if_False option.case)
    next
      case (Some r)
      obtain start stop where r: "r = (start, stop)" by (cases r)
      have nb: "(if decimal b < 2 ^ 63 then named_bytes ?n a b else None) = Some (start, stop)"
        using range_bounds_exact [OF assms(8,9) _ assms(6)] Some r by simp
      then have "0 \<le> start \<and> start \<le> stop \<and> stop < ?n"
        using named_bytes_within [OF assms(8,9)] by (auto split: if_splits)
      with ans assms(3,7,10-12) False sr comma Some r nb get [of start stop] show ?thesis
        by (auto simp: serveStoredFile_def Let_def)
    qed
  qed
qed

lemma download_exact_witness:
  "fa_status (File_handler \<lparr>FormatTime = (\<lambda>_. []), ParseTime = (\<lambda>_. None)\<rparr> (\<lambda>n. n) sample_remote True no_faults no_faults ''GET''
      (sample_request [] [] ()\<lparr>req_Header := (\<lambda>n. if n = ''Range'' then ''bytes=-3'' else [])\<rparr>) ''o'' ''a''
      (empty_db\<lparr>documents := [(sample_document ''a'' 10)\<lparr>doc_OwnerID := ''o'', doc_StoredPath := storedPath ''a''\<rparr>]\<rparr>)
      (snd (put_pdf sample_remote no_faults 7 (storedPath ''a'') ''%PDF-1'' no_files))) = 206"
proof -
  let ?ss = "snd (put_pdf sample_remote no_faults 7 (storedPath ''a'') ''%PDF-1'' no_files)"
  let ?doc = "(sample_document ''a'' 10)\<lparr>doc_OwnerID := ''o'', doc_StoredPath := storedPath ''a''\<rparr>"
  have ok: "stores_ok sample_remote sample_view ?ss"
    by (rule ds_put(1) [OF sample_documented(2) no_files_ok(2) _ prod.collapse [symmetric]]) (simp add: document_key_storedPath plain_name_def)
  have facts: "FindOwned ''o'' ''a'' (empty_db\<lparr>documents := [?doc]\<rparr>) = Inr ?doc" "doc_StoredPath ?doc = storedPath ''a''"
    "plain_name ''a''" "held_at sample_remote sample_view ?ss (storedPath ''a'') = Some (''%PDF-1'', 7)"
    "int (length ''%PDF-1'') < 2 ^ 63" "''GET'' \<noteq> ''HEAD''" "list_all is_digit []" "list_all is_digit ''3''"
    by code_simp+
  have answers: "storage_answers sample_remote sample_view no_faults ?ss"
    by (simp add: storage_answers_def sample_remote_def sample_bucket_def sample_view_def no_faults_def sample_client_answers)
  have "(case (if decimal ''3'' < 2 ^ 63 then named_bytes (int (length ''%PDF-1'')) [] ''3'' else None) of
      None \<Rightarrow> False | Some (start, stop) \<Rightarrow> True)" by code_simp
  then show ?thesis
    using download_exact [OF ok facts _ _ _ answers answers refl, where whole = False and
        ht = "\<lparr>FormatTime = (\<lambda>_. []), ParseTime = (\<lambda>_. None)\<rparr>" and quote = "\<lambda>n. n"
        and request = "sample_request [] [] ()\<lparr>req_Header := (\<lambda>n. if n = ''Range'' then ''bytes=-3'' else [])\<rparr>"]
    by (auto split: option.splits)
qed

end
