(* ===== verification/Document_Handlers.thy ===== *)
theory Document_Handlers
  imports Listing Byte_Range Quota_Machine Admission Metrics Uuid
begin

text \<open>
  The handlers of \<^verbatim>\<open>api/documents.go\<close> that store, read, retry and delete documents; listing,
  downloads and answers have theories of their own. A handler takes the server, that is the database,
  the stored files, the in-memory admission control and the metrics, and what the outside answers
  during the call: whether the connection to the database holds for each of its calls, the clock, the
  random bytes, what happens while the storage is called. \<open>Refused_With\<close> is an answer with a JSON error message.
\<close>

section \<open>The server\<close>

record 's server =
  sv_db :: db
  sv_files :: "'s stores"
  sv_admission :: admissionController
  sv_metrics :: metrics

text \<open>Which of the optional interfaces the store has: \<^verbatim>\<open>quotaStore\<close>, \<^verbatim>\<open>atomicUploadStore\<close>.
  The one for PostgreSQL has both.\<close>

datatype store_kind = NoQuota | DurableQuota | AtomicQuota

text \<open>The points of a handler where it calls the store or reads the clock.\<close>

datatype call_point = Rating | Reserving_Until | Reserving_Now | Creating | Committing_Now | Undoing | Releasing_Now

record 'f conditions =
  cx_up :: "call_point \<Rightarrow> bool"
  cx_clock :: "call_point \<Rightarrow> time"
  cx_random :: "byte list option"
  cx_put :: "'f storage_faults"
  cx_put_time :: time
  cx_remove :: "'f storage_faults"

definition call :: "'f conditions \<Rightarrow> call_point \<Rightarrow> 'a op \<Rightarrow> 's server \<Rightarrow> (error + 'a) \<times> 's server" where
  "call cx p f sv = (case with_connection (cx_up cx p) f (sv_db sv) of (r, d) \<Rightarrow> (r, sv\<lparr>sv_db := d\<rparr>))"

section \<open>Upload\<close>

text \<open>The request: its declared length, how many bytes follow, and the part named \<^verbatim>\<open>file\<close> of the form with
  its filename, if the form can be read. Behind \<^verbatim>\<open>http.MaxBytesReader\<close> a longer body cannot be.\<close>

record upload_request =
  ul_ContentLength :: int
  ul_BodyLength :: int
  ul_Form :: "(string \<times> string) option"
  ul_SeekError :: bool

definition FormFile :: "upload_request \<Rightarrow> (string \<times> string) option" where
  "FormFile request = (if ul_BodyLength request > maxUploadSize then None else ul_Form request)"

definition reject :: "nat \<Rightarrow> string \<Rightarrow> 's server \<Rightarrow> 'a answer \<times> 's server" where
  "reject code message sv =
     (Refused_With code message, sv\<lparr>sv_metrics := sv_metrics sv\<lparr>uploadRejections := uploadRejections (sv_metrics sv) + 1\<rparr>\<rparr>)"

text \<open>Asking for room: the error of the rate limit, or whether the upload is admitted.\<close>

definition admit_upload :: "store_kind \<Rightarrow> 'f conditions \<Rightarrow> string \<Rightarrow> string \<Rightarrow> int \<Rightarrow> 's server \<Rightarrow> (error + bool) \<times> 's server" where
  "admit_upload kind cx ownerID i sz sv =
     (if kind = NoQuota
      then (case reserveUpload (cx_clock cx Reserving_Now) (sv_admission sv) ownerID sz of
              (granted, a) \<Rightarrow> (Inr granted, sv\<lparr>sv_admission := a\<rparr>))
      else if \<not> cx_up cx Rating then (Inl ErrUnavailable, sv)
      else (case AllowRate ''upload-owner'' ownerID maxUploadsPerHour time_Hour (cx_clock cx Rating) (rate_limit_buckets (sv_db sv)) of
              (allowed, buckets) \<Rightarrow>
                let sv = sv\<lparr>sv_db := (sv_db sv)\<lparr>rate_limit_buckets := buckets\<rparr>\<rparr>
                in if \<not> allowed then (Inr False, sv)
                   else (case call cx Reserving_Now (ReserveUpload (cx_clock cx Reserving_Now) ownerID i i sz
                                (cx_clock cx Reserving_Until + 30 * time_Minute)) sv of
                           (Inl _, sv) \<Rightarrow> (Inr False, sv)
                         | (Inr _, sv) \<Rightarrow> (Inr True, sv))))"

text \<open>The deferred call, when the upload has not been completed.\<close>

definition release_upload :: "store_kind \<Rightarrow> 'f conditions \<Rightarrow> string \<Rightarrow> string \<Rightarrow> int \<Rightarrow> 's server \<Rightarrow> 's server" where
  "release_upload kind cx ownerID i sz sv =
     (if kind = NoQuota then sv\<lparr>sv_admission := releaseUpload (sv_admission sv) ownerID sz\<rparr>
      else snd (call cx Releasing_Now (ReleaseUpload (cx_clock cx Releasing_Now) i) sv))"

definition remove_stored :: "('f, 's) documentStorage \<Rightarrow> 'f conditions \<Rightarrow> string \<Rightarrow> 's server \<Rightarrow> storage_error option \<times> 's server" where
  "remove_stored st cx key sv =
     (case ds_Delete st (cx_remove cx) key (sv_files sv) of (e, ss) \<Rightarrow> (e, sv\<lparr>sv_files := ss\<rparr>))"

definition upload_document :: "string \<Rightarrow> string \<Rightarrow> int \<Rightarrow> time \<Rightarrow> document" where
  "upload_document i filename sz now = \<lparr>doc_ID = i, doc_OwnerID = [], doc_OriginalFilename = filename,
     doc_StoredPath = storedPath i, doc_MIMEType = ''application/pdf'', doc_Size = sz, doc_PageCount = 0,
     doc_Status = ''queued'', doc_ExtractedTextPath = None, doc_ExtractedText = None, doc_Result = None,
     doc_ErrorMessage = None, doc_FailureKind = [], doc_AttemptCount = 0, doc_NextAttemptAt = None,
     doc_LeaseToken = None, doc_LeaseExpiresAt = None, doc_CreatedAt = now, doc_UpdatedAt = now\<rparr>"

text \<open>Storing the file and its row; an error message when something went wrong.\<close>

definition store_upload ::
    "store_kind \<Rightarrow> (document \<Rightarrow> bool) \<Rightarrow> ('f, 's) documentStorage \<Rightarrow> 'f conditions \<Rightarrow> string \<Rightarrow> string \<Rightarrow> string \<Rightarrow> string \<Rightarrow> 's server \<Rightarrow>
     string option \<times> 's server" where
  "store_upload kind accepts st cx ownerID i filename content sv =
     (case ds_Put st (cx_put cx) (cx_put_time cx) (storedPath i) content (int (length content)) ''application/pdf'' (sv_files sv) of
        (Some _, ss) \<Rightarrow> (Some ''could not save uploaded file'', sv\<lparr>sv_files := ss\<rparr>)
      | (None, ss) \<Rightarrow>
          let sv = sv\<lparr>sv_files := ss\<rparr>;
              doc = upload_document i filename (int (length content)) (cx_clock cx Creating)
          in if kind = AtomicQuota
             then (case call cx Committing_Now (CreateOwnedAndCommitUpload accepts (cx_clock cx Committing_Now) ownerID doc i) sv of
                     (Inl _, sv) \<Rightarrow>
                       (Some ''could not commit document metadata and upload quota'', snd (remove_stored st cx (storedPath i) sv))
                   | (Inr _, sv) \<Rightarrow> (None, sv))
             else (case call cx Creating (CreateOwned accepts ownerID doc) sv of
                     (Inl _, sv) \<Rightarrow> (Some ''could not save document metadata'', snd (remove_stored st cx (storedPath i) sv))
                   | (Inr _, sv) \<Rightarrow>
                       if kind = NoQuota then (None, sv)
                       else (case call cx Committing_Now (CommitUpload (cx_clock cx Committing_Now) i) sv of
                               (Inl _, sv) \<Rightarrow>
                                 let sv = snd (call cx Undoing (DeleteOwned ownerID i) sv)
                                 in (Some ''could not commit upload quota'', snd (remove_stored st cx (storedPath i) sv))
                             | (Inr _, sv) \<Rightarrow> (None, sv))))"

definition Upload ::
    "store_kind \<Rightarrow> (document \<Rightarrow> bool) \<Rightarrow> ('f, 's) documentStorage \<Rightarrow> 'f conditions \<Rightarrow> string \<Rightarrow> upload_request \<Rightarrow> 's server \<Rightarrow>
     (string \<times> string) list answer \<times> 's server" where
  "Upload kind accepts st cx ownerID request sv =
     (if ul_ContentLength request > maxUploadSize then reject 413 ''uploaded file is too large'' sv
      else case FormFile request of
        None \<Rightarrow> reject 400 ''a PDF file is required'' sv
      | Some (filename, content) \<Rightarrow>
          (if length content < 5 \<or> take 5 content \<noteq> ''%PDF-'' then reject 400 ''file must be a PDF document'' sv
           else if ul_SeekError request then (Refused_With 500 ''could not process uploaded file'', sv)
           else if int (length content) > maxUploadSize then reject 429 ''upload quota exceeded'' sv
           else case documentID (cx_random cx) of
               None \<Rightarrow> (Refused_With 500 ''could not create document ID'', sv)
             | Some i \<Rightarrow>
                 (case admit_upload kind cx ownerID i (int (length content)) sv of
                    (Inl _, sv) \<Rightarrow> (Refused_With 500 ''could not check upload quota'', sv)
                  | (Inr False, sv) \<Rightarrow> reject 429 ''upload quota exceeded'' sv
                  | (Inr True, sv) \<Rightarrow>
                      (case store_upload kind accepts st cx ownerID i filename content sv of
                         (Some message, sv) \<Rightarrow>
                           (Refused_With 500 message, release_upload kind cx ownerID i (int (length content)) sv)
                       | (None, sv) \<Rightarrow>
                           (Answered 202 [(''documentId'', i), (''status'', ''queued'')],
                            sv\<lparr>sv_metrics := (sv_metrics sv)\<lparr>uploads := uploads (sv_metrics sv) + 1\<rparr>\<rparr>)))))"

section \<open>Reading a document\<close>

record documentResponse =
  dr_DocumentID :: string
  dr_Filename :: string
  dr_Status :: string
  dr_PageCount :: "32 word"
  dr_AttemptCount :: int
  dr_FailureKind :: "string option"
  dr_NextAttemptAt :: "time option"
  dr_Text :: "string option"
  dr_Error :: "string option"

definition Get_handler :: "bool \<Rightarrow> string \<Rightarrow> string \<Rightarrow> db \<Rightarrow> documentResponse answer" where
  "Get_handler up ownerID i d =
     (case (if up then FindOwned ownerID i d else Inl ErrUnavailable) of
        Inl _ \<Rightarrow> Refused_With 404 ''document not found''
      | Inr doc \<Rightarrow> Answered 200 \<lparr>dr_DocumentID = doc_ID doc, dr_Filename = doc_OriginalFilename doc,
          dr_Status = doc_Status doc, dr_PageCount = doc_PageCount doc, dr_AttemptCount = doc_AttemptCount doc,
          dr_FailureKind = (if doc_Status doc = ''failed'' then Some (failureKindFor (doc_Status doc) (doc_FailureKind doc)) else None),
          dr_NextAttemptAt = doc_NextAttemptAt doc, dr_Text = doc_ExtractedText doc, dr_Error = doc_ErrorMessage doc\<rparr>)"

record documentStatusResponse =
  sp_DocumentID :: string
  sp_Filename :: string
  sp_Status :: string
  sp_PageCount :: "32 word"
  sp_AttemptCount :: int
  sp_NextAttemptAt :: "time option"
  sp_Error :: "string option"
  sp_FailureKind :: string

definition Status_handler :: "bool \<Rightarrow> string \<Rightarrow> string \<Rightarrow> db \<Rightarrow> documentStatusResponse answer" where
  "Status_handler up ownerID i d =
     (case (if up then FindStatusOwned ownerID i d else Inl ErrUnavailable) of
        Inl _ \<Rightarrow> Refused_With 404 ''document not found''
      | Inr st \<Rightarrow> Answered 200 \<lparr>sp_DocumentID = st_ID st, sp_Filename = st_OriginalFilename st, sp_Status = st_Status st,
          sp_PageCount = st_PageCount st, sp_AttemptCount = st_AttemptCount st, sp_NextAttemptAt = st_NextAttemptAt st,
          sp_Error = st_ErrorMessage st, sp_FailureKind = failureKindFor (st_Status st) (st_FailureKind st)\<rparr>)"

record documentSource =
  src_ChunkIndex :: int
  src_Text :: string
  src_StartOffset :: "64 word"
  src_EndOffset :: "64 word"
  src_PageStart :: "32 word"
  src_PageEnd :: "32 word"

definition chunk_source :: "documentChunk \<Rightarrow> documentSource" where
  "chunk_source c = \<lparr>src_ChunkIndex = ch_ChunkIndex c, src_Text = ch_Text c, src_StartOffset = ch_StartOffset c,
     src_EndOffset = ch_EndOffset c, src_PageStart = ch_PageStart c, src_PageEnd = ch_PageEnd c\<rparr>"

text \<open>Two calls of the store: the connection may be gone for either.\<close>

definition Chunks_handler :: "bool \<Rightarrow> bool \<Rightarrow> string \<Rightarrow> string \<Rightarrow> db \<Rightarrow> documentSource list answer" where
  "Chunks_handler up up' ownerID i d =
     (case (if up then FindOwned ownerID i d else Inl ErrUnavailable) of
        Inl _ \<Rightarrow> Refused_With 404 ''document not found''
      | Inr _ \<Rightarrow>
          (if \<not> up' then Refused_With 500 ''could not load document chunks''
           else Answered 200 (map chunk_source (ListChunksOwned ownerID i d))))"

record question_entry =
  qe_ID :: string
  qe_DocumentID :: string
  qe_Question :: string
  qe_Answer :: string
  qe_Sources :: "documentSource list"    \<comment> \<open>the nil slice is empty here\<close>
  qe_CreatedAt :: time

text \<open>The loop over the stored questions; \<open>decode\<close> is \<^verbatim>\<open>json.Unmarshal\<close> into the sources.\<close>

fun question_entries :: "(string \<Rightarrow> documentSource list option) \<Rightarrow> documentQuestion list \<Rightarrow> question_entry list option" where
  "question_entries decode [] = Some []"
| "question_entries decode (q # qs) =
     (case (if q_Sources q \<noteq> [] then decode (q_Sources q) else Some []) of
        None \<Rightarrow> None
      | Some sources \<Rightarrow>
          map_option (Cons \<lparr>qe_ID = q_ID q, qe_DocumentID = q_DocumentID q, qe_Question = q_Question q,
            qe_Answer = q_Answer q, qe_Sources = sources, qe_CreatedAt = q_CreatedAt q\<rparr>) (question_entries decode qs))"

definition Questions_handler ::
    "(string \<Rightarrow> documentSource list option) \<Rightarrow> bool \<Rightarrow> bool \<Rightarrow> string \<Rightarrow> string \<Rightarrow> db \<Rightarrow> question_entry list answer" where
  "Questions_handler decode up up' ownerID i d =
     (case (if up then FindOwned ownerID i d else Inl ErrUnavailable) of
        Inl _ \<Rightarrow> Refused_With 404 ''document not found''
      | Inr _ \<Rightarrow>
          (if \<not> up' then Refused_With 500 ''could not load question history''
           else case question_entries decode (ListQuestionsOwned ownerID i d) of
               None \<Rightarrow> Refused_With 500 ''could not decode question history''
             | Some result \<Rightarrow> Answered 200 result))"

section \<open>Deleting and retrying\<close>

text \<open>\<open>up\<close>, \<open>up'\<close>: whether the connection holds while the document is looked up and deleted; \<open>f\<close>: what happens
  while its file is deleted.\<close>

definition Delete_handler ::
    "store_kind \<Rightarrow> ('f, 's) documentStorage \<Rightarrow> bool \<Rightarrow> bool \<Rightarrow> time \<Rightarrow> 'f storage_faults \<Rightarrow> string \<Rightarrow> string \<Rightarrow> 's server \<Rightarrow>
     unit answer \<times> 's server" where
  "Delete_handler kind st up up' now f ownerID i sv =
     (case (if up then FindOwned ownerID i (sv_db sv) else Inl ErrUnavailable) of
        Inl _ \<Rightarrow> (Refused_With 404 ''document not found'', sv)
      | Inr doc \<Rightarrow>
          (let clean_up = (\<lambda>doc sv. case ds_Delete st f (doc_StoredPath doc) (sv_files sv) of
                 (Some _, ss) \<Rightarrow> (Refused_With 500 ''document metadata deleted but file cleanup failed'', sv\<lparr>sv_files := ss\<rparr>)
               | (None, ss) \<Rightarrow> (Empty_Answer 204, sv\<lparr>sv_files := ss\<rparr>))
           in if kind \<noteq> NoQuota
              then (case with_connection up' (DeleteOwnedWithUsage now ownerID i) (sv_db sv) of
                      (Inl _, d) \<Rightarrow> (Refused_With 500 ''could not delete document'', sv\<lparr>sv_db := d\<rparr>)
                    | (Inr deleted, d) \<Rightarrow> clean_up deleted (sv\<lparr>sv_db := d\<rparr>))
              else (case with_connection up' (DeleteOwned ownerID i) (sv_db sv) of
                      (Inl _, d) \<Rightarrow> (Refused_With 500 ''could not delete document'', sv\<lparr>sv_db := d\<rparr>)
                    | (Inr _, d) \<Rightarrow>
                        clean_up doc (sv\<lparr>sv_db := d, sv_admission := releaseUpload (sv_admission sv) ownerID (doc_Size doc)\<rparr>))))"

definition Retry_handler :: "bool \<Rightarrow> time \<Rightarrow> string \<Rightarrow> string \<Rightarrow> db \<Rightarrow> (string \<times> string) list answer \<times> db" where
  "Retry_handler up now ownerID i d =
     (case with_connection up (RetryOwned now ownerID i) d of
        (Inl ErrPermanentFailure, d) \<Rightarrow>
          (Refused_With 409 ''this document cannot be retried; OCR is required for scanned PDFs or the PDF must be corrected'', d)
      | (Inl _, d) \<Rightarrow> (Refused_With 409 ''only failed documents can be retried'', d)
      | (Inr _, d) \<Rightarrow> (Answered 202 [(''documentId'', i), (''status'', ''queued'')], d))"

section \<open>What a reader may see\<close>

text \<open>The part of the database that belongs to one owner.\<close>

definition own_part :: "string \<Rightarrow> db \<Rightarrow> db" where
  "own_part ownerID d =
     (let mine = filter (\<lambda>r. doc_OwnerID r = ownerID) (documents d)
      in d\<lparr>documents := mine,
           document_chunks := filter (\<lambda>c. ch_DocumentID c \<in> doc_ID ` set mine) (document_chunks d),
           document_questions := filter (\<lambda>q. q_OwnerID q = ownerID) (document_questions d)\<rparr>)"

lemma find_filter: "find P (filter Q xs) = find (\<lambda>x. Q x \<and> P x) xs"
  by (induction xs) auto

lemma FindOwned_own_part: "FindOwned ownerID i (own_part ownerID d) = FindOwned ownerID i d"
  by (simp add: FindOwned_def own_part_def Let_def find_filter conj_ac cong: conj_cong)

lemma FindStatusOwned_own_part: "FindStatusOwned ownerID i (own_part ownerID d) = FindStatusOwned ownerID i d"
  by (simp add: FindStatusOwned_def own_part_def Let_def find_filter conj_ac cong: conj_cong)

lemma owned_chunks_own_part: "owned_chunks ownerID i (own_part ownerID d) = owned_chunks ownerID i d"
proof -
  let ?rows = "\<lambda>c. filter (\<lambda>r. doc_ID r = ch_DocumentID c \<and> doc_OwnerID r = ownerID) (documents d)"
  let ?mine = "doc_ID ` {r \<in> set (documents d). doc_OwnerID r = ownerID}"
  have none: "?rows c = []" if "ch_DocumentID c \<notin> ?mine" for c
    using that by (auto simp: filter_empty_conv image_iff)
  have "concat (map (\<lambda>c. map (\<lambda>_. c) (?rows c)) (filter (\<lambda>c. ch_DocumentID c \<in> ?mine \<and> ch_DocumentID c = i) cs)) =
      concat (map (\<lambda>c. map (\<lambda>_. c) (?rows c)) (filter (\<lambda>c. ch_DocumentID c = i) cs))" for cs
    by (induction cs) (auto simp: none)
  moreover have "filter (\<lambda>r. doc_OwnerID r = ownerID \<and> doc_ID r = x \<and> doc_OwnerID r = ownerID) (documents d) =
      filter (\<lambda>r. doc_ID r = x \<and> doc_OwnerID r = ownerID) (documents d)" for x
    by (rule filter_cong) auto
  ultimately show ?thesis by (simp add: owned_chunks_def own_part_def Let_def conj_ac)
qed

lemma answers_own_part:
  "Get_handler up ownerID i (own_part ownerID d) = Get_handler up ownerID i d"
  "Status_handler up ownerID i (own_part ownerID d) = Status_handler up ownerID i d"
  "Chunks_handler up up' ownerID i (own_part ownerID d) = Chunks_handler up up' ownerID i d"
  "Questions_handler decode up up' ownerID i (own_part ownerID d) = Questions_handler decode up up' ownerID i d"
  "File_handler ht quote st up f f' meth request ownerID i (own_part ownerID d) ss = File_handler ht quote st up f f' meth request ownerID i d ss"
  "List_handler codec paged up ownerID q_search q_limit q_cursor (own_part ownerID d) =
     List_handler codec paged up ownerID q_search q_limit q_cursor d"
proof -
  note found = FindOwned_own_part [of ownerID i d] FindStatusOwned_own_part [of ownerID i d]
  show "Get_handler up ownerID i (own_part ownerID d) = Get_handler up ownerID i d"
    "Status_handler up ownerID i (own_part ownerID d) = Status_handler up ownerID i d"
    "File_handler ht quote st up f f' meth request ownerID i (own_part ownerID d) ss = File_handler ht quote st up f f' meth request ownerID i d ss"
    by (simp_all only: Get_handler_def Status_handler_def File_handler_def found)
  have "ListChunksOwned ownerID i (own_part ownerID d) = ListChunksOwned ownerID i d"
    by (simp add: ListChunksOwned_def owned_chunks_own_part)
  then show "Chunks_handler up up' ownerID i (own_part ownerID d) = Chunks_handler up up' ownerID i d"
    by (simp only: Chunks_handler_def found)
  have "ListQuestionsOwned ownerID i (own_part ownerID d) = ListQuestionsOwned ownerID i d"
    by (simp add: ListQuestionsOwned_def own_part_def Let_def)
  then show "Questions_handler decode up up' ownerID i (own_part ownerID d) = Questions_handler decode up up' ownerID i d"
    by (simp only: Questions_handler_def found)
  have "filter (\<lambda>r. doc_OwnerID r = ownerID \<and> listed ownerID search r) (documents d) = filter (listed ownerID search) (documents d)" for search
    by (rule filter_cong) (auto simp: listed_def)
  then have "ListOwnedPage ownerID search limit cursor (own_part ownerID d) = ListOwnedPage ownerID search limit cursor d"
    for search limit cursor by (simp add: ListOwnedPage_def own_part_def Let_def)
  moreover have "ListOwned ownerID (own_part ownerID d) = ListOwned ownerID d"
    by (simp add: ListOwned_def own_part_def Let_def)
  ultimately show "List_handler codec paged up ownerID q_search q_limit q_cursor (own_part ownerID d) =
     List_handler codec paged up ownerID q_search q_limit q_cursor d"
    by (simp only: List_handler_def)
qed

text \<open>C12: what an owner is answered depends on nothing that belongs to others. Each reading handler,
  asked for any document or page, answers exactly as if the database held the rows of this owner alone.\<close>

theorem answers_confined_to_owner:
  "Get_handler up ownerID i (own_part ownerID d) = Get_handler up ownerID i d \<and>
   Status_handler up ownerID i (own_part ownerID d) = Status_handler up ownerID i d \<and>
   Chunks_handler up up' ownerID i (own_part ownerID d) = Chunks_handler up up' ownerID i d \<and>
   Questions_handler decode up up' ownerID i (own_part ownerID d) = Questions_handler decode up up' ownerID i d \<and>
   File_handler ht quote st up f f' meth request ownerID i (own_part ownerID d) ss =
     File_handler ht quote st up f f' meth request ownerID i d ss \<and>
   List_handler codec paged up ownerID q_search q_limit q_cursor (own_part ownerID d) =
     List_handler codec paged up ownerID q_search q_limit q_cursor d"
  by (simp add: answers_own_part)

end
