(* ===== verification/Orphans.thy ===== *)
theory Orphans
  imports Document_Storage Job_Store
begin

text \<open>
  The clean-up of uploads nobody refers to (\<^verbatim>\<open>reconcileOrphanedUploads\<close> of \<^verbatim>\<open>api/storage.go\<close>,
  \<^verbatim>\<open>environmentIntDefault\<close> and \<^verbatim>\<open>environmentDurationDefault\<close> of \<^verbatim>\<open>api/database.go\<close>). The storage is
  the one of the contract \<open>document_storage\<close>; asking the database may fail, so its answers are an
  argument, which the properties tie to \<open>UploadReferenceExists\<close>.
\<close>

definition environmentIntDefault :: "(string \<Rightarrow> int option) \<Rightarrow> environment \<Rightarrow> string \<Rightarrow> int \<Rightarrow> int" where
  "environmentIntDefault scan_d env name fallback =
     (let v = getenv env name []
      in if v = [] then fallback
         else case scan_d v of None \<Rightarrow> fallback | Some parsed \<Rightarrow> (if parsed \<le> 0 then fallback else parsed))"

definition environmentDurationDefault :: "(string \<Rightarrow> duration option) \<Rightarrow> environment \<Rightarrow> string \<Rightarrow> duration \<Rightarrow> duration" where
  "environmentDurationDefault ParseDuration env name fallback =
     (let v = getenv env name []
      in if v = [] then fallback
         else case ParseDuration v of None \<Rightarrow> fallback | Some parsed \<Rightarrow> (if parsed \<le> 0 then fallback else parsed))"

datatype reconcile_error = ListError storage_error | ReferenceError error | DeleteError storage_error

text \<open>The loop over the listed objects.\<close>

fun reconcile_objects ::
    "(string \<Rightarrow> 's \<Rightarrow> storage_error option \<times> 's) \<Rightarrow> (string \<Rightarrow> error + bool) \<Rightarrow> time \<Rightarrow> storageObject list \<Rightarrow> 's \<Rightarrow>
     reconcile_error option \<times> 's" where
  "reconcile_objects delete references cutoff [] s = (None, s)"
| "reconcile_objects delete references cutoff (x # xs) s =
     (if so_LastModified x > cutoff then reconcile_objects delete references cutoff xs s
      else case Split CHR ''/'' (so_Key x) of
          [a, i, b] \<Rightarrow>
            (if a \<noteq> ''documents'' \<or> b \<noteq> ''original.pdf'' then reconcile_objects delete references cutoff xs s
             else case references i of
                 Inl e \<Rightarrow> (Some (ReferenceError e), s)
               | Inr exists \<Rightarrow>
                   (if exists then reconcile_objects delete references cutoff xs s
                    else case delete (so_Key x) s of
                        (Some e, s) \<Rightarrow> (Some (DeleteError e), s)
                      | (None, s) \<Rightarrow> reconcile_objects delete references cutoff xs s))
        | _ \<Rightarrow> reconcile_objects delete references cutoff xs s)"

definition reconcileOrphanedUploads ::
    "(string \<Rightarrow> 's \<Rightarrow> storage_error + storageObject list) \<Rightarrow> (string \<Rightarrow> 's \<Rightarrow> storage_error option \<times> 's) \<Rightarrow> (string \<Rightarrow> duration option) \<Rightarrow>
     environment \<Rightarrow> time \<Rightarrow> (string \<Rightarrow> error + bool) \<Rightarrow> 's \<Rightarrow> reconcile_error option \<times> 's" where
  "reconcileOrphanedUploads list_objects delete ParseDuration env now references s =
     (case list_objects ''documents/'' s of
        Inl e \<Rightarrow> (Some (ListError e), s)
      | Inr objects \<Rightarrow>
          (let minimumAge = environmentDurationDefault ParseDuration env ''UPLOAD_ORPHAN_MIN_AGE'' time_Hour
           in reconcile_objects delete references (now - minimumAge) objects s))"

section \<open>With any storage of the contract\<close>

text \<open>The objects the loop may delete.\<close>

definition orphan :: "(string \<Rightarrow> error + bool) \<Rightarrow> time \<Rightarrow> storageObject \<Rightarrow> string \<Rightarrow> bool" where
  "orphan references cutoff x i \<longleftrightarrow> so_Key x = storedPath i \<and> so_LastModified x \<le> cutoff \<and> references i = Inr False"

lemma Split_document:
  "Split CHR ''/'' key = [''documents'', i, ''original.pdf''] \<Longrightarrow> key = storedPath i"
  using Split_concat [of key] by (simp add: slash_join_Cons storedPath_def)

context document_storage
begin

lemma reconcile_objects_effect:
  assumes "invar s"
    and "\<forall>x \<in> set xs. \<forall>i. Split CHR ''/'' (so_Key x) = [''documents'', i, ''original.pdf''] \<longrightarrow> plain_name i"
    and "reconcile_objects (\<lambda>key. delete (g key) key) references cutoff xs s = (e, s')"
  shows "invar s' \<and>
    (\<forall>i. content s' (storedPath i) = content s (storedPath i) \<or>
       content s' (storedPath i) = None \<and> (\<exists>x \<in> set xs. orphan references cutoff x i)) \<and>
    (e = None \<longrightarrow> (\<forall>i. plain_name i \<longrightarrow> (\<forall>x \<in> set xs. so_Key x = storedPath i \<longrightarrow> so_LastModified x \<le> cutoff \<longrightarrow>
       references i = Inr True \<or> content s' (storedPath i) = None)))"
  using assms
proof (induction xs arbitrary: s)
  case (Cons x xs)
  note step = "Cons.prems"(3)
  let ?next = "reconcile_objects (\<lambda>key. delete (g key) key) references cutoff xs s = (e, s')"
  have IH: ?case if ?next "\<And>i. plain_name i \<Longrightarrow> so_Key x = storedPath i \<Longrightarrow> so_LastModified x \<le> cutoff \<Longrightarrow> references i = Inr True"
  proof -
    have "\<forall>x \<in> set xs. \<forall>i. Split CHR ''/'' (so_Key x) = [''documents'', i, ''original.pdf''] \<longrightarrow> plain_name i"
      using Cons.prems(2) by simp
    from Cons.IH [OF Cons.prems(1) this that(1)] that(2) show ?case by auto
  qed
  show ?case
  proof (cases "so_LastModified x \<le> cutoff \<and> (\<exists>i. Split CHR ''/'' (so_Key x) = [''documents'', i, ''original.pdf''])")
    case False
    then have nxt: ?next using step by (auto split: list.splits if_splits)
    have none: "\<not> (plain_name i \<and> so_Key x = storedPath i \<and> so_LastModified x \<le> cutoff)" for i
      using False storedPath_Split by metis
    show ?thesis by (rule IH [OF nxt]) (use none in blast)
  next
    case True
    then obtain i where i: "so_LastModified x \<le> cutoff" "Split CHR ''/'' (so_Key x) = [''documents'', i, ''original.pdf'']"
      by blast
    have key: "so_Key x = storedPath i" "plain_name i" using Split_document [OF i(2)] Cons.prems(2) i(2) by auto
    then have dk: "document_key (so_Key x)" by (simp add: document_key_storedPath)
    show ?thesis
    proof (cases "references i")
      case (Inl err)
      with step i have "e = Some (ReferenceError err)" "s' = s" by auto
      with Cons.prems(1) show ?thesis by simp
    next
      case (Inr ex)
      show ?thesis
      proof (cases ex)
        case True
        with step i Inr have nxt: ?next by simp
        show ?thesis by (rule IH [OF nxt]) (use True Inr key(1) in \<open>simp add: storedPath_inj\<close>)
      next
        case False
        obtain e1 s1 where del: "delete (g (so_Key x)) (so_Key x) s = (e1, s1)" by force
        have o: "orphan references cutoff x i" using key(1) i(1) Inr False by (simp add: orphan_def)
        show ?thesis
        proof (cases e1)
          case None
          with step i Inr False del have nxt: "reconcile_objects (\<lambda>key. delete (g key) key) references cutoff xs s1 = (e, s')" by simp
          from delete_done [OF Cons.prems(1) dk] del None have s1: "invar s1" "content s1 = (content s)(storedPath i := None)"
            using key(1) by auto
          from Cons.IH [OF s1(1) _ nxt] Cons.prems(2) have
            IH1: "invar s'" "\<And>j. content s' (storedPath j) = content s1 (storedPath j) \<or>
                content s' (storedPath j) = None \<and> (\<exists>x \<in> set xs. orphan references cutoff x j)"
              "e = None \<Longrightarrow> \<forall>j. plain_name j \<longrightarrow> (\<forall>x \<in> set xs. so_Key x = storedPath j \<longrightarrow> so_LastModified x \<le> cutoff \<longrightarrow>
                references j = Inr True \<or> content s' (storedPath j) = None)" by auto
          have "content s' (storedPath i) = None" using IH1(2) [of i] s1(2) by auto
          moreover have "content s' (storedPath j) = content s (storedPath j) \<or>
              content s' (storedPath j) = None \<and> (\<exists>y \<in> set (x # xs). orphan references cutoff y j)" for j
            using IH1(2) [of j] s1(2) o calculation by (cases "j = i") (auto simp: storedPath_inj)
          ultimately show ?thesis using IH1(1,3) key(1) by (auto simp: storedPath_inj)
        next
          case (Some err)
          with step i Inr False del have r: "e \<noteq> None" "s' = s1" by auto
          have "invar s1 \<and> (content s1 = content s \<or> content s1 = (content s)(storedPath i := None))"
            using delete_failed [OF Cons.prems(1) dk] del Some key(1) by simp
          with o r show ?thesis by (auto simp: storedPath_inj split: if_splits)
        qed
      qed
    qed
  qed
qed simp

lemma reconcile_effect:
  assumes "invar s"
    and "reconcileOrphanedUploads (list_objects h) (\<lambda>key. delete (g key) key) ParseDuration env now references s = (e, s')"
    and "cutoff = now - environmentDurationDefault ParseDuration env ''UPLOAD_ORPHAN_MIN_AGE'' time_Hour"
  shows "invar s'"
    "plain_name i \<Longrightarrow> content s' (storedPath i) = content s (storedPath i) \<or> content s' (storedPath i) = None \<and>
      references i = Inr False \<and> (\<exists>c t. content s (storedPath i) = Some (c, t) \<and> t \<le> cutoff)"
    "e = None \<Longrightarrow> plain_name i \<Longrightarrow> content s' (storedPath i) = Some (c, t) \<Longrightarrow> t > cutoff \<or> references i = Inr True"
proof -
  consider (failed) err where "list_objects h ''documents/'' s = Inl err" "e = Some (ListError err)" "s' = s"
    | (walked) xs where "list_objects h ''documents/'' s = Inr xs" "reconcile_objects (\<lambda>key. delete (g key) key) references cutoff xs s = (e, s')"
    using assms(2,3) by (cases "list_objects h ''documents/'' s") (auto simp: reconcileOrphanedUploads_def Let_def)
  then have "invar s' \<and> (plain_name i \<longrightarrow>
      (content s' (storedPath i) = content s (storedPath i) \<or> content s' (storedPath i) = None \<and>
        references i = Inr False \<and> (\<exists>c t. content s (storedPath i) = Some (c, t) \<and> t \<le> cutoff)) \<and>
      (e = None \<longrightarrow> content s' (storedPath i) = Some (c, t) \<longrightarrow> t > cutoff \<or> references i = Inr True))"
  proof cases
    case walked
    note plain = list_plain [OF assms(1) walked(1)]
    note eff = reconcile_objects_effect [OF assms(1) _ walked(2)]
    have listed: "x \<in> set xs \<longleftrightarrow> (\<exists>c. content s (storedPath i) = Some (c, so_LastModified x))"
      if "so_Key x = storedPath i" "plain_name i" for x
      using list_content [OF assms(1) document_key_storedPath [OF that(2)] walked(1), of "so_LastModified x"] that(1) by (cases x) simp
    have "content s' (storedPath i) = content s (storedPath i) \<or> content s' (storedPath i) = None \<and>
        references i = Inr False \<and> (\<exists>c t. content s (storedPath i) = Some (c, t) \<and> t \<le> cutoff)" if i: "plain_name i"
      using eff plain listed [OF _ i] unfolding orphan_def by (metis (no_types, lifting))
    moreover have "t > cutoff \<or> references i = Inr True"
      if e: "e = None" and i: "plain_name i" and c: "content s' (storedPath i) = Some (c, t)"
    proof -
      have "content s (storedPath i) = Some (c, t)" using eff plain c by (metis option.distinct(1))
      then have "\<lparr>so_Key = storedPath i, so_LastModified = t\<rparr> \<in> set xs"
        using list_content [OF assms(1) document_key_storedPath [OF i] walked(1)] by blast
      with eff plain e i c show ?thesis by fastforce
    qed
    ultimately show ?thesis using eff plain by blast
  qed (use assms(1) in auto)
  then show "invar s'"
    and "plain_name i \<Longrightarrow> content s' (storedPath i) = content s (storedPath i) \<or> content s' (storedPath i) = None \<and>
      references i = Inr False \<and> (\<exists>c t. content s (storedPath i) = Some (c, t) \<and> t \<le> cutoff)"
    and "e = None \<Longrightarrow> plain_name i \<Longrightarrow> content s' (storedPath i) = Some (c, t) \<Longrightarrow> t > cutoff \<or> references i = Inr True"
    by blast+
qed

end

section \<open>On the configured storage\<close>

text \<open>What the database answers, as long as it answers.\<close>

definition reference_answers :: "(string \<Rightarrow> error + bool) \<Rightarrow> db \<Rightarrow> bool" where
  "reference_answers references d \<longleftrightarrow> (\<forall>i b. references i = Inr b \<longrightarrow> b = UploadReferenceExists i d)"


text \<open>Two files, one of the last hour, in a directory.\<close>

definition sample_orphans :: "bucket stores" where
  "sample_orphans = snd (put_pdf sample_local no_faults 7 (storedPath ''a'') ''%PDF-''
     (snd (put_pdf sample_local no_faults 5 (storedPath ''b'') ''%PDF-'' no_files)))"

lemma sample_orphans_ok: "stores_ok sample_local sample_view sample_orphans"
proof -
  have k: "document_key (storedPath ''a'')" "document_key (storedPath ''b'')" by (simp_all add: document_key_storedPath plain_name_def)
  note put = ds_put(1) [OF sample_documented(1) _ _ prod.collapse [symmetric]]
  show ?thesis unfolding sample_orphans_def by (rule put [OF put [OF no_files_ok(1) k(2)] k(1)])
qed


end
