(* ===== verification/Site_Machine.thy ===== *)
theory Site_Machine
  imports Document_Handlers Orphans
begin

text \<open>
  The stored files and the documents together, with any number of uploads, deletions, clean-ups and
  workers at work at once, on any number of servers with one database and one storage. The steps of
  \<^verbatim>\<open>Upload\<close>, \<^verbatim>\<open>Delete\<close> (\<^verbatim>\<open>api/documents.go\<close>) and \<^verbatim>\<open>reconcileOrphanedUploads\<close>
  (\<^verbatim>\<open>api/storage.go\<close>) are taken one database transaction or storage call at a time, so anything may
  happen between two of them, and every one may be the last one before a crash. However they
  interleave, each document in the database has its file, with the bytes that were uploaded.
\<close>

section \<open>What the transactions do to reservations\<close>

text \<open>Reservations are never removed or changed in what they are for, and a closed one is never reopened.\<close>

definition purpose :: "uploadReservation \<Rightarrow> string \<times> string \<times> string \<times> int" where
  "purpose r = (ur_ID r, ur_OwnerID r, ur_DocumentID r, ur_Bytes r)"

definition closing :: "uploadReservation list \<Rightarrow> uploadReservation list \<Rightarrow> bool" where
  "closing rs rs' \<longleftrightarrow> list_all2 (\<lambda>r r'. purpose r' = purpose r \<and> (ur_State r' = ''reserved'' \<longrightarrow> r' = r)) rs rs'"

lemma closing_refl [simp]: "closing rs rs"
  by (simp add: closing_def list_all2_refl)

lemma closing_trans: "closing rs rs' \<Longrightarrow> closing rs' rs'' \<Longrightarrow> closing rs rs''"
  unfolding closing_def by (erule (1) list_all2_trans [rotated]) auto

lemma closing_update:
  "(\<And>r. purpose (f r) = purpose r) \<Longrightarrow> (\<And>r. ur_State (f r) \<noteq> ''reserved'') \<Longrightarrow> closing rs (update_where P f rs)"
  by (induction rs) (auto simp: closing_def)

lemma closing_foldl: "(\<And>x rs. closing rs (f rs x)) \<Longrightarrow> closing rs (foldl f rs xs)"
  by (induction xs arbitrary: rs) (auto intro: closing_trans)

lemma closing_purposes: "closing rs rs' \<Longrightarrow> map purpose rs' = map purpose rs"
  by (induction rs arbitrary: rs') (auto simp: closing_def list_all2_Cons1)

text \<open>Transactions that leave the documents alone and open no reservation.\<close>

definition quiet :: "db \<Rightarrow> db \<Rightarrow> bool" where
  "quiet d d' \<longleftrightarrow> documents d' = documents d \<and> document_chunks d' = document_chunks d \<and>
     document_questions d' = document_questions d \<and> closing (upload_reservations d) (upload_reservations d')"

lemma quiet_refl [simp]: "quiet d d"
  by (simp add: quiet_def)

lemma quiet_trans [trans]: "quiet d d' \<Longrightarrow> quiet d' d'' \<Longrightarrow> quiet d d''"
  by (auto simp: quiet_def intro: closing_trans)

lemma quiet_frame [simp]:
  "quiet d (d'\<lparr>db_owner_usages := us\<rparr>) = quiet d d'" "quiet d (d'\<lparr>answer_reservations := as\<rparr>) = quiet d d'"
  "quiet d (d'\<lparr>rate_limit_buckets := bs\<rparr>) = quiet d d'" "quiet d (lockOwnerUsage now o' d') = quiet d d'"
  "quiet (lockOwnerUsage now o' d) d' = quiet d d'" "quiet (d\<lparr>rate_limit_buckets := bs\<rparr>) d' = quiet d d'"
  by (simp_all add: quiet_def)

lemma quiet_set_reservation:
  "quiet d d' \<Longrightarrow> (\<And>r. purpose (f r) = purpose r) \<Longrightarrow> (\<And>r. ur_State (f r) \<noteq> ''reserved'') \<Longrightarrow> quiet d (set_reservation rid f d')"
  using closing_update [of f "upload_reservations d'"]
  by (auto simp: quiet_def set_reservation_def intro: closing_trans)

lemma quiet_update_usage: "update_usage o' f d = Inr d' \<Longrightarrow> quiet d d'"
  by (erule update_usage_cases) auto

lemma quiet_recover: "recover_owners now owners d = Inr d' \<Longrightarrow> quiet d d'"
proof (induction now owners d rule: recover_owners.induct)
  case (2 now o' owners d)
  let ?d = "release_expired now o' (lockOwnerUsage now o' d)"
  have "quiet d ?d"
    by (auto simp: quiet_def release_expired_def purpose_def intro!: closing_foldl closing_update)
  also have "quiet ?d (expire_answers now o' ?d)" by (simp add: expire_answers_def)
  also from "2.prems" obtain d1 where d1: "recount now o' (expire_answers now o' ?d) = Inr d1" "recover_owners now owners d1 = Inr d'"
    by (auto simp: and_then_Inr)
  then have "quiet (expire_answers now o' ?d) d1" by (auto simp: recount_def intro: quiet_update_usage)
  also have "quiet d1 d'" using "2.IH" d1 by blast
  finally show ?case .
qed simp

lemma quiet_open: "recoverExpiredReservations who now (lockOwnerUsage now o' d) = Inr d' \<Longrightarrow> quiet d d'"
  using quiet_recover by (fastforce simp: recoverExpiredReservations_def quiet_def simp del: recover_owners.simps)

lemma quiet_transaction:
  assumes "transaction f d = (res, d')" and "\<And>x. f d = Inr (x, d') \<Longrightarrow> quiet d d'"
  shows "quiet d d'"
  using assms by (cases res) (auto simp: transaction_ok dest: transaction_error)

lemma quiet_ReleaseUpload: "ReleaseUpload now rid d = (res, d') \<Longrightarrow> quiet d d'"
  unfolding ReleaseUpload_def
  by (erule quiet_transaction)
    (auto simp: and_then_Inr Let_def purpose_def dest!: quiet_update_usage split: if_splits intro!: quiet_set_reservation elim: quiet_trans [rotated])

lemma quiet_BeginAnswer: "BeginAnswer now o' rid expiresAt d = (res, d') \<Longrightarrow> quiet d d'"
  unfolding BeginAnswer_def insert_answer_def
  by (erule quiet_transaction)
    (auto simp: and_then_Inr Let_def dest!: quiet_update_usage quiet_open split: if_splits elim: quiet_trans)

lemma quiet_EndAnswer: "EndAnswer now rid state d = (res, d') \<Longrightarrow> quiet d d'"
  unfolding EndAnswer_def
  by (erule quiet_transaction)
    (auto simp: and_then_Inr Let_def dest!: quiet_update_usage split: if_splits elim: quiet_trans [rotated])

lemma quiet_Recover: "RecoverExpiredReservations now d = (res, d') \<Longrightarrow> quiet d d'"
  unfolding RecoverExpiredReservations_def recoverExpiredReservations_def
  by (erule quiet_transaction) (auto simp: and_then_Inr dest: quiet_recover)

lemma ReserveUpload_effect:
  assumes "ReserveUpload now o' rid did sz expiresAt d = (Inr u, d')"
  obtains rs r where "documents d' = documents d" "closing (upload_reservations d) rs" "upload_reservations d' = rs @ [r]"
    "purpose r = (rid, o', did, sz)" "ur_State r = ''reserved''" "rid \<notin> ur_ID ` set (upload_reservations d)"
proof -
  let ?r = "\<lparr>ur_ID = rid, ur_OwnerID = o', ur_DocumentID = did, ur_Bytes = sz, ur_State = ''reserved'',
     ur_ExpiresAt = expiresAt, ur_CreatedAt = now, ur_CommittedAt = None, ur_ReleasedAt = None\<rparr>"
  from assms obtain d1 f d2 where d1: "recoverExpiredReservations (Some o') now (lockOwnerUsage now o' d) = Inr d1"
    and d2: "update_usage o' f d1 = Inr d2" and d': "insert_reservation ?r d2 = Inr d'"
    by (auto simp: ReserveUpload_def transaction_ok and_then_Inr Let_def split: if_splits)
  have q: "quiet d d2" using quiet_trans [OF quiet_open [OF d1] quiet_update_usage [OF d2]] .
  then have "ur_ID ` set (upload_reservations d2) = ur_ID ` set (upload_reservations d)"
    using arg_cong [OF closing_purposes, of "upload_reservations d" "upload_reservations d2" "\<lambda>ps. fst ` set ps"]
    by (simp add: quiet_def image_image purpose_def)
  with q d' show thesis
    by (intro that [of "upload_reservations d2" ?r])
      (auto simp: quiet_def insert_reservation_def purpose_def split: if_splits)
qed

lemma CreateOwnedAndCommitUpload_effect:
  assumes "CreateOwnedAndCommitUpload accepts now o' doc rid d = (Inr u, d')"
  obtains r where "find_reservation rid d = Inr r" "ur_State r = ''reserved''" "ur_OwnerID r = o'" "ur_DocumentID r = doc_ID doc"
    "documents d' = documents d @ [stored_document o' doc]" "row d (doc_ID doc) = None"
    "closing (upload_reservations d) (upload_reservations d')" "\<forall>r \<in> set (upload_reservations d'). ur_ID r = rid \<longrightarrow> ur_State r \<noteq> ''reserved''"
proof -
  let ?f = "\<lambda>r. r\<lparr>ur_State := ''committed'', ur_CommittedAt := Some now\<rparr>"
  from assms obtain r d1 g d2 where r: "find_reservation rid d = Inr r" "ur_State r = ''reserved''" "ur_OwnerID r = o'"
      "ur_DocumentID r = doc_ID doc"
    and d1: "insert_document accepts (doc\<lparr>doc_OwnerID := o'\<rparr>) (lockOwnerUsage now o' d) = Inr d1"
    and d2: "update_usage o' g d1 = Inr d2" and d': "d' = set_reservation rid ?f d2"
    by (auto simp: CreateOwnedAndCommitUpload_def transaction_ok and_then_Inr Let_def split: if_splits)
  from d2 have d2': "documents d2 = documents d1" "upload_reservations d2 = upload_reservations d1"
    by (auto elim!: update_usage_cases)
  have res: "upload_reservations d' = update_where (\<lambda>r. ur_ID r = rid) ?f (upload_reservations d)"
    and docs: "documents d' = documents d @ [stored_document o' doc]"
    using d1 d2' by (auto simp: d' set_reservation_def insert_document_def stored_document_def split: if_splits)
  have "row d (doc_ID doc) = None" using d1 by (auto simp: row_None insert_document_def split: if_splits)
  moreover have "closing (upload_reservations d) (upload_reservations d')"
    unfolding res by (rule closing_update) (simp_all add: purpose_def)
  moreover have "ur_State x \<noteq> ''reserved''" if x: "x \<in> set (upload_reservations d')" "ur_ID x = rid" for x
  proof -
    from x(1) obtain y where "x = (if ur_ID y = rid then ?f y else y)" by (auto simp: res in_update_where)
    with x(2) show ?thesis by (cases "ur_ID y = rid") simp_all
  qed
  ultimately show thesis using that r docs by blast
qed

lemma DeleteOwnedWithUsage_effect:
  assumes "keys_ok d" "DeleteOwnedWithUsage now o' i d = (Inr r, d')"
  shows "row d i = Some r \<and> doc_OwnerID r = o' \<and> documents d' = delete_where (\<lambda>x. doc_ID x = i) (documents d) \<and>
    upload_reservations d' = upload_reservations d"
proof -
  from assms(2) obtain r0 where r0: "FindOwned o' i d = Inr r0" "delete_locked now o' i r0 d = Inr (r, d')"
    by (auto simp: DeleteOwnedWithUsage_def transaction_ok and_then_Inr)
  then have r: "row d i = Some r0" "doc_OwnerID r0 = o'"
    by (auto simp: FindOwned_row [OF assms(1)] split: option.splits if_splits)
  with r0(2) obtain f where "r = r0" "update_usage o' f (delete_documents (\<lambda>x. doc_ID x = i) d) = Inr d'"
    by (auto simp: delete_locked_eq [OF assms(1) r(1)] and_then_Inr)
  with r show ?thesis by (auto elim!: update_usage_cases simp: delete_documents_def Let_def)
qed

section \<open>Steps\<close>

text \<open>How far an upload has come: its reservation is made, its file is stored, or it has failed.\<close>

datatype upload_phase = Reserved string string string time | Stored string string string time | Abandoned

text \<open>The database, the files, the uploads at work by document identifier, and the keys somebody is
  about to delete. \<open>si_sent\<close> remembers, for the statements, who sent which bytes for a document.\<close>

record 's site =
  si_db :: db
  si_files :: "'s stores"
  si_uploads :: "string \<Rightarrow> upload_phase option"
  si_doomed :: "string set"
  si_sent :: "string \<Rightarrow> (string \<times> string) option"

text \<open>The transactions of the other parts of the program: answers, recovery, releasing, workers and owners
  that retry. Rate limits and questions that are saved have steps of their own.\<close>

fun independent :: "quota_event \<Rightarrow> bool" where
  "independent (Reserving o' rid did sz expiresAt) = False"
| "independent (Committing o' doc rid) = False"
| "independent (Deleting o' i) = False"
| "independent (Ending rid state) = (state \<noteq> ''active'')"
| "independent (Working t e) = keeps_documents e"
| "independent _ = True"

text \<open>The identifier of an upload is new: 122 random bits. The clean-up may come to any file nothing refers to,
  of any age. A transaction that fails, or whose connection is
  lost, leaves the database alone and shows only in what the handler does next.\<close>

inductive site_step :: "queueConfig \<Rightarrow> ('f, 's) documentStorage \<Rightarrow> 's site \<Rightarrow> 's site \<Rightarrow> bool" for cfg st where
  reserve: "plain_name i \<Longrightarrow> row (si_db s) i = None \<Longrightarrow> storedPath i \<notin> si_doomed s \<Longrightarrow> int (length content) \<le> maxUploadSize \<Longrightarrow>
    ReserveUpload t o' i i (int (length content)) expiresAt (si_db s) = (Inr (), d) \<Longrightarrow>
    site_step cfg st s (s\<lparr>si_db := d, si_uploads := (si_uploads s)(i \<mapsto> Reserved o' filename content now),
      si_sent := (si_sent s)(i \<mapsto> (o', content))\<rparr>)"
| put: "si_uploads s i = Some (Reserved o' filename content now) \<Longrightarrow>
    put_pdf st f t (storedPath i) content (si_files s) = (e, ss) \<Longrightarrow>
    site_step cfg st s (s\<lparr>si_files := ss, si_uploads := (si_uploads s)(i \<mapsto>
      (if e = None then Stored o' filename content now else Abandoned))\<rparr>)"
| put_cut_short: "si_uploads s i = Some (Reserved o' filename content now) \<Longrightarrow>
    ss \<in> set (put_points st f t (storedPath i) content (int (length content)) ''application/pdf'' (si_files s)) \<Longrightarrow>
    site_step cfg st s (s\<lparr>si_files := ss, si_uploads := (si_uploads s)(i := None)\<rparr>)"
| commit: "si_uploads s i = Some (Stored o' filename content now) \<Longrightarrow>
    CreateOwnedAndCommitUpload (qc_accepts cfg) t o' (upload_document i filename (int (length content)) now) i (si_db s) = (Inr (), d) \<Longrightarrow>
    site_step cfg st s (s\<lparr>si_db := d, si_uploads := (si_uploads s)(i := None)\<rparr>)"
| commit_fails: "si_uploads s i = Some (Stored o' filename content now) \<Longrightarrow>
    site_step cfg st s (s\<lparr>si_uploads := (si_uploads s)(i \<mapsto> Abandoned), si_doomed := insert (storedPath i) (si_doomed s)\<rparr>)"
| delete_row: "DeleteOwnedWithUsage t o' i (si_db s) = (Inr r, d) \<Longrightarrow>
    site_step cfg st s (s\<lparr>si_db := d, si_doomed := insert (doc_StoredPath r) (si_doomed s)\<rparr>)"
| find_orphan: "plain_name i \<Longrightarrow> \<not> UploadReferenceExists i (si_db s) \<Longrightarrow>
    site_step cfg st s (s\<lparr>si_doomed := insert (storedPath i) (si_doomed s)\<rparr>)"
| delete_file: "key \<in> si_doomed s \<Longrightarrow> ds_Delete st f key (si_files s) = (e, ss) \<Longrightarrow>
    site_step cfg st s (s\<lparr>si_files := ss, si_doomed := si_doomed s - {key}\<rparr>)"
| other: "independent ev \<Longrightarrow> site_step cfg st s (s\<lparr>si_db := quota_exec cfg t ev (si_db s)\<rparr>)"
| rate: "site_step cfg st s (s\<lparr>si_db := (si_db s)\<lparr>rate_limit_buckets := bs\<rparr>\<rparr>)"
| question: "keys_ok ((si_db s)\<lparr>document_questions := qs\<rparr>) \<Longrightarrow>
    site_step cfg st s (s\<lparr>si_db := (si_db s)\<lparr>document_questions := qs\<rparr>\<rparr>)"
| stop: "up \<subseteq>\<^sub>m si_uploads s \<Longrightarrow> doomed \<subseteq> si_doomed s \<Longrightarrow>
    site_step cfg st s (s\<lparr>si_uploads := up, si_doomed := doomed\<rparr>)"

text \<open>An installation starts with an empty database and what the storage holds then.\<close>

definition empty_site :: "'s stores \<Rightarrow> 's site" where
  "empty_site start = \<lparr>si_db = empty_db, si_files = start, si_uploads = Map.empty, si_doomed = {}, si_sent = Map.empty\<rparr>"

inductive site_reachable :: "queueConfig \<Rightarrow> ('f, 's) documentStorage \<Rightarrow> 's stores \<Rightarrow> 's site \<Rightarrow> bool" for cfg st start where
  empty: "site_reachable cfg st start (empty_site start)"
| step: "site_reachable cfg st start s \<Longrightarrow> site_step cfg st s s' \<Longrightarrow> site_reachable cfg st start s'"

section \<open>The invariant\<close>

definition open_for :: "string \<Rightarrow> db \<Rightarrow> bool" where
  "open_for i d \<longleftrightarrow> (\<exists>r \<in> set (upload_reservations d). ur_DocumentID r = i \<and> ur_State r = ''reserved'')"

text \<open>What every document needs: its file, as it was sent by its owner.\<close>

definition has_file :: "('f, 's) documentStorage \<Rightarrow> 's bucket_view \<Rightarrow> 's site \<Rightarrow> document \<Rightarrow> bool" where
  "has_file st v s r \<longleftrightarrow> plain_name (doc_ID r) \<and> doc_StoredPath r = storedPath (doc_ID r) \<and>
     (\<exists>c t. held_at st v (si_files s) (storedPath (doc_ID r)) = Some (c, t) \<and>
        si_sent s (doc_ID r) = Some (doc_OwnerID r, c) \<and> doc_Size r = int (length c))"

fun upload_ok :: "('f, 's) documentStorage \<Rightarrow> 's bucket_view \<Rightarrow> 's site \<Rightarrow> string \<Rightarrow> upload_phase \<Rightarrow> bool" where
  "upload_ok st v s i Abandoned = True"
| "upload_ok st v s i (Reserved o' filename content now) = (si_sent s i = Some (o', content))"
| "upload_ok st v s i (Stored o' filename content now) = (si_sent s i = Some (o', content) \<and>
     (open_for i (si_db s) \<longrightarrow> (\<exists>t. held_at st v (si_files s) (storedPath i) = Some (content, t))))"

text \<open>Reservations are made for the document of the same identifier, and for the bytes that were sent.\<close>

definition purpose_ok :: "(string \<Rightarrow> (string \<times> string) option) \<Rightarrow> uploadReservation \<Rightarrow> bool" where
  "purpose_ok sent r \<longleftrightarrow> ur_DocumentID r = ur_ID r \<and> (\<exists>o' c. sent (ur_ID r) = Some (o', c) \<and> ur_Bytes r = int (length c))"

definition reservations_ok :: "'s site \<Rightarrow> bool" where
  "reservations_ok s \<longleftrightarrow> (\<forall>r \<in> set (upload_reservations (si_db s)). purpose_ok (si_sent s) r)"

text \<open>An upload that may still commit, and the keys that may be deleted: those of documents that do not
  exist and that no upload can still create.\<close>

definition active :: "(string \<Rightarrow> upload_phase option) \<Rightarrow> string \<Rightarrow> bool" where
  "active up i \<longleftrightarrow> (case up i of None \<Rightarrow> False | Some p \<Rightarrow> p \<noteq> Abandoned)"

definition doomed_ok :: "'s site \<Rightarrow> bool" where
  "doomed_ok s \<longleftrightarrow> (\<forall>k \<in> si_doomed s. \<exists>i. plain_name i \<and> k = storedPath i \<and>
     row (si_db s) i = None \<and> \<not> (open_for i (si_db s) \<and> active (si_uploads s) i))"

definition uploads_ok :: "('f, 's) documentStorage \<Rightarrow> 's bucket_view \<Rightarrow> 's site \<Rightarrow> bool" where
  "uploads_ok st v s \<longleftrightarrow> (\<forall>i p. si_uploads s i = Some p \<longrightarrow> plain_name i \<and> row (si_db s) i = None \<and>
     i \<in> ur_ID ` set (upload_reservations (si_db s)) \<and> upload_ok st v s i p)"

definition site_ok :: "('f, 's) documentStorage \<Rightarrow> 's bucket_view \<Rightarrow> 's site \<Rightarrow> bool" where
  "site_ok st v s \<longleftrightarrow> balanced (si_db s) \<and> stores_ok st v (si_files s) \<and> (\<forall>r \<in> set (documents (si_db s)). has_file st v s r) \<and>
     reservations_ok s \<and> doomed_ok s \<and> uploads_ok st v s"

subsection \<open>Steps of the other transactions\<close>

text \<open>What the invariant needs of a transaction that creates and deletes no document and opens no reservation.\<close>

definition calm :: "db \<Rightarrow> db \<Rightarrow> bool" where
  "calm d d' \<longleftrightarrow> map holding (documents d') = map holding (documents d) \<and>
     closing (upload_reservations d) (upload_reservations d')"

lemma calm_quiet: "quiet d d' \<Longrightarrow> calm d d'"
  by (simp add: calm_def quiet_def)

lemma closing_in:
  assumes "closing rs rs'" "r' \<in> set rs'"
  shows "\<exists>r \<in> set rs. purpose r' = purpose r \<and> (ur_State r' = ''reserved'' \<longrightarrow> r' = r)"
  using assms by (fastforce simp: closing_def list_all2_conv_all_nth in_set_conv_nth)

lemma closing_open: "closing (upload_reservations d) (upload_reservations d') \<Longrightarrow> open_for i d' \<Longrightarrow> open_for i d"
  by (fastforce simp: open_for_def dest: closing_in)

lemma closing_ids: "closing rs rs' \<Longrightarrow> ur_ID ` set rs' = ur_ID ` set rs"
  using arg_cong [OF closing_purposes, of rs rs' "\<lambda>ps. fst ` set ps"] by (simp add: image_image purpose_def)

lemma holding_row_None:
  assumes "map holding (documents d') = map holding (documents d)"
  shows "row d' i = None \<longleftrightarrow> row d i = None"
proof -
  have "fst ` set (map holding (documents d')) = fst ` set (map holding (documents d))" using assms by simp
  then have "doc_ID ` set (documents d') = doc_ID ` set (documents d)" by (simp add: image_image holding_def)
  then show ?thesis by (simp add: row_None)
qed

lemma closing_all:
  assumes "closing rs rs'" "\<forall>r \<in> set rs. P r" "\<And>r r'. purpose r' = purpose r \<Longrightarrow> P r \<Longrightarrow> P r'"
  shows "\<forall>r \<in> set rs'. P r"
  using closing_in [OF assms(1)] assms(2,3) by metis

lemma purpose_ok_closing: "closing rs rs' \<Longrightarrow> \<forall>r \<in> set rs. purpose_ok sent r \<Longrightarrow> \<forall>r \<in> set rs'. purpose_ok sent r"
  by (erule closing_all) (auto simp: purpose_ok_def purpose_def)

lemma site_ok_calm:
  assumes ok: "site_ok st v s" and calm: "calm (si_db s) d" and bal: "balanced d"
  shows "site_ok st v (s\<lparr>si_db := d\<rparr>)"
proof -
  let ?s = "s\<lparr>si_db := d\<rparr>"
  have docs: "map holding (documents d) = map holding (documents (si_db s))"
    and cl: "closing (upload_reservations (si_db s)) (upload_reservations d)" using calm by (simp_all add: calm_def)
  note rows = holding_row_None [OF docs] and opens = closing_open [OF cl] and ids = closing_ids [OF cl]
  have "\<forall>r \<in> set (documents d). has_file st v ?s r"
  proof
    fix r assume "r \<in> set (documents d)"
    then have "holding r \<in> holding ` set (documents (si_db s))" using docs by (metis imageI set_map)
    then obtain r0 where r0: "r0 \<in> set (documents (si_db s))" "holding r = holding r0" by auto
    with ok have "has_file st v s r0" by (simp add: site_ok_def)
    with r0(2) show "has_file st v ?s r" by (simp add: has_file_def holding_def)
  qed
  moreover have "reservations_ok ?s"
    using purpose_ok_closing [OF cl] ok by (simp add: site_ok_def reservations_ok_def)
  moreover have "doomed_ok ?s"
    using ok opens by (simp add: site_ok_def doomed_ok_def rows active_def) blast
  moreover have "upload_ok st v ?s i p" if "upload_ok st v s i p" for i p
    using that opens by (cases p) auto
  then have "uploads_ok st v ?s"
    using ok by (simp add: site_ok_def uploads_ok_def rows ids)
  ultimately show ?thesis using ok bal by (simp add: site_ok_def)
qed

lemma independent_calm:
  assumes bal: "balanced d" and ev: "independent ev"
  shows "calm d (quota_exec cfg t ev d)" "balanced (quota_exec cfg t ev d)"
proof -
  show "balanced (quota_exec cfg t ev d)"
    by (rule balanced_step [OF bal]) (use ev in \<open>cases ev, auto\<close>)
  have keys: "keys_ok d" using bal by (simp add: balanced_def books_ok_def tables_ok_def)
  show "calm d (quota_exec cfg t ev d)"
  proof (cases ev)
    case (Working t' e)
    obtain res d' where ex: "exec cfg t' t e d = (res, d')" by force
    have "same_holdings d d'" using exec_same_holdings [OF keys ex] ev Working by simp
    with ex Working show ?thesis by (simp add: calm_def same_holdings_def)
  qed (use ev in \<open>auto intro!: calm_quiet
      quiet_ReleaseUpload [OF prod.collapse [symmetric]] quiet_BeginAnswer [OF prod.collapse [symmetric]]
      quiet_EndAnswer [OF prod.collapse [symmetric]] quiet_Recover [OF prod.collapse [symmetric]]\<close>)
qed

subsection \<open>Steps of uploads\<close>

lemma site_okD:
  assumes "site_ok st v s"
  shows "balanced (si_db s)" "stores_ok st v (si_files s)" "r \<in> set (documents (si_db s)) \<Longrightarrow> has_file st v s r"
    "reservations_ok s" "doomed_ok s" "uploads_ok st v s"
  using assms by (auto simp: site_ok_def)

lemma has_file_other:
  "doc_ID r \<noteq> i \<Longrightarrow> has_file st v s r \<Longrightarrow> held_at st v fs = (held_at st v (si_files s))(storedPath i := x) \<Longrightarrow>
     si_files s' = fs \<Longrightarrow> si_sent s' (doc_ID r) = si_sent s (doc_ID r) \<Longrightarrow> has_file st v s' r"
  by (simp add: has_file_def storedPath_inj)

lemma row_not_None: "r \<in> set (documents d) \<Longrightarrow> row d (doc_ID r) \<noteq> None"
  by (simp add: row_None)

lemma site_ok_reserve:
  assumes ok: "site_ok st v s" and i: "plain_name i" "row (si_db s) i = None" "storedPath i \<notin> si_doomed s"
    and sz: "int (length content) \<le> maxUploadSize"
    and res: "ReserveUpload t o' i i (int (length content)) expiresAt (si_db s) = (Inr (), d)"
  shows "site_ok st v (s\<lparr>si_db := d, si_uploads := (si_uploads s)(i \<mapsto> Reserved o' filename content now),
      si_sent := (si_sent s)(i \<mapsto> (o', content))\<rparr>)" (is "site_ok st v ?s")
proof -
  note D = site_okD [OF ok]
  from res obtain rs x where e: "documents d = documents (si_db s)" "closing (upload_reservations (si_db s)) rs"
      "upload_reservations d = rs @ [x]" "purpose x = (i, o', i, int (length content))" "ur_State x = ''reserved''"
      "i \<notin> ur_ID ` set (upload_reservations (si_db s))" by (elim ReserveUpload_effect)
  have "quota_event_ok (si_db s) (Reserving o' i i (int (length content)) expiresAt)"
    using sz by (simp add: maxInt64_minus_storage_def quota_limits maxUploadSize_def)
  with balanced_step [OF D(1) this, of _ t] res have bal: "balanced d" by simp
  have rows: "row d j = row (si_db s) j" for j by (simp add: row_def e(1))
  have x: "ur_ID x = i" "ur_DocumentID x = i" "ur_Bytes x = int (length content)" using e(4) by (simp_all add: purpose_def)
  have opens: "open_for j (si_db s)" if "open_for j d" "j \<noteq> i" for j
  proof -
    from that(1) obtain r where r: "r \<in> set (rs @ [x])" "ur_DocumentID r = j" "ur_State r = ''reserved''"
      by (auto simp: open_for_def e(3))
    with that(2) x have "r \<in> set rs" by auto
    from closing_in [OF e(2) this] r(2,3) show ?thesis by (auto simp: open_for_def)
  qed
  have "has_file st v ?s r" if "r \<in> set (documents d)" for r
    using D(3) [of r] that i(2) row_not_None [of r "si_db s"] by (auto simp: has_file_def e(1))
  moreover have "reservations_ok ?s"
  proof -
    have "purpose_ok ((si_sent s)(i \<mapsto> (o', content))) r" if "r \<in> set (upload_reservations (si_db s))" for r
      using D(4) that e(6) by (auto simp: reservations_ok_def purpose_ok_def)
    then have "\<forall>r \<in> set rs. purpose_ok ((si_sent s)(i \<mapsto> (o', content))) r" using purpose_ok_closing [OF e(2)] by blast
    then show ?thesis by (simp add: reservations_ok_def e(3) purpose_ok_def x)
  qed
  moreover have "doomed_ok ?s"
    unfolding doomed_ok_def
  proof
    fix k assume k: "k \<in> si_doomed ?s"
    then obtain j where j: "plain_name j" "k = storedPath j" "row (si_db s) j = None" "\<not> (open_for j (si_db s) \<and> active (si_uploads s) j)"
      using D(5) by (auto simp: doomed_ok_def)
    with k i(3) have "j \<noteq> i" by auto
    with j opens [of j] show "\<exists>j. plain_name j \<and> k = storedPath j \<and> row (si_db ?s) j = None \<and> \<not> (open_for j (si_db ?s) \<and> active (si_uploads ?s) j)"
      by (auto simp: rows active_def)
  qed
  moreover have "uploads_ok st v ?s"
    unfolding uploads_ok_def
  proof (intro allI impI)
    fix j p assume p: "si_uploads ?s j = Some p"
    have ids: "ur_ID ` set (upload_reservations d) = insert i (ur_ID ` set (upload_reservations (si_db s)))"
      using closing_ids [OF e(2)] x by (simp add: e(3))
    show "plain_name j \<and> row (si_db ?s) j = None \<and> j \<in> ur_ID ` set (upload_reservations (si_db ?s)) \<and> upload_ok st v ?s j p"
    proof (cases "j = i")
      case False
      with p have "si_uploads s j = Some p" by simp
      with D(6) have "plain_name j \<and> row (si_db s) j = None \<and> j \<in> ur_ID ` set (upload_reservations (si_db s)) \<and> upload_ok st v s j p"
        by (simp add: uploads_ok_def)
      with False opens [of j] show ?thesis by (cases p) (auto simp: rows ids)
    qed (use p i in \<open>auto simp: rows ids\<close>)
  qed
  ultimately show ?thesis using bal D(2) by (simp add: site_ok_def)
qed

text \<open>Steps that leave the database alone and touch the file and the upload of one identifier that no
  document has.\<close>

lemma site_ok_outside:
  assumes ok: "site_ok st v s" and files: "stores_ok st v fs" "held_at st v fs = (held_at st v (si_files s))(storedPath i := x)"
    and i: "row (si_db s) i = None"
    and others: "\<And>j p. j \<noteq> i \<Longrightarrow> up j = Some p \<Longrightarrow> si_uploads s j = Some p"
    and doomed: "\<And>k. k \<in> doomed \<Longrightarrow> k \<in> si_doomed s \<or>
      (\<exists>j. plain_name j \<and> k = storedPath j \<and> row (si_db s) j = None \<and> \<not> (open_for j (si_db s) \<and> active up j))"
  defines "s' \<equiv> s\<lparr>si_files := fs, si_uploads := up, si_doomed := doomed\<rparr>"
  assumes mine: "\<And>p. up i = Some p \<Longrightarrow> plain_name i \<and> i \<in> ur_ID ` set (upload_reservations (si_db s)) \<and> upload_ok st v s' i p"
    and still: "active up i \<Longrightarrow> active (si_uploads s) i"
  shows "site_ok st v s'"
proof -
  note D = site_okD [OF ok]
  have "has_file st v s' r" if "r \<in> set (documents (si_db s))" for r
  proof -
    have "doc_ID r \<noteq> i" using i row_not_None [OF that] by metis
    then show ?thesis using has_file_other [OF _ D(3) [OF that] files(2), of s'] by (simp add: s'_def)
  qed
  moreover have "doomed_ok s'"
    unfolding doomed_ok_def
  proof
    fix k assume "k \<in> si_doomed s'"
    then have "k \<in> doomed" by (simp add: s'_def)
    then consider "k \<in> si_doomed s" | "\<exists>j. plain_name j \<and> k = storedPath j \<and> row (si_db s) j = None \<and> \<not> (open_for j (si_db s) \<and> active up j)"
      using doomed by blast
    then show "\<exists>j. plain_name j \<and> k = storedPath j \<and> row (si_db s') j = None \<and> \<not> (open_for j (si_db s') \<and> active (si_uploads s') j)"
    proof cases
      case 1
      then obtain j where j: "plain_name j" "k = storedPath j" "row (si_db s) j = None" "\<not> (open_for j (si_db s) \<and> active (si_uploads s) j)"
        using D(5) by (auto simp: doomed_ok_def)
      have "active up j \<Longrightarrow> active (si_uploads s) j"
        using still others [of j] by (cases "j = i") (auto simp: active_def s'_def split: option.splits)
      with j show ?thesis by (auto simp: s'_def)
    qed (simp add: s'_def)
  qed
  moreover have "uploads_ok st v s'"
    unfolding uploads_ok_def
  proof (intro allI impI)
    fix j p assume "si_uploads s' j = Some p"
    then have p: "up j = Some p" by (simp add: s'_def)
    show "plain_name j \<and> row (si_db s') j = None \<and> j \<in> ur_ID ` set (upload_reservations (si_db s')) \<and> upload_ok st v s' j p"
    proof (cases "j = i")
      case False
      with D(6) others p have "plain_name j \<and> row (si_db s) j = None \<and> j \<in> ur_ID ` set (upload_reservations (si_db s)) \<and> upload_ok st v s j p"
        by (simp add: uploads_ok_def)
      with False show ?thesis by (cases p) (auto simp: s'_def files(2) storedPath_inj)
    qed (use p mine i in \<open>auto simp: s'_def\<close>)
  qed
  ultimately show ?thesis using D(1,4) files(1) by (simp add: site_ok_def s'_def reservations_ok_def)
qed

lemma upload_at_work:
  assumes "site_ok st v s" "si_uploads s i = Some p"
  shows "plain_name i" "row (si_db s) i = None" "i \<in> ur_ID ` set (upload_reservations (si_db s))" "upload_ok st v s i p"
    "document_key (storedPath i)"
  using site_okD(6) [OF assms(1)] assms(2) by (auto simp: uploads_ok_def intro: document_key_storedPath)

lemma site_ok_put:
  assumes doc: "storage_documented st v" and ok: "site_ok st v s" and up: "si_uploads s i = Some (Reserved o' filename content now)"
    and put: "put_pdf st f t (storedPath i) content (si_files s) = (e, ss)"
  shows "site_ok st v (s\<lparr>si_files := ss, si_uploads := (si_uploads s)(i \<mapsto>
      (if e = None then Stored o' filename content now else Abandoned))\<rparr>)"
proof -
  note U = upload_at_work [OF ok up]
  note P = ds_put [OF doc site_okD(2) [OF ok] U(5) put]
  obtain x where files: "held_at st v ss = (held_at st v (si_files s))(storedPath i := x)" "e = None \<Longrightarrow> x = Some (content, t)"
    using P(2,3) by (cases "e = None") (auto, metis fun_upd_triv)
  have "site_ok st v (s\<lparr>si_files := ss, si_uploads := (si_uploads s)(i \<mapsto>
      (if e = None then Stored o' filename content now else Abandoned)), si_doomed := si_doomed s\<rparr>)"
    by (rule site_ok_outside [OF ok P(1) files(1) U(2)]) (use U up files in \<open>auto simp: active_def split: if_splits\<close>)
  then show ?thesis by simp
qed

lemma site_ok_put_cut_short:
  assumes doc: "storage_documented st v" and ok: "site_ok st v s" and up: "si_uploads s i = Some (Reserved o' filename content now)"
    and put: "ss \<in> set (put_points st f t (storedPath i) content (int (length content)) ''application/pdf'' (si_files s))"
  shows "site_ok st v (s\<lparr>si_files := ss, si_uploads := (si_uploads s)(i := None)\<rparr>)"
proof -
  note U = upload_at_work [OF ok up]
  note P = put_points_ok [OF doc site_okD(2) [OF ok] U(5) put]
  obtain x where "held_at st v ss = (held_at st v (si_files s))(storedPath i := x)"
    using P(2) by (metis fun_upd_triv)
  then have "site_ok st v (s\<lparr>si_files := ss, si_uploads := (si_uploads s)(i := None), si_doomed := si_doomed s\<rparr>)"
    by (rule site_ok_outside [OF ok P(1) _ U(2)]) (use U in \<open>auto simp: active_def\<close>)
  then show ?thesis by simp
qed

lemma site_ok_commit:
  assumes ok: "site_ok st v s" and up: "si_uploads s i = Some (Stored o' filename content now)"
    and commit: "CreateOwnedAndCommitUpload accepts t o' (upload_document i filename (int (length content)) now) i (si_db s) = (Inr (), d)"
  shows "site_ok st v (s\<lparr>si_db := d, si_uploads := (si_uploads s)(i := None)\<rparr>)" (is "site_ok st v ?s")
proof -
  note D = site_okD [OF ok] and U = upload_at_work [OF ok up]
  let ?doc = "upload_document i filename (int (length content)) now"
  have doc: "doc_ID ?doc = i" "doc_StoredPath ?doc = storedPath i" "doc_Size ?doc = int (length content)"
    by (simp_all add: upload_document_def)
  from commit obtain r where r: "find_reservation i (si_db s) = Inr r" "ur_State r = ''reserved''" "ur_OwnerID r = o'" "ur_DocumentID r = i"
    and e: "documents d = documents (si_db s) @ [stored_document o' ?doc]" "closing (upload_reservations (si_db s)) (upload_reservations d)"
    by (elim CreateOwnedAndCommitUpload_effect) (simp only: doc)
  have sent: "si_sent s i = Some (o', content)" using U(4) by simp
  have opened: "open_for i (si_db s)" using r find_reservation_ok [OF r(1)] by (auto simp: open_for_def)
  then obtain t' where stored: "held_at st v (si_files s) (storedPath i) = Some (content, t')" using U(4) by auto
  have "\<forall>r \<in> set (upload_reservations (si_db s)). ur_ID r = i \<longrightarrow> ur_Bytes r = doc_Size ?doc"
    using D(4) sent by (auto simp: reservations_ok_def purpose_ok_def doc)
  then have "quota_event_ok (si_db s) (Committing o' ?doc i)" by simp
  from balanced_step [OF D(1) this, of "\<lparr>qc_accepts = accepts, qc_accepts_chunk = (\<lambda>_. True), qc_maxAttempts = 1\<rparr>" t] commit
  have bal: "balanced d" by simp
  have rows: "row d j = None \<longleftrightarrow> row (si_db s) j = None \<and> j \<noteq> i" for j
    by (auto simp: row_None e(1) stored_document_def doc)
  have opens: "open_for j d \<Longrightarrow> open_for j (si_db s)" for j using closing_open [OF e(2)] by blast
  have "has_file st v ?s r" if "r \<in> set (documents d)" for r
  proof (cases "r = stored_document o' ?doc")
    case True
    with stored sent U(1) show ?thesis by (simp add: has_file_def stored_document_def doc)
  next
    case False
    with that D(3) [of r] show ?thesis by (simp add: e(1) has_file_def)
  qed
  moreover have "reservations_ok ?s"
    using purpose_ok_closing [OF e(2)] D(4) by (simp add: reservations_ok_def)
  moreover have "doomed_ok ?s"
    unfolding doomed_ok_def
  proof
    fix k assume "k \<in> si_doomed ?s"
    then obtain j where j: "plain_name j" "k = storedPath j" "row (si_db s) j = None" "\<not> (open_for j (si_db s) \<and> active (si_uploads s) j)"
      using D(5) by (auto simp: doomed_ok_def)
    moreover from this opened up have "j \<noteq> i" by (auto simp: active_def)
    ultimately show "\<exists>j. plain_name j \<and> k = storedPath j \<and> row (si_db ?s) j = None \<and> \<not> (open_for j (si_db ?s) \<and> active (si_uploads ?s) j)"
      using opens [of j] by (auto simp: rows active_def)
  qed
  moreover have "uploads_ok st v ?s"
    unfolding uploads_ok_def
  proof (intro allI impI)
    fix j p assume "si_uploads ?s j = Some p"
    then have j: "j \<noteq> i" "si_uploads s j = Some p" by (auto split: if_splits)
    from upload_at_work [OF ok j(2)] j(1) opens [of j]
    show "plain_name j \<and> row (si_db ?s) j = None \<and> j \<in> ur_ID ` set (upload_reservations (si_db ?s)) \<and> upload_ok st v ?s j p"
      by (cases p) (auto simp: rows closing_ids [OF e(2)])
  qed
  ultimately show ?thesis using bal D(2) by (simp add: site_ok_def)
qed

lemma site_ok_commit_fails:
  assumes ok: "site_ok st v s" and up: "si_uploads s i = Some (Stored o' filename content now)"
  shows "site_ok st v (s\<lparr>si_uploads := (si_uploads s)(i \<mapsto> Abandoned), si_doomed := insert (storedPath i) (si_doomed s)\<rparr>)"
proof -
  note U = upload_at_work [OF ok up]
  have "site_ok st v (s\<lparr>si_files := si_files s, si_uploads := (si_uploads s)(i \<mapsto> Abandoned), si_doomed := insert (storedPath i) (si_doomed s)\<rparr>)"
    by (rule site_ok_outside [OF ok site_okD(2) [OF ok] fun_upd_triv [symmetric] U(2)]) (use U in \<open>auto simp: active_def\<close>)
  then show ?thesis by simp
qed

lemma site_ok_delete_row:
  assumes ok: "site_ok st v s" and delete: "DeleteOwnedWithUsage t o' i (si_db s) = (Inr r, d)"
  shows "site_ok st v (s\<lparr>si_db := d, si_doomed := insert (doc_StoredPath r) (si_doomed s)\<rparr>)" (is "site_ok st v ?s")
proof -
  note D = site_okD [OF ok]
  have keys: "keys_ok (si_db s)" using D(1) by (simp add: balanced_def books_ok_def tables_ok_def)
  note e = DeleteOwnedWithUsage_effect [OF keys delete]
  have r: "r \<in> set (documents (si_db s))" "doc_ID r = i" using e row_ID by blast+
  have docs: "set (documents d) = {x \<in> set (documents (si_db s)). doc_ID x \<noteq> i}" using e by (auto simp: delete_where_def)
  from balanced_step [OF D(1), of "Deleting o' i" undefined t] delete have bal: "balanced d" by simp
  have rows: "row d j = None \<longleftrightarrow> row (si_db s) j = None \<or> j = i" for j by (auto simp: row_None docs)
  have opens: "open_for j d = open_for j (si_db s)" for j using e by (simp add: open_for_def)
  have idle: "si_uploads s i = None"
    using upload_at_work(2) [OF ok, of i] row_not_None [OF r(1)] r(2) by (cases "si_uploads s i") auto
  have "has_file st v ?s x" if "x \<in> set (documents d)" for x
    using that D(3) [of x] by (simp add: docs has_file_def)
  moreover have "reservations_ok ?s" using D(4) e by (simp add: reservations_ok_def)
  moreover have "doomed_ok ?s"
    unfolding doomed_ok_def
  proof
    fix k assume "k \<in> si_doomed ?s"
    then consider "k = doc_StoredPath r" | "k \<in> si_doomed s" by auto
    then show "\<exists>j. plain_name j \<and> k = storedPath j \<and> row (si_db ?s) j = None \<and> \<not> (open_for j (si_db ?s) \<and> active (si_uploads ?s) j)"
    proof cases
      case 1
      with D(3) [OF r(1)] r(2) idle show ?thesis by (auto simp: has_file_def rows active_def)
    next
      case 2
      with D(5) show ?thesis by (fastforce simp: doomed_ok_def rows opens)
    qed
  qed
  moreover have "uploads_ok st v ?s"
    unfolding uploads_ok_def
  proof (intro allI impI)
    fix j p assume "si_uploads ?s j = Some p"
    with upload_at_work [OF ok, of j p]
    show "plain_name j \<and> row (si_db ?s) j = None \<and> j \<in> ur_ID ` set (upload_reservations (si_db ?s)) \<and> upload_ok st v ?s j p"
      using e by (cases p) (auto simp: rows opens)
  qed
  ultimately show ?thesis using bal D(2) by (simp add: site_ok_def)
qed

lemma UploadReferenceExists_iff: "UploadReferenceExists i d \<longleftrightarrow> row d i \<noteq> None \<or> open_for i d"
  by (auto simp: UploadReferenceExists_def open_for_def row_None list_ex_iff)

lemma site_ok_find_orphan:
  assumes ok: "site_ok st v s" and i: "plain_name i" and orphan: "\<not> UploadReferenceExists i (si_db s)"
  shows "site_ok st v (s\<lparr>si_doomed := insert (storedPath i) (si_doomed s)\<rparr>)"
proof -
  have none: "row (si_db s) i = None" "\<not> open_for i (si_db s)" using orphan by (auto simp: UploadReferenceExists_iff)
  have mine: "upload_ok st v (s\<lparr>si_files := si_files s, si_uploads := si_uploads s, si_doomed := insert (storedPath i) (si_doomed s)\<rparr>) i p"
    if "si_uploads s i = Some p" for p
    using upload_at_work(4) [OF ok that] none(2) by (cases p) auto
  have "site_ok st v (s\<lparr>si_files := si_files s, si_uploads := si_uploads s, si_doomed := insert (storedPath i) (si_doomed s)\<rparr>)"
    by (rule site_ok_outside [OF ok site_okD(2) [OF ok] fun_upd_triv [symmetric] none(1)])
      (use i none mine upload_at_work(1,3) [OF ok] in auto)
  then show ?thesis by simp
qed

lemma site_ok_delete_file:
  assumes doc: "storage_documented st v" and ok: "site_ok st v s" and key: "key \<in> si_doomed s" and delete: "ds_Delete st f key (si_files s) = (e, fs)"
  shows "site_ok st v (s\<lparr>si_files := fs, si_doomed := si_doomed s - {key}\<rparr>)"
proof -
  from site_okD(5) [OF ok] key obtain i where i: "plain_name i" "key = storedPath i" "row (si_db s) i = None"
      "\<not> (open_for i (si_db s) \<and> active (si_uploads s) i)" by (auto simp: doomed_ok_def)
  note F = ds_delete [OF doc site_okD(2) [OF ok] document_key_storedPath [OF i(1)] delete [unfolded i(2)]]
  obtain x where "held_at st v fs = (held_at st v (si_files s))(storedPath i := x)" using F(3) by (metis fun_upd_triv)
  moreover have "upload_ok st v (s\<lparr>si_files := fs, si_uploads := si_uploads s, si_doomed := si_doomed s - {key}\<rparr>) i p"
    if "si_uploads s i = Some p" for p
    using upload_at_work(4) [OF ok that] i(4) that by (cases p) (auto simp: active_def)
  ultimately have "site_ok st v (s\<lparr>si_files := fs, si_uploads := si_uploads s, si_doomed := si_doomed s - {key}\<rparr>)"
    by (intro site_ok_outside [OF ok F(1) _ i(3)]) (use upload_at_work(1,3) [OF ok] in auto)
  then show ?thesis by simp
qed

lemma site_ok_stop:
  assumes ok: "site_ok st v s" and less: "up \<subseteq>\<^sub>m si_uploads s" "doomed \<subseteq> si_doomed s"
  shows "site_ok st v (s\<lparr>si_uploads := up, si_doomed := doomed\<rparr>)"
proof -
  have sub: "si_uploads s j = Some p" if "up j = Some p" for j p
    using less(1) that by (metis domI map_le_def)
  have none: "row (si_db s) [] = None"
    using site_okD(1) [OF ok] by (simp add: row_None balanced_def books_ok_def tables_ok_def keys_ok_def)
  have "up [] = None" using sub [of "[]"] upload_at_work(1) [OF ok, of "[]"] by (cases "up []") (auto simp: plain_name_def)
  then have "site_ok st v (s\<lparr>si_files := si_files s, si_uploads := up, si_doomed := doomed\<rparr>)"
    by (intro site_ok_outside [OF ok site_okD(2) [OF ok] fun_upd_triv [symmetric] none])
      (use sub less(2) in \<open>auto simp: active_def\<close>)
  then show ?thesis by simp
qed

lemma balanced_rate [simp]: "balanced (d\<lparr>rate_limit_buckets := bs\<rparr>) = balanced d"
  by (simp add: balanced_def books_ok_def tables_ok_def keys_ok_def within_quota_def truth_defs scan_usage_def)

lemma balanced_questions [simp]: "keys_ok (d\<lparr>document_questions := qs\<rparr>) \<Longrightarrow> balanced d \<Longrightarrow> balanced (d\<lparr>document_questions := qs\<rparr>)"
  by (simp add: balanced_def books_ok_def tables_ok_def within_quota_def truth_defs)

lemma site_ok_step:
  assumes doc: "storage_documented st v" and ok: "site_ok st v s" and "site_step cfg st s s'"
  shows "site_ok st v s'"
  using assms(3)
proof (cases rule: site_step.cases)
  case (other ev t)
  then show ?thesis
    using site_ok_calm [OF ok] independent_calm [OF site_okD(1) [OF ok]] by simp
next
  case (rate bs)
  then show ?thesis using site_ok_calm [OF ok calm_quiet] site_okD(1) [OF ok] by simp
next
  case (question qs)
  have "calm (si_db s) ((si_db s)\<lparr>document_questions := qs\<rparr>)"
    using calm_quiet [OF quiet_refl, of "si_db s"] by (simp add: calm_def)
  then show ?thesis using site_ok_calm [OF ok] site_okD(1) [OF ok] question by simp
qed (simp_all add: ok site_ok_reserve site_ok_put [OF doc ok] site_ok_put_cut_short [OF doc ok] site_ok_commit site_ok_commit_fails
    site_ok_delete_row site_ok_find_orphan site_ok_delete_file [OF doc ok] site_ok_stop)

lemma site_ok_empty: "stores_ok st v start \<Longrightarrow> site_ok st v (empty_site start)"
  by (simp add: site_ok_def empty_site_def balanced_empty reservations_ok_def doomed_ok_def uploads_ok_def)

lemma site_reachable_ok:
  "site_reachable cfg st start s \<Longrightarrow> storage_documented st v \<Longrightarrow> stores_ok st v start \<Longrightarrow> site_ok st v s"
  by (induction rule: site_reachable.induct) (auto intro: site_ok_empty site_ok_step)

section \<open>Every document has its file\<close>

lemma has_file_held:
  assumes "site_ok st v s" "r \<in> set (documents (si_db s))"
  obtains content t where "document_key (doc_StoredPath r)" "held_at st v (si_files s) (doc_StoredPath r) = Some (content, t)"
    "si_sent s (doc_ID r) = Some (doc_OwnerID r, content)" "doc_Size r = int (length content)"
  using site_okD(3) [OF assms] that by (auto simp: has_file_def document_key_storedPath)

text \<open>C2: in every reachable state each document in the database has its file, stored under its path with
  exactly the bytes its owner sent for it, however uploads, deletions, clean-ups, recoveries and workers
  interleave, whichever calls fail, and wherever they are cut short. Reading it gives these bytes; only from a
  bucket whose service does not answer it gives none.\<close>

theorem every_document_has_its_file:
  assumes "storage_documented st v" and "stores_ok st v start" and "site_reachable cfg st start s" and "r \<in> set (documents (si_db s))"
  shows "\<exists>content t. si_sent s (doc_ID r) = Some (doc_OwnerID r, content) \<and> doc_Size r = int (length content) \<and>
    held_at st v (si_files s) (doc_StoredPath r) = Some (content, t) \<and>
    (ds_Get st f (doc_StoredPath r) (si_files s) = Inr (Readable content) \<or>
     (\<exists>ost. st = Bucket ost) \<and> ds_Get st f (doc_StoredPath r) (si_files s) \<in> {Inl ErrStorage, Inr NotReadable})"
proof -
  note ok = site_reachable_ok [OF assms(3,1,2)]
  from ok assms(4) obtain content t where c: "document_key (doc_StoredPath r)" "held_at st v (si_files s) (doc_StoredPath r) = Some (content, t)"
    "si_sent s (doc_ID r) = Some (doc_OwnerID r, content)" "doc_Size r = int (length content)" by (rule has_file_held)
  with ds_get_held [OF assms(1) site_okD(2) [OF ok] c(1,2), of f] show ?thesis by blast
qed

text \<open>One upload from an empty site.\<close>

lemma sample_run:
  obtains d fs d' up sent where
    "site_reachable sample_config sample_local no_files \<lparr>si_db = d', si_files = fs, si_uploads = up, si_doomed = {}, si_sent = sent\<rparr>"
    "documents d' = [stored_document ''o'' (upload_document ''a'' ''x.pdf'' 6 9)]" "sent ''a'' = Some (''o'', ''%PDF-1'')"
proof -
  let ?c = "''%PDF-1''"
  define d where "d = snd (ReserveUpload 3 ''o'' ''a'' ''a'' 6 500 empty_db)"
  define fs where "fs = snd (put_pdf sample_local no_faults 4 (storedPath ''a'') ?c no_files)"
  define d' where "d' = snd (CreateOwnedAndCommitUpload (qc_accepts sample_config) 5 ''o'' (upload_document ''a'' ''x.pdf'' 6 9) ''a'' d)"
  have "fst (ReserveUpload 3 ''o'' ''a'' ''a'' 6 500 empty_db) = Inr ()" by code_simp
  then have 1: "ReserveUpload 3 ''o'' ''a'' ''a'' (int (length ?c)) 500 empty_db = (Inr (), d)" by (simp add: d_def prod_eq_iff)
  have "fst (put_pdf sample_local no_faults 4 (storedPath ''a'') ?c no_files) = None" by code_simp
  then have 2: "put_pdf sample_local no_faults 4 (storedPath ''a'') ?c no_files = (None, fs)" by (simp add: fs_def prod_eq_iff)
  have "fst (CreateOwnedAndCommitUpload (\<lambda>_. True) 5 ''o'' (upload_document ''a'' ''x.pdf'' 6 9) ''a''
      (snd (ReserveUpload 3 ''o'' ''a'' ''a'' 6 500 empty_db))) = Inr ()" by code_simp
  then have 3: "CreateOwnedAndCommitUpload (qc_accepts sample_config) 5 ''o'' (upload_document ''a'' ''x.pdf'' (int (length ?c)) 9) ''a'' d = (Inr (), d')"
    by (simp add: d'_def d_def prod_eq_iff sample_config_def)
  let ?s0 = "empty_site no_files"
  let ?s1 = "?s0\<lparr>si_db := d, si_uploads := (si_uploads ?s0)(''a'' \<mapsto> Reserved ''o'' ''x.pdf'' ?c 9), si_sent := (si_sent ?s0)(''a'' \<mapsto> (''o'', ?c))\<rparr>"
  let ?s2 = "?s1\<lparr>si_files := fs, si_uploads := (si_uploads ?s1)(''a'' \<mapsto> Stored ''o'' ''x.pdf'' ?c 9)\<rparr>"
  let ?s3 = "?s2\<lparr>si_db := d', si_uploads := (si_uploads ?s2)(''a'' := None)\<rparr>"
  have "site_reachable sample_config sample_local no_files ?s1"
    by (rule site_reachable.step [OF site_reachable.empty site_step.reserve])
      (use 1 in \<open>simp_all add: empty_site_def plain_name_def row_def maxUploadSize_def\<close>)
  then have "site_reachable sample_config sample_local no_files ?s2"
    by (rule site_reachable.step)
      (use 2 site_step.put [of ?s1 "''a''" "''o''" "''x.pdf''" ?c 9 sample_local no_faults 4 None fs sample_config]
        in \<open>simp add: empty_site_def\<close>)
  then have "site_reachable sample_config sample_local no_files ?s3"
    by (rule site_reachable.step [OF _ site_step.commit [where t = 5 and o' = "''o''" and filename = "''x.pdf''" and content = ?c and now = 9]]) (use 3 in \<open>simp_all add: empty_site_def\<close>)
  moreover have "documents d' = [stored_document ''o'' (upload_document ''a'' ''x.pdf'' 6 9)]"
    using 1 3 by (auto elim!: CreateOwnedAndCommitUpload_effect ReserveUpload_effect)
  ultimately show thesis using that [of d' fs] by (simp add: empty_site_def)
qed

lemma every_document_has_its_file_witness:
  "\<exists>(s :: bucket site) (r :: document). r \<in> set (documents (si_db s)) \<and>
     ds_Get sample_local no_faults (doc_StoredPath r) (si_files s) = Inr (Readable ''%PDF-1'')"
proof -
  obtain d fs d' up sent where
    s: "site_reachable sample_config sample_local no_files \<lparr>si_db = d', si_files = fs, si_uploads = up, si_doomed = {}, si_sent = sent\<rparr>"
    and r: "documents d' = [stored_document ''o'' (upload_document ''a'' ''x.pdf'' 6 9)]" "sent ''a'' = Some (''o'', ''%PDF-1'')"
    by (rule sample_run)
  let ?r = "stored_document ''o'' (upload_document ''a'' ''x.pdf'' 6 9)"
  from every_document_has_its_file [OF sample_documented(1) no_files_ok(1) s, of ?r no_faults] r
  have "ds_Get sample_local no_faults (doc_StoredPath ?r) fs = Inr (Readable ''%PDF-1'')"
    by (auto simp: stored_document_def upload_document_def sample_local_def)
  with r show ?thesis by (intro exI [of _ "\<lparr>si_db = d', si_files = fs, si_uploads = up, si_doomed = {}, si_sent = sent\<rparr>"] exI [of _ ?r]) simp
qed

section \<open>The handlers take these steps\<close>

text \<open>With the store that has both interfaces, as PostgreSQL's.\<close>

lemma call_error:
  assumes "call cx p f sv = (Inl e, sv')" "\<And>d e d'. f d = (Inl e, d') \<Longrightarrow> d' = d"
  shows "sv' = sv"
  using assms by (auto simp: call_def with_connection_def split: if_splits prod.splits)

lemma upload_errors:
  "ReserveUpload t o' rid did sz expiresAt d = (Inl e, d') \<Longrightarrow> d' = d"
  "CreateOwnedAndCommitUpload accepts t o' doc rid d = (Inl e, d') \<Longrightarrow> d' = d"
  unfolding ReserveUpload_def CreateOwnedAndCommitUpload_def by (erule transaction_error)+

lemma admit_upload_cases:
  assumes "admit_upload AtomicQuota cx o' i sz sv = (r, sv')"
  obtains (denied) bs where "r \<noteq> Inr True" "sv' = sv\<lparr>sv_db := (sv_db sv)\<lparr>rate_limit_buckets := bs\<rparr>\<rparr>"
  | (granted) bs t expiresAt d where "r = Inr True" "sv' = sv\<lparr>sv_db := d\<rparr>"
      "ReserveUpload t o' i i sz expiresAt ((sv_db sv)\<lparr>rate_limit_buckets := bs\<rparr>) = (Inr (), d)"
proof (cases "cx_up cx Rating")
  case False
  with assms denied [of "rate_limit_buckets (sv_db sv)"] show thesis by (auto simp: admit_upload_def)
next
  case True
  obtain allowed bs where rate: "AllowRate ''upload-owner'' o' maxUploadsPerHour time_Hour (cx_clock cx Rating) (rate_limit_buckets (sv_db sv)) = (allowed, bs)"
    by force
  let ?sv = "sv\<lparr>sv_db := (sv_db sv)\<lparr>rate_limit_buckets := bs\<rparr>\<rparr>"
  let ?t = "cx_clock cx Reserving_Now" and ?e = "cx_clock cx Reserving_Until + 30 * time_Minute"
  obtain res sv1 where c: "call cx Reserving_Now (ReserveUpload ?t o' i i sz ?e) ?sv = (res, sv1)" by force
  have "admit_upload AtomicQuota cx o' i sz sv = (if \<not> allowed then (Inr False, ?sv)
      else case res of Inl _ \<Rightarrow> (Inr False, sv1) | Inr _ \<Rightarrow> (Inr True, sv1))"
    by (simp add: admit_upload_def True rate c [simplified] Let_def split: sum.split)
  with assms have r: "(r, sv') = (if \<not> allowed then (Inr False, ?sv)
      else case res of Inl _ \<Rightarrow> (Inr False, sv1) | Inr _ \<Rightarrow> (Inr True, sv1))" by simp
  show thesis
  proof (cases res)
    case (Inl e)
    then have "sv1 = ?sv" using call_error [OF c [unfolded Inl]] upload_errors(1) by blast
    with r Inl denied show thesis by (auto split: if_splits)
  next
    case (Inr u)
    with c have "ReserveUpload ?t o' i i sz ?e ((sv_db sv)\<lparr>rate_limit_buckets := bs\<rparr>) = (Inr (), sv_db sv1)"
      "sv1 = sv\<lparr>sv_db := sv_db sv1\<rparr>"
      by (auto simp: call_def with_connection_def split: if_splits prod.splits)
    with r Inr granted denied show thesis by (auto split: if_splits)
  qed
qed

lemma store_upload_cases:
  assumes "store_upload AtomicQuota accepts st cx o' i filename content sv = (r, sv')"
  obtains (put_failed) e fs where "r = Some ''could not save uploaded file''" "sv' = sv\<lparr>sv_files := fs\<rparr>"
      "put_pdf st (cx_put cx) (cx_put_time cx) (storedPath i) content (sv_files sv) = (Some e, fs)"
  | (commit_failed) fs e fs' where "r = Some ''could not commit document metadata and upload quota''" "sv' = sv\<lparr>sv_files := fs'\<rparr>"
      "put_pdf st (cx_put cx) (cx_put_time cx) (storedPath i) content (sv_files sv) = (None, fs)"
      "ds_Delete st (cx_remove cx) (storedPath i) fs = (e, fs')"
  | (stored) fs d where "r = None" "sv' = sv\<lparr>sv_files := fs, sv_db := d\<rparr>"
      "put_pdf st (cx_put cx) (cx_put_time cx) (storedPath i) content (sv_files sv) = (None, fs)"
      "CreateOwnedAndCommitUpload accepts (cx_clock cx Committing_Now) o'
         (upload_document i filename (int (length content)) (cx_clock cx Creating)) i (sv_db sv) = (Inr (), d)"
proof -
  obtain e fs where put: "put_pdf st (cx_put cx) (cx_put_time cx) (storedPath i) content (sv_files sv) = (e, fs)" by force
  let ?sv = "sv\<lparr>sv_files := fs\<rparr>" and ?doc = "upload_document i filename (int (length content)) (cx_clock cx Creating)"
  obtain res sv1 where c: "call cx Committing_Now (CreateOwnedAndCommitUpload accepts (cx_clock cx Committing_Now) o' ?doc i) ?sv = (res, sv1)"
    by force
  show thesis
  proof (cases e)
    case (Some e')
    with put assms put_failed show thesis by (auto simp: store_upload_def)
  next
    case None
    show thesis
    proof (cases res)
      case (Inl e')
      then have "sv1 = ?sv" using call_error [OF c [unfolded Inl]] upload_errors(2) by blast
      with Inl None put c assms commit_failed show thesis
        by (auto simp: store_upload_def remove_stored_def Let_def split: prod.splits)
    next
      case (Inr u)
      with None put c assms have "r = None" "sv' = sv1" by (auto simp: store_upload_def Let_def)
      with Inr None put c stored show thesis
        by (auto simp: call_def with_connection_def split: if_splits prod.splits)
    qed
  qed
qed

lemma release_upload_eq:
  "release_upload AtomicQuota cx o' i sz sv = sv\<lparr>sv_db :=
     (if cx_up cx Releasing_Now then snd (ReleaseUpload (cx_clock cx Releasing_Now) i (sv_db sv)) else sv_db sv)\<rparr>"
  by (simp add: release_upload_def call_def with_connection_def split: prod.split)

lemma Upload_cases:
  assumes "Upload kind accepts st cx o' request sv = (a, sv')"
  obtains (early) code message where "a = Refused_With code message" "sv_db sv' = sv_db sv" "sv_files sv' = sv_files sv"
  | (denied) i filename content r sv1 code message where "documentID (cx_random cx) = Some i" "FormFile request = Some (filename, content)"
      "admit_upload kind cx o' i (int (length content)) sv = (r, sv1)" "r \<noteq> Inr True"
      "a = Refused_With code message" "sv_db sv' = sv_db sv1" "sv_files sv' = sv_files sv1"
  | (failed) i filename content sv1 message sv2 where "documentID (cx_random cx) = Some i" "FormFile request = Some (filename, content)"
      "int (length content) \<le> maxUploadSize" "admit_upload kind cx o' i (int (length content)) sv = (Inr True, sv1)"
      "store_upload kind accepts st cx o' i filename content sv1 = (Some message, sv2)"
      "a = Refused_With 500 message" "sv' = release_upload kind cx o' i (int (length content)) sv2"
  | (done_) i filename content sv1 sv2 where "documentID (cx_random cx) = Some i" "FormFile request = Some (filename, content)"
      "take 5 content = ''%PDF-''" "int (length content) \<le> maxUploadSize"
      "admit_upload kind cx o' i (int (length content)) sv = (Inr True, sv1)"
      "store_upload kind accepts st cx o' i filename content sv1 = (None, sv2)"
      "a = Answered 202 [(''documentId'', i), (''status'', ''queued'')]" "sv_db sv' = sv_db sv2" "sv_files sv' = sv_files sv2"
proof (cases "ul_ContentLength request > maxUploadSize")
  case True
  with assms early show thesis by (auto simp: Upload_def reject_def)
next
  case len: False
  show thesis
  proof (cases "FormFile request")
    case None
    with len assms early show thesis by (auto simp: Upload_def reject_def)
  next
    case (Some fc)
    obtain filename content where fc: "fc = (filename, content)" by force
    note found = Some [unfolded fc]
    show thesis
    proof (cases "length content < 5 \<or> take 5 content \<noteq> ''%PDF-'' \<or> ul_SeekError request \<or> int (length content) > maxUploadSize
        \<or> documentID (cx_random cx) = None")
      case True
      with len found assms early show thesis by (auto simp: Upload_def reject_def split: if_splits option.splits)
    next
      case False
      then obtain i where i: "documentID (cx_random cx) = Some i" by auto
      have sz: "take 5 content = ''%PDF-''" "int (length content) \<le> maxUploadSize" using False by auto
      obtain r sv1 where r: "admit_upload kind cx o' i (int (length content)) sv = (r, sv1)" by force
      have up: "Upload kind accepts st cx o' request sv =
          (case (r, sv1) of
             (Inl _, sv) \<Rightarrow> (Refused_With 500 ''could not check upload quota'', sv)
           | (Inr False, sv) \<Rightarrow> reject 429 ''upload quota exceeded'' sv
           | (Inr True, sv) \<Rightarrow>
               (case store_upload kind accepts st cx o' i filename content sv of
                  (Some message, sv) \<Rightarrow> (Refused_With 500 message, release_upload kind cx o' i (int (length content)) sv)
                | (None, sv) \<Rightarrow> (Answered 202 [(''documentId'', i), (''status'', ''queued'')],
                     sv\<lparr>sv_metrics := (sv_metrics sv)\<lparr>uploads := uploads (sv_metrics sv) + 1\<rparr>\<rparr>)))"
        using len found False i by (simp only: Upload_def r if_False option.case prod.case) simp
      show thesis
      proof (cases "r = Inr True")
        case False
        with up assms denied [OF i found r False] show thesis
          by (auto simp: reject_def split: sum.splits bool.splits)
      next
        case True
        obtain e sv2 where s: "store_upload kind accepts st cx o' i filename content sv1 = (e, sv2)" by force
        show thesis
        proof (cases e)
          case None
          with up assms r s True done_ [OF i found sz] show thesis by auto
        next
          case (Some message)
          with up assms r s True failed [OF i found sz(2)] show thesis by auto
        qed
      qed
    qed
  qed
qed

text \<open>A handler's call on a site where it is the only one at work: it ends where these steps end.\<close>

abbreviation site_runs :: "queueConfig \<Rightarrow> ('f, 's) documentStorage \<Rightarrow> 's site \<Rightarrow> 's site \<Rightarrow> bool" where
  "site_runs cfg st \<equiv> (site_step cfg st)\<^sup>*\<^sup>*"

definition server_at :: "'s server \<Rightarrow> 's site \<Rightarrow> bool" where
  "server_at sv s \<longleftrightarrow> si_db s = sv_db sv \<and> si_files s = sv_files sv"

definition fresh_for :: "'f conditions \<Rightarrow> 's site \<Rightarrow> bool" where
  "fresh_for cx s \<longleftrightarrow> (case documentID (cx_random cx) of None \<Rightarrow> True
     | Some i \<Rightarrow> plain_name i \<and> row (si_db s) i = None \<and> storedPath i \<notin> si_doomed s \<and> si_uploads s i = None)"

lemma run_rate: "site_runs cfg st s (s\<lparr>si_db := (si_db s)\<lparr>rate_limit_buckets := bs\<rparr>\<rparr>)"
  by (blast intro: site_step.rate)

lemma run_release: "site_runs cfg st s (s\<lparr>si_db := (if b then snd (ReleaseUpload t i (si_db s)) else si_db s)\<rparr>)"
  using site_step.other [of "Releasing i" cfg st s t] by (cases b) auto

lemma run_stop: "up \<subseteq>\<^sub>m si_uploads s \<Longrightarrow> doomed \<subseteq> si_doomed s \<Longrightarrow> site_runs cfg st s (s\<lparr>si_uploads := up, si_doomed := doomed\<rparr>)"
  by (blast intro: site_step.stop)

lemma run_trans: "site_runs cfg st s s' \<Longrightarrow> site_runs cfg st s' s'' \<Longrightarrow> site_runs cfg st s s''"
  by (rule rtranclp_trans)

lemma store_upload_runs:
  assumes up: "si_uploads s i = Some (Reserved o' filename content (cx_clock cx Creating))" and at: "server_at sv s"
    and store: "store_upload AtomicQuota (qc_accepts cfg) st cx o' i filename content sv = (r, sv')"
  shows "\<exists>s'. site_runs cfg st s s' \<and> server_at sv' s' \<and> (\<forall>j. j \<noteq> i \<longrightarrow> si_uploads s' j = si_uploads s j)"
  using store
proof (cases rule: store_upload_cases)
  case (put_failed e fs)
  let ?s1 = "s\<lparr>si_files := fs, si_uploads := (si_uploads s)(i \<mapsto> Abandoned)\<rparr>"
  have "site_step cfg st s ?s1"
    using site_step.put [OF up, of st "cx_put cx" "cx_put_time cx" "Some e" fs cfg] put_failed(3) at by (simp add: server_at_def)
  with put_failed(2) at show ?thesis by (intro exI [of _ ?s1]) (simp add: server_at_def r_into_rtranclp)
next
  case (commit_failed fs e fs')
  let ?s1 = "s\<lparr>si_files := fs, si_uploads := (si_uploads s)(i \<mapsto> Stored o' filename content (cx_clock cx Creating))\<rparr>"
  let ?s2 = "?s1\<lparr>si_uploads := (si_uploads ?s1)(i \<mapsto> Abandoned), si_doomed := insert (storedPath i) (si_doomed ?s1)\<rparr>"
  let ?s3 = "?s2\<lparr>si_files := fs', si_doomed := si_doomed ?s2 - {storedPath i}\<rparr>"
  have "site_step cfg st s ?s1"
    using site_step.put [OF up, of st _ _ None fs cfg] commit_failed(3) at by (simp add: server_at_def)
  moreover have "site_step cfg st ?s1 ?s2" by (rule site_step.commit_fails) simp
  moreover have "site_step cfg st ?s2 ?s3" by (rule site_step.delete_file) (use commit_failed(4) in simp_all)
  ultimately have "site_runs cfg st s ?s3" by (meson rtranclp.rtrancl_refl rtranclp.rtrancl_into_rtrancl)
  with commit_failed(2) at show ?thesis by (intro exI [of _ ?s3]) (simp add: server_at_def)
next
  case (stored fs d)
  let ?s1 = "s\<lparr>si_files := fs, si_uploads := (si_uploads s)(i \<mapsto> Stored o' filename content (cx_clock cx Creating))\<rparr>"
  let ?s2 = "?s1\<lparr>si_db := d, si_uploads := (si_uploads ?s1)(i := None)\<rparr>"
  have "site_step cfg st s ?s1"
    using site_step.put [OF up, of st _ _ None fs cfg] stored(3) at by (simp add: server_at_def)
  moreover have "site_step cfg st ?s1 ?s2"
    by (rule site_step.commit) (use stored(4) at in \<open>simp_all add: server_at_def\<close>)
  ultimately have "site_runs cfg st s ?s2" by (meson rtranclp.rtrancl_refl rtranclp.rtrancl_into_rtrancl)
  with stored(2) at show ?thesis by (intro exI [of _ ?s2]) (simp add: server_at_def)
qed

lemma admit_upload_runs:
  assumes "admit_upload AtomicQuota cx o' i (int (length content)) sv = (Inr True, sv1)" "server_at sv s"
    and "plain_name i" "row (si_db s) i = None" "storedPath i \<notin> si_doomed s" "int (length content) \<le> maxUploadSize"
  shows "\<exists>s1. site_runs cfg st s s1 \<and> server_at sv1 s1 \<and> si_uploads s1 = (si_uploads s)(i \<mapsto> Reserved o' filename content now)"
  using assms(1)
proof (cases rule: admit_upload_cases)
  case (granted bs t expiresAt d)
  let ?s0 = "s\<lparr>si_db := (si_db s)\<lparr>rate_limit_buckets := bs\<rparr>\<rparr>"
  let ?s1 = "?s0\<lparr>si_db := d, si_uploads := (si_uploads ?s0)(i \<mapsto> Reserved o' filename content now),
      si_sent := (si_sent ?s0)(i \<mapsto> (o', content))\<rparr>"
  have "site_step cfg st ?s0 ?s1"
    by (rule site_step.reserve) (use granted(3) assms(2-) in \<open>simp_all add: server_at_def row_def\<close>)
  with run_rate [of cfg st s bs] have "site_runs cfg st s ?s1" by (rule rtranclp.rtrancl_into_rtrancl)
  with granted(2) assms(2) show ?thesis by (intro exI [of _ ?s1]) (simp add: server_at_def)
qed simp

lemma upload_leaves:
  assumes "site_runs cfg st s s2" "server_at sv s2" "si_uploads s i = None" "\<forall>j. j \<noteq> i \<longrightarrow> si_uploads s2 j = si_uploads s j"
  shows "\<exists>s'. site_runs cfg st s s' \<and> server_at sv s' \<and> si_uploads s' = si_uploads s"
proof -
  have "si_uploads s j = si_uploads s2 j" if "j \<in> dom (si_uploads s)" for j
    using assms(3,4) that by (cases "j = i") auto
  then have "si_uploads s \<subseteq>\<^sub>m si_uploads s2" by (simp add: map_le_def)
  from run_trans [OF assms(1) run_stop [OF this subset_refl]] assms(2) show ?thesis
    by (intro exI [of _ "s2\<lparr>si_uploads := si_uploads s, si_doomed := si_doomed s2\<rparr>"]) (simp add: server_at_def)
qed

lemma upload_runs:
  assumes "Upload AtomicQuota (qc_accepts cfg) st cx o' request sv = (a, sv')" and "server_at sv s" and "fresh_for cx s"
  shows "\<exists>s'. site_runs cfg st s s' \<and> server_at sv' s' \<and> si_uploads s' = si_uploads s"
  using assms(1)
proof (cases rule: Upload_cases)
  case (early code message)
  with assms(2) show ?thesis by (auto simp: server_at_def)
next
  case (denied i filename content r sv1 code message)
  from denied(3) obtain bs where bs: "sv1 = sv\<lparr>sv_db := (sv_db sv)\<lparr>rate_limit_buckets := bs\<rparr>\<rparr>"
    using denied(4) by (cases rule: admit_upload_cases) auto
  let ?s = "s\<lparr>si_db := (si_db s)\<lparr>rate_limit_buckets := bs\<rparr>\<rparr>"
  have "server_at sv' ?s" using bs denied(6,7) assms(2) by (simp add: server_at_def)
  with run_rate [of cfg st s bs] show ?thesis by (intro exI [of _ ?s]) simp
next
  case (failed i filename content sv1 message sv2)
  note f = assms(3) [unfolded fresh_for_def failed(1), simplified]
  obtain s1 where s1: "site_runs cfg st s s1" "server_at sv1 s1"
      "si_uploads s1 = (si_uploads s)(i \<mapsto> Reserved o' filename content (cx_clock cx Creating))"
    using admit_upload_runs [OF failed(4) assms(2)] f failed(3) by blast
  obtain s2 where s2: "site_runs cfg st s1 s2" "server_at sv2 s2" "\<forall>j. j \<noteq> i \<longrightarrow> si_uploads s2 j = si_uploads s1 j"
    using store_upload_runs [of s1 i, OF _ s1(2) failed(5)] s1(3) by auto
  let ?s3 = "s2\<lparr>si_db := (if cx_up cx Releasing_Now then snd (ReleaseUpload (cx_clock cx Releasing_Now) i (si_db s2)) else si_db s2)\<rparr>"
  have "site_runs cfg st s ?s3" using run_trans [OF run_trans [OF s1(1) s2(1)] run_release] .
  moreover have "server_at sv' ?s3" using s2(2) failed(7) by (simp add: server_at_def release_upload_eq)
  ultimately show ?thesis by (rule upload_leaves) (use f s1(3) s2(3) in simp_all)
next
  case (done_ i filename content sv1 sv2)
  note f = assms(3) [unfolded fresh_for_def done_(1), simplified]
  obtain s1 where s1: "site_runs cfg st s s1" "server_at sv1 s1"
      "si_uploads s1 = (si_uploads s)(i \<mapsto> Reserved o' filename content (cx_clock cx Creating))"
    using admit_upload_runs [OF done_(5) assms(2)] f done_(4) by blast
  obtain s2 where s2: "site_runs cfg st s1 s2" "server_at sv2 s2" "\<forall>j. j \<noteq> i \<longrightarrow> si_uploads s2 j = si_uploads s1 j"
    using store_upload_runs [of s1 i, OF _ s1(2) done_(6)] s1(3) by auto
  have "server_at sv' s2" using s2(2) done_(8,9) by (simp add: server_at_def)
  with run_trans [OF s1(1) s2(1)] show ?thesis by (rule upload_leaves) (use f s1(3) s2(3) in simp_all)
qed

text \<open>An upload is one of the runs of the machine. Called while the site is in any state, with a new
  identifier, \<^verbatim>\<open>Upload\<close> ends in a database and files that the steps above reach, with no upload of
  its own left, whatever it answers and whichever of its calls failed.\<close>

theorem upload_runs_as_steps:
  assumes "Upload AtomicQuota (qc_accepts cfg) st cx o' request sv = (a, sv')" and "server_at sv s" and "fresh_for cx s"
  shows "\<exists>s'. site_runs cfg st s s' \<and> server_at sv' s' \<and> si_uploads s' = si_uploads s"
  by (rule upload_runs [OF assms])

end
