(* ===== verification/Handler_Effects.thy ===== *)
theory Handler_Effects
  imports Site_Machine
begin

text \<open>
  What a client is told by \<^verbatim>\<open>Upload\<close> and \<^verbatim>\<open>Delete\<close> (\<^verbatim>\<open>api/documents.go\<close>) is what happened:
  an accepted upload is stored in full, a refused one leaves nothing behind, a deleted document is gone
  with its file, its chunks and its questions, and its owner gets the space back. Also that the two
  handlers that delete files take the steps of \<open>Site_Machine\<close>.
\<close>

section \<open>Releasing a reservation\<close>

lemma balanced_counters:
  assumes "balanced d"
  shows "is_int64 (us_CommittedBytes (scan_usage p d))" "is_int64 (us_CommittedDocuments (scan_usage p d))"
    "is_int64 (us_ReservedBytes (scan_usage p d))" "is_int64 (us_ReservedDocuments (scan_usage p d))"
    "is_int64 (us_ActiveAnswers (scan_usage p d))"
proof -
  have "books_ok d" "counters (scan_usage p d) = truth p d" using assms by (simp_all add: balanced_def)
  with books_int64 [of d p] show "is_int64 (us_CommittedBytes (scan_usage p d))" "is_int64 (us_CommittedDocuments (scan_usage p d))"
    "is_int64 (us_ReservedBytes (scan_usage p d))" "is_int64 (us_ReservedDocuments (scan_usage p d))"
    "is_int64 (us_ActiveAnswers (scan_usage p d))" by (simp_all add: counters_def truth_def)
qed

text \<open>On balanced books releasing does not fail.\<close>

lemma ReleaseUpload_closes:
  assumes bal: "balanced d" and r: "find_reservation i d = Inr r" and rel: "ReleaseUpload t i d = (res, d')"
    and x: "x \<in> set (upload_reservations d')" "ur_ID x = i"
  shows "ur_State x \<noteq> ''reserved''"
proof -
  have tables: "tables_ok d" using bal by (simp add: balanced_def books_ok_def)
  note rin = find_reservation_ok [OF r]
  show ?thesis
  proof (cases "ur_State r = ''reserved''")
    case False
    then have "d' = lockOwnerUsage t (ur_OwnerID r) d"
      using rel r by (simp add: ReleaseUpload_def transaction_def Let_def)
    moreover have "distinct (map ur_ID (upload_reservations d))" using tables by (simp add: tables_ok_def)
    ultimately show ?thesis
      using False rin x same_key_same_row [of ur_ID "upload_reservations d" x r] by auto
  next
    case True
    let ?l = "lockOwnerUsage t (ur_OwnerID r) d"
    let ?f = "\<lambda>u. u\<lparr>us_ReservedBytes := max (us_ReservedBytes u - ur_Bytes r) 0,
       us_ReservedDocuments := max (us_ReservedDocuments u - 1) 0, us_UpdatedAt := t\<rparr>"
    have "0 \<le> ur_Bytes r" using tables rin by (auto simp: tables_ok_def)
    moreover note balanced_counters [OF balanced_lock [OF bal], of "ur_OwnerID r" t "ur_OwnerID r"]
    ultimately have "bigint_ok (?f (scan_usage (ur_OwnerID r) ?l))" by (auto simp: bigint_ok_def is_int64_def max_def)
    moreover have "tables_ok ?l" using tables by simp
    ultimately obtain d1 where d1: "update_usage (ur_OwnerID r) ?f ?l = Inr d1"
      using update_usage_ok [of ?l "ur_OwnerID r" ?f] by auto
    have "d' = set_reservation i (\<lambda>r. r\<lparr>ur_State := ''released'', ur_ReleasedAt := Some t\<rparr>) d1"
      using rel r True d1 by (simp add: ReleaseUpload_def transaction_def Let_def)
    with x obtain y where y: "x = (if ur_ID y = i then y\<lparr>ur_State := ''released'', ur_ReleasedAt := Some t\<rparr> else y)"
      by (auto simp: set_reservation_def in_update_where)
    with x(2) show ?thesis by (cases "ur_ID y = i") simp_all
  qed
qed

section \<open>Upload\<close>

text \<open>The new identifier: no file or reservation has it.\<close>

definition unused :: "('f, 's) documentStorage \<Rightarrow> 's bucket_view \<Rightarrow> 's server \<Rightarrow> string \<Rightarrow> bool" where
  "unused st v sv i \<longleftrightarrow> plain_name i \<and> held_at st v (sv_files sv) (storedPath i) = None \<and>
     i \<notin> ur_ID ` set (upload_reservations (sv_db sv)) \<and> \<not> open_for i (sv_db sv)"

lemma find_reservation_unique:
  assumes "distinct (map ur_ID (upload_reservations d))" "x \<in> set (upload_reservations d)" "ur_ID x = i"
  shows "find_reservation i d = Inr x"
  using find_unique_key [OF assms(1,2)] assms(3) by (simp add: find_reservation_def first_or_not_found_def)

text \<open>After a grant the only reservation with the identifier is the new one.\<close>

lemma admitted:
  assumes "admit_upload AtomicQuota cx o' i sz sv = (Inr True, sv1)" "balanced (sv_db sv)" "unused st v sv i"
    and "0 \<le> sz" "sz \<le> maxUploadSize"
  shows "balanced (sv_db sv1)" "documents (sv_db sv1) = documents (sv_db sv)" "sv_files sv1 = sv_files sv"
    "\<exists>r. find_reservation i (sv_db sv1) = Inr r"
    "\<forall>r \<in> set (upload_reservations (sv_db sv1)). ur_DocumentID r = i \<and> ur_State r = ''reserved'' \<longrightarrow> ur_ID r = i"
proof -
  let ?d = "\<lambda>bs. (sv_db sv)\<lparr>rate_limit_buckets := bs\<rparr>"
  from assms(1) obtain bs t expiresAt where sv1: "sv1 = sv\<lparr>sv_db := sv_db sv1\<rparr>"
    and res: "ReserveUpload t o' i i sz expiresAt (?d bs) = (Inr (), sv_db sv1)"
    by (cases rule: admit_upload_cases) auto
  from sv1 show "sv_files sv1 = sv_files sv" by (metis server.select_convs(2) server.surjective server.update_convs(1))
  have "quota_event_ok (?d bs) (Reserving o' i i sz expiresAt)"
    using assms(4,5) by (simp add: maxInt64_minus_storage_def quota_limits maxUploadSize_def)
  from balanced_step [OF _ this, of _ t] assms(2) res show bal: "balanced (sv_db sv1)" by simp
  from res obtain rs x where e: "documents (sv_db sv1) = documents (?d bs)" "closing (upload_reservations (?d bs)) rs"
      "upload_reservations (sv_db sv1) = rs @ [x]" "purpose x = (i, o', i, sz)" by (elim ReserveUpload_effect)
  from e(1) show "documents (sv_db sv1) = documents (sv_db sv)" by simp
  have "distinct (map ur_ID (upload_reservations (sv_db sv1)))" using bal by (simp add: balanced_def books_ok_def tables_ok_def)
  from find_reservation_unique [OF this, of x i] e(3,4) show "\<exists>r. find_reservation i (sv_db sv1) = Inr r"
    by (auto simp: purpose_def)
  show "\<forall>r \<in> set (upload_reservations (sv_db sv1)). ur_DocumentID r = i \<and> ur_State r = ''reserved'' \<longrightarrow> ur_ID r = i"
  proof (intro ballI impI)
    fix r assume r: "r \<in> set (upload_reservations (sv_db sv1))" "ur_DocumentID r = i \<and> ur_State r = ''reserved''"
    show "ur_ID r = i"
    proof (cases "r = x")
      case False
      with r e(3) have "r \<in> set rs" by simp
      with closing_in [OF e(2) this] r(2) assms(3) show ?thesis by (auto simp: unused_def open_for_def)
    qed (use e(4) in \<open>simp add: purpose_def\<close>)
  qed
qed

text \<open>Whatever is asked to be removed can be.\<close>

definition removal_works :: "('f, 's) documentStorage \<Rightarrow> 'f conditions \<Rightarrow> bool" where
  "removal_works st cx \<longleftrightarrow> (\<forall>k ss. fst (ds_Delete st (cx_remove cx) k ss) = None)"

lemma removal_works_directory: "(\<And>p. \<not> sf_stuck (cx_remove cx) p) \<Longrightarrow> removal_works (Filesystem s) cx"
  by (simp add: removal_works_def storage_Delete_def RemoveAll_def Let_def split: prod.split)

lemma failed_store_effect:
  assumes doc: "storage_documented st v"
    and "store_upload AtomicQuota accepts st cx o' i filename content sv = (Some message, sv')"
    and "plain_name i" "stores_ok st v (sv_files sv)" "held_at st v (sv_files sv) (storedPath i) = None"
  shows "sv_db sv' = sv_db sv" "k \<noteq> storedPath i \<Longrightarrow> held_at st v (sv_files sv') k = held_at st v (sv_files sv) k"
    "removal_works st cx \<Longrightarrow> (\<exists>ost. st = Bucket ost) \<longrightarrow> message \<noteq> ''could not save uploaded file'' \<Longrightarrow>
       held_at st v (sv_files sv') = held_at st v (sv_files sv)"
proof -
  have key: "document_key (storedPath i)" using assms(3) by (rule document_key_storedPath)
  have all: "sv_db sv' = sv_db sv \<and> (k \<noteq> storedPath i \<longrightarrow> held_at st v (sv_files sv') k = held_at st v (sv_files sv) k) \<and>
      (removal_works st cx \<and> ((\<exists>ost. st = Bucket ost) \<longrightarrow> message \<noteq> ''could not save uploaded file'') \<longrightarrow>
        held_at st v (sv_files sv') = held_at st v (sv_files sv))" for k
    using assms(2)
  proof (cases rule: store_upload_cases)
    case (put_failed e ss)
    note P = ds_put [OF doc assms(4) key put_failed(3)]
    have "held_at st v ss = held_at st v (sv_files sv)" if "\<not> (\<exists>ost. st = Bucket ost)"
    proof -
      from that obtain s where s: "st = Filesystem s" by (cases st) auto
      obtain fs where "fs_put s (sf_put (cx_put cx), sf_name (cx_put cx)) (cx_put_time cx) (storedPath i) content (ss_files (sv_files sv)) = (Some e, fs)"
        "ss = sv_files sv\<lparr>ss_files := fs\<rparr>"
        using put_failed(3) by (auto simp: s fs_put_eq split: prod.splits)
      with fs.put_failed [OF _ key, of s] assms(4) show ?thesis by (simp add: s held_at_def stores_ok_def)
    qed
    with P(3) put_failed(1,2) show ?thesis by auto
  next
    case (commit_failed ss e ss')
    note P = ds_put [OF doc assms(4) key commit_failed(3)]
    note D = ds_delete [OF doc P(1) key commit_failed(4)]
    have "e = None" if "removal_works st cx"
      using commit_failed(4) that by (metis fst_conv removal_works_def)
    with P(2) D(2,3) assms(5) commit_failed(2) show ?thesis by (auto simp: fun_upd_idem_iff)
  qed simp
  then show "sv_db sv' = sv_db sv" "k \<noteq> storedPath i \<Longrightarrow> held_at st v (sv_files sv') k = held_at st v (sv_files sv) k"
    "removal_works st cx \<Longrightarrow> (\<exists>ost. st = Bucket ost) \<longrightarrow> message \<noteq> ''could not save uploaded file'' \<Longrightarrow>
       held_at st v (sv_files sv') = held_at st v (sv_files sv)" by blast+
qed

lemma closed_release:
  assumes "balanced d" "\<exists>r. find_reservation i d = Inr r" "ReleaseUpload t i d = (res, d')"
    and "\<forall>r \<in> set (upload_reservations d). ur_DocumentID r = i \<and> ur_State r = ''reserved'' \<longrightarrow> ur_ID r = i"
  shows "\<not> open_for i d'" "documents d' = documents d"
proof -
  have q: "quiet d d'" using quiet_ReleaseUpload [OF assms(3)] .
  then show "documents d' = documents d" by (simp add: quiet_def)
  have "ur_State x \<noteq> ''reserved''" if x: "x \<in> set (upload_reservations d')" "ur_DocumentID x = i" for x
  proof
    assume s: "ur_State x = ''reserved''"
    with q x closing_in [of "upload_reservations d" "upload_reservations d'" x] have "x \<in> set (upload_reservations d)"
      by (auto simp: quiet_def)
    with assms(4) x(2) s have "ur_ID x = i" by blast
    with ReleaseUpload_closes [OF assms(1) _ assms(3) x(1)] assms(2) s show False by blast
  qed
  then show "\<not> open_for i d'" by (auto simp: open_for_def)
qed

text \<open>C8: an upload is stored in full or not at all. When the answer is 202, the file sent is a PDF within the
  limit, its bytes are stored, its row is the one added to the documents, and the answer names it. Any
  other answer is an error, no document was added, and no file has changed, but for the new one where it
  could not be removed, or where a bucket has taken it although the call failed; unless the connection is
  lost once more, no reservation is left open.\<close>

theorem upload_all_or_nothing:
  assumes "storage_documented st v" and "balanced (sv_db sv)" and "stores_ok st v (sv_files sv)"
    and "case documentID (cx_random cx) of None \<Rightarrow> True | Some i \<Rightarrow> unused st v sv i"
    and "Upload AtomicQuota accepts st cx o' request sv = (a, sv')"
  shows "(case a of
      Answered code body \<Rightarrow> \<exists>i filename content. documentID (cx_random cx) = Some i \<and>
        FormFile request = Some (filename, content) \<and> take 5 content = ''%PDF-'' \<and> int (length content) \<le> maxUploadSize \<and>
        code = 202 \<and> body = [(''documentId'', i), (''status'', ''queued'')] \<and>
        documents (sv_db sv') = documents (sv_db sv) @
          [stored_document o' (upload_document i filename (int (length content)) (cx_clock cx Creating))] \<and>
        held_at st v (sv_files sv') = (held_at st v (sv_files sv))(storedPath i \<mapsto> (content, cx_put_time cx))
    | Refused_With code message \<Rightarrow> documents (sv_db sv') = documents (sv_db sv) \<and>
        (if removal_works st cx \<and> (case st of Filesystem _ \<Rightarrow> True | Bucket _ \<Rightarrow> message \<noteq> ''could not save uploaded file'')
         then held_at st v (sv_files sv') = held_at st v (sv_files sv)
         else \<forall>k. documentID (cx_random cx) = None \<or> k \<noteq> storedPath (the (documentID (cx_random cx))) \<longrightarrow>
           held_at st v (sv_files sv') k = held_at st v (sv_files sv) k) \<and>
        (case documentID (cx_random cx) of None \<Rightarrow> True | Some i \<Rightarrow> cx_up cx Releasing_Now \<longrightarrow> \<not> open_for i (sv_db sv'))
    | Empty_Answer code \<Rightarrow> False)"
  using assms(5)
proof (cases rule: Upload_cases)
  case (early code message)
  with assms(4) show ?thesis by (auto simp: unused_def open_for_def split: option.splits)
next
  case (denied i filename content r sv1 code message)
  from denied(3,4) obtain bs where "sv1 = sv\<lparr>sv_db := (sv_db sv)\<lparr>rate_limit_buckets := bs\<rparr>\<rparr>"
    by (cases rule: admit_upload_cases) auto
  with denied assms(4) show ?thesis by (simp add: unused_def open_for_def)
next
  case (failed i filename content sv1 message sv2)
  have un: "unused st v sv i" using assms(4) failed(1) by simp
  note A = admitted [OF failed(4) assms(2) un _ failed(3), simplified]
  have clean: "plain_name i" "stores_ok st v (sv_files sv1)" "held_at st v (sv_files sv1) (storedPath i) = None"
    using un A(3) assms(3) by (simp_all add: unused_def)
  note S = failed_store_effect [OF assms(1) failed(5) clean]
  have rel: "sv_db sv' = (if cx_up cx Releasing_Now then snd (ReleaseUpload (cx_clock cx Releasing_Now) i (sv_db sv1)) else sv_db sv1)"
    "sv_files sv' = sv_files sv2"
    using failed(7) S(1) by (simp_all add: release_upload_eq)
  obtain res d where d: "ReleaseUpload (cx_clock cx Releasing_Now) i (sv_db sv1) = (res, d)" by force
  note R = closed_release [OF A(1,4) d A(5)]
  have "held_at st v (sv_files sv2) = held_at st v (sv_files sv1)"
    if "removal_works st cx" "case st of Filesystem _ \<Rightarrow> True | Bucket _ \<Rightarrow> message \<noteq> ''could not save uploaded file''"
    using S(3) that by (cases st) auto
  then show ?thesis using failed(1,6) rel d R A(2,3) S(2) by auto
next
  case (done_ i filename content sv1 sv2)
  have un: "unused st v sv i" using assms(4) done_(1) by simp
  note A = admitted [OF done_(5) assms(2) un _ done_(4), simplified]
  have key: "document_key (storedPath i)" using un by (simp add: unused_def document_key_storedPath)
  from done_(6) obtain ss d where d: "sv2 = sv1\<lparr>sv_files := ss, sv_db := d\<rparr>"
    "put_pdf st (cx_put cx) (cx_put_time cx) (storedPath i) content (sv_files sv1) = (None, ss)"
    "CreateOwnedAndCommitUpload accepts (cx_clock cx Committing_Now) o'
       (upload_document i filename (int (length content)) (cx_clock cx Creating)) i (sv_db sv1) = (Inr (), d)"
    by (cases rule: store_upload_cases) auto
  from d(3) have "documents d = documents (sv_db sv1) @
      [stored_document o' (upload_document i filename (int (length content)) (cx_clock cx Creating))]"
    by (elim CreateOwnedAndCommitUpload_effect)
  moreover have "stores_ok st v (sv_files sv1)" using assms(3) A(3) by simp
  from ds_put(2) [OF assms(1) this key d(2)] A(3)
  have "held_at st v ss = (held_at st v (sv_files sv))(storedPath i \<mapsto> (content, cx_put_time cx))" by simp
  ultimately show ?thesis using done_ d(1) A(2) by auto
qed

definition sample_conditions :: "network conditions" where
  "sample_conditions = \<lparr>cx_up = (\<lambda>_. True), cx_clock = (\<lambda>_. 7), cx_random = Some (replicate 16 0), cx_put = no_faults,
     cx_put_time = 7, cx_remove = no_faults\<rparr>"

definition sample_server :: "bucket server" where
  "sample_server = \<lparr>sv_db = empty_db, sv_files = no_files, sv_admission = newAdmissionController, sv_metrics = newMetrics\<rparr>"

definition sample_upload_request :: upload_request where
  "sample_upload_request = \<lparr>ul_ContentLength = 300, ul_BodyLength = 300, ul_Form = Some (''x.pdf'', ''%PDF-1''), ul_SeekError = False\<rparr>"

lemma sample_documentID: "documentID (cx_random sample_conditions) = Some ''00000000-0000-4000-8000-000000000000''"
  by code_simp

text \<open>An upload to a bucket.\<close>

lemma upload_all_or_nothing_witness:
  "(case Upload AtomicQuota (\<lambda>_. True) sample_remote sample_conditions ''o'' sample_upload_request sample_server of
     (a, sv') \<Rightarrow> held_at sample_remote sample_view (sv_files sv') (storedPath ''00000000-0000-4000-8000-000000000000'') = Some (''%PDF-1'', 7))"
proof -
  obtain a sv' where up: "Upload AtomicQuota (\<lambda>_. True) sample_remote sample_conditions ''o'' sample_upload_request sample_server = (a, sv')"
    by force
  have "(case fst (Upload AtomicQuota (\<lambda>_. True) sample_remote sample_conditions ''o'' sample_upload_request sample_server) of
      Answered code body \<Rightarrow> True | _ \<Rightarrow> False)" by code_simp
  with up obtain code body where a: "a = Answered code body" by (cases a) auto
  have "balanced (sv_db sample_server)" "stores_ok sample_remote sample_view (sv_files sample_server)"
    by (simp_all add: sample_server_def balanced_empty no_files_ok)
  moreover have "case documentID (cx_random sample_conditions) of None \<Rightarrow> True | Some i \<Rightarrow> unused sample_remote sample_view sample_server i"
    by (simp add: sample_documentID unused_def sample_server_def plain_name_def open_for_def held_at_def sample_remote_def no_files_def sample_view_def)
  ultimately have "held_at sample_remote sample_view (sv_files sv') (storedPath ''00000000-0000-4000-8000-000000000000'') =
      Some (snd (the (FormFile sample_upload_request)), cx_put_time sample_conditions)"
    using upload_all_or_nothing [OF sample_documented(2) _ _ _ up] a by (auto simp: sample_documentID)
  with up show ?thesis by (simp add: sample_upload_request_def FormFile_def maxUploadSize_def sample_conditions_def)
qed

lemma upload_runs_as_steps_witness:
  "\<exists>s'. site_runs sample_config sample_remote (empty_site no_files) s' \<and> length (documents (si_db s')) = 1"
proof -
  obtain a sv' where up: "Upload AtomicQuota (qc_accepts sample_config) sample_remote sample_conditions ''o'' sample_upload_request sample_server = (a, sv')"
    by force
  have "length (documents (sv_db (snd (Upload AtomicQuota (qc_accepts sample_config) sample_remote sample_conditions ''o''
      sample_upload_request sample_server)))) = 1" by code_simp
  with up have n: "length (documents (sv_db sv')) = 1" by simp
  have "server_at sample_server (empty_site no_files)" by (simp add: server_at_def sample_server_def empty_site_def)
  moreover have "fresh_for sample_conditions (empty_site no_files)"
    by (simp add: fresh_for_def sample_documentID plain_name_def empty_site_def row_def)
  ultimately obtain s' where "site_runs sample_config sample_remote (empty_site no_files) s'" "server_at sv' s'"
    using upload_runs_as_steps [OF up] by blast
  with n show ?thesis by (auto simp: server_at_def)
qed

section \<open>Deleting\<close>

lemma DeleteOwnedWithUsage_children:
  assumes "keys_ok d" "DeleteOwnedWithUsage now o' i d = (Inr r, d')"
  shows "document_chunks d' = delete_where (\<lambda>c. ch_DocumentID c = i) (document_chunks d)"
    "document_questions d' = delete_where (\<lambda>q. q_DocumentID q = i) (document_questions d)"
proof -
  from DeleteOwnedWithUsage_effect [OF assms] have r: "row d i = Some r" by blast
  then have gone: "set (map doc_ID (filter (\<lambda>r. doc_ID r = i) (documents d))) = {i}" using row_None [of d i] by auto
  from assms(2) obtain r0 where r0: "FindOwned o' i d = Inr r0" "delete_locked now o' i r0 d = Inr (r, d')"
    by (auto simp: DeleteOwnedWithUsage_def transaction_ok and_then_Inr)
  with r have "r0 = r" by (auto simp: FindOwned_row [OF assms(1)] split: if_splits)
  with r0(2) obtain f where "update_usage o' f (delete_documents (\<lambda>x. doc_ID x = i) d) = Inr d'"
    by (auto simp: delete_locked_eq [OF assms(1) r] and_then_Inr)
  with gone show "document_chunks d' = delete_where (\<lambda>c. ch_DocumentID c = i) (document_chunks d)"
    "document_questions d' = delete_where (\<lambda>q. q_DocumentID q = i) (document_questions d)"
    by (auto elim!: update_usage_cases simp: delete_documents_def Let_def)
qed

lemma Delete_handler_cases:
  assumes "Delete_handler kind st up up' now f o' i sv = (a, sv')" "kind \<noteq> NoQuota"
  obtains (unknown) "a = Refused_With 404 ''document not found''" "sv' = sv" "up \<Longrightarrow> \<exists>e. FindOwned o' i (sv_db sv) = Inl e"
  | (kept) "a = Refused_With 500 ''could not delete document''" "sv' = sv"
  | (deleted) r d e fs where "DeleteOwnedWithUsage now o' i (sv_db sv) = (Inr r, d)"
      "ds_Delete st f (doc_StoredPath r) (sv_files sv) = (e, fs)" "sv' = sv\<lparr>sv_db := d, sv_files := fs\<rparr>"
      "a = (if e = None then Empty_Answer 204 else Refused_With 500 ''document metadata deleted but file cleanup failed'')"
proof (cases "up \<and> (\<exists>r. FindOwned o' i (sv_db sv) = Inr r)")
  case False
  then obtain e where "(if up then FindOwned o' i (sv_db sv) else Inl ErrUnavailable) = Inl e"
    by (cases up; cases "FindOwned o' i (sv_db sv)") auto
  then have "a = Refused_With 404 ''document not found'' \<and> sv' = sv"
    using assms(1) by (simp add: Delete_handler_def)
  moreover have "up \<Longrightarrow> \<exists>e. FindOwned o' i (sv_db sv) = Inl e"
    using False by (cases "FindOwned o' i (sv_db sv)") auto
  ultimately show thesis using unknown by blast
next
  case True
  then obtain r0 where r0: "up" "FindOwned o' i (sv_db sv) = Inr r0" by blast
  obtain res d where c: "with_connection up' (DeleteOwnedWithUsage now o' i) (sv_db sv) = (res, d)" by force
  show thesis
  proof (cases res)
    case (Inl e)
    with c have "d = sv_db sv"
      by (auto simp: with_connection_def DeleteOwnedWithUsage_def split: if_splits dest: transaction_error)
    with r0 c Inl assms kept show thesis by (simp add: Delete_handler_def Let_def)
  next
    case (Inr r)
    obtain e fs where e: "ds_Delete st f (doc_StoredPath r) (sv_files sv) = (e, fs)" by force
    have "DeleteOwnedWithUsage now o' i (sv_db sv) = (Inr r, d)"
      using c Inr by (auto simp: with_connection_def split: if_splits)
    with r0 c Inr e assms deleted show thesis by (cases e) (simp_all add: Delete_handler_def Let_def)
  qed
qed

text \<open>C21: deleting a document. When the answer is 204 the owner's document is gone with its chunks, its
  questions and its file, no other file has changed, and its size is taken off what the owner has stored.
  A document that is not there or belongs to somebody else is answered 404, and nothing changes; after a
  500 either nothing has changed or the document is gone and only its file may be left over.\<close>

theorem delete_removes_document:
  assumes "storage_documented st v" and "stores_ok st v start" and "site_reachable cfg st start s" and "server_at sv s"
    and "Delete_handler AtomicQuota st up up' now f o' i sv = (a, sv')"
  shows "(case row (sv_db sv) i of
      Some r \<Rightarrow>
        (if a = Refused_With 404 ''document not found'' then sv' = sv \<and> (up \<longrightarrow> doc_OwnerID r \<noteq> o')
         else if a = Refused_With 500 ''could not delete document'' then sv' = sv
         else doc_OwnerID r = o' \<and> documents (sv_db sv') = delete_where (\<lambda>x. doc_ID x = i) (documents (sv_db sv)) \<and>
           document_chunks (sv_db sv') = delete_where (\<lambda>c. ch_DocumentID c = i) (document_chunks (sv_db sv)) \<and>
           document_questions (sv_db sv') = delete_where (\<lambda>q. q_DocumentID q = i) (document_questions (sv_db sv)) \<and>
           truth o' (sv_db sv') = add_counters (truth o' (sv_db sv)) (- doc_Size r, - 1, 0, 0, 0) \<and>
           (if a = Empty_Answer 204
            then held_at st v (sv_files sv') = (held_at st v (sv_files sv))(doc_StoredPath r := None)
            else a = Refused_With 500 ''document metadata deleted but file cleanup failed'' \<and>
              (\<forall>k. k \<noteq> doc_StoredPath r \<longrightarrow> held_at st v (sv_files sv') k = held_at st v (sv_files sv) k)))
    | None \<Rightarrow> sv' = sv \<and> (a = Refused_With 404 ''document not found'' \<or> a = Refused_With 500 ''could not delete document''))"
proof -
  note ok = site_reachable_ok [OF assms(3,1,2)]
  have at: "si_db s = sv_db sv" "si_files s = sv_files sv" using assms(4) by (simp_all add: server_at_def)
  have bal: "balanced (sv_db sv)" using site_okD(1) [OF ok] at by simp
  then have tables: "tables_ok (sv_db sv)" and keys: "keys_ok (sv_db sv)" by (simp_all add: balanced_def books_ok_def tables_ok_def)
  have kind: "AtomicQuota \<noteq> NoQuota" by simp
  from assms(5) kind show ?thesis
  proof (cases rule: Delete_handler_cases)
    case unknown
    then show ?thesis by (auto simp: FindOwned_row [OF keys] split: option.splits)
  next
    case kept
    then show ?thesis by (auto split: option.splits)
  next
    case (deleted r d e fs)
    note E = DeleteOwnedWithUsage_effect [OF keys deleted(1)] and K = DeleteOwnedWithUsage_children [OF keys deleted(1)]
    have "r \<in> set (documents (si_db s))" "doc_ID r = i" using E row_ID at by metis+
    then have f: "plain_name i" "doc_StoredPath r = storedPath i" using site_okD(3) [OF ok] by (auto simp: has_file_def)
    have fsok: "stores_ok st v (sv_files sv)" using site_okD(2) [OF ok] at by simp
    note D = ds_delete [OF assms(1) fsok document_key_storedPath [OF f(1)] deleted(2) [unfolded f(2)]]
    have tr: "truth o' d = add_counters (truth o' (sv_db sv)) (- doc_Size r, - 1, 0, 0, 0)"
      using tables deleted(1) by (cases rule: DeleteOwnedWithUsage_cases) simp_all
    show ?thesis using E K deleted(3,4) D(2,3) f(2) tr by auto
  qed
qed

lemma delete_removes_document_witness:
  "\<exists>(sv :: bucket server) (sv' :: bucket server). Delete_handler AtomicQuota sample_local True True 9 no_faults ''p'' ''a'' sv =
       (Refused_With 404 ''document not found'', sv') \<and> length (documents (sv_db sv)) = 1 \<and> sv' = sv"
proof -
  obtain d fs d' up sent where
    s: "site_reachable sample_config sample_local no_files \<lparr>si_db = d', si_files = fs, si_uploads = up, si_doomed = {}, si_sent = sent\<rparr>"
    and r: "documents d' = [stored_document ''o'' (upload_document ''a'' ''x.pdf'' 6 9)]"
    by (rule sample_run)
  let ?s = "\<lparr>si_db = d', si_files = fs, si_uploads = up, si_doomed = {}, si_sent = sent\<rparr>"
  let ?sv = "\<lparr>sv_db = d', sv_files = fs, sv_admission = newAdmissionController, sv_metrics = newMetrics\<rparr>"
  obtain a sv' where del: "Delete_handler AtomicQuota sample_local True True 9 no_faults ''p'' ''a'' ?sv = (a, sv')" by force
  then have a: "a = Refused_With 404 ''document not found''"
    by (auto simp: Delete_handler_def FindOwned_def r stored_document_def upload_document_def first_or_not_found_def)
  have "server_at ?sv ?s" by (simp add: server_at_def)
  from delete_removes_document [OF sample_documented(1) no_files_ok(1) s this del] a have "sv' = ?sv"
    by (simp add: row_def r stored_document_def upload_document_def)
  with del a r show ?thesis by (intro exI [of _ ?sv] exI [of _ sv']) simp
qed

section \<open>Deleting and cleaning up are runs of the machine\<close>

lemma delete_runs_as_steps:
  assumes "Delete_handler AtomicQuota st up up' now f o' i sv = (a, sv')" and "server_at sv s"
  shows "\<exists>s'. site_runs cfg st s s' \<and> server_at sv' s' \<and> si_uploads s' = si_uploads s"
proof -
  have kind: "AtomicQuota \<noteq> NoQuota" by simp
  from assms(1) kind show ?thesis
  proof (cases rule: Delete_handler_cases)
    case (deleted r d e fs)
    let ?s1 = "s\<lparr>si_db := d, si_doomed := insert (doc_StoredPath r) (si_doomed s)\<rparr>"
    let ?s2 = "?s1\<lparr>si_files := fs, si_doomed := si_doomed ?s1 - {doc_StoredPath r}\<rparr>"
    have "site_step cfg st s ?s1"
      by (rule site_step.delete_row) (use deleted(1) assms(2) in \<open>simp add: server_at_def\<close>)
    moreover have "site_step cfg st ?s1 ?s2"
      by (rule site_step.delete_file) (use deleted(2) assms(2) in \<open>simp_all add: server_at_def\<close>)
    ultimately have "site_runs cfg st s ?s2" by (meson rtranclp.rtrancl_refl rtranclp.rtrancl_into_rtrancl)
    with deleted(3) show ?thesis by (intro exI [of _ ?s2]) (simp add: server_at_def)
  qed (use assms(2) in auto)
qed

lemma reconcile_objects_runs:
  assumes "reconcile_objects (\<lambda>key. ds_Delete st (g key) key) references cutoff xs fs = (e, fs')" "si_files s = fs"
    and "\<forall>i b. references i = Inr b \<longrightarrow> b = UploadReferenceExists i (si_db s)"
    and "\<forall>x \<in> set xs. \<forall>i. Split CHR ''/'' (so_Key x) = [''documents'', i, ''original.pdf''] \<longrightarrow> plain_name i"
  shows "\<exists>s'. site_runs cfg st s s' \<and> si_db s' = si_db s \<and> si_files s' = fs' \<and> si_uploads s' = si_uploads s"
  using assms
proof (induction xs arbitrary: s fs)
  case Nil
  then show ?case by auto
next
  case (Cons x xs)
  have skip: ?case if "reconcile_objects (\<lambda>key. ds_Delete st (g key) key) references cutoff xs fs = (e, fs')"
    using Cons.IH [OF that Cons.prems(2,3)] Cons.prems(4) by simp
  show ?case
  proof (cases "so_LastModified x \<le> cutoff \<and> (\<exists>i. Split CHR ''/'' (so_Key x) = [''documents'', i, ''original.pdf''] \<and> references i = Inr False)")
    case False
    with Cons.prems(1,2) skip show ?thesis by (auto split: if_splits list.splits sum.splits bool.splits)
  next
    case True
    then obtain i where i: "so_LastModified x \<le> cutoff" "Split CHR ''/'' (so_Key x) = [''documents'', i, ''original.pdf'']" "references i = Inr False"
      by blast
    obtain e1 fs1 where d: "ds_Delete st (g (so_Key x)) (so_Key x) fs = (e1, fs1)" by force
    have key: "so_Key x = storedPath i" using Split_document [OF i(2)] .
    let ?s1 = "s\<lparr>si_doomed := insert (storedPath i) (si_doomed s)\<rparr>"
    let ?s2 = "?s1\<lparr>si_files := fs1, si_doomed := si_doomed ?s1 - {storedPath i}\<rparr>"
    have "site_step cfg st s ?s1"
      by (rule site_step.find_orphan) (use i Cons.prems(3,4) in auto)
    moreover have "site_step cfg st ?s1 ?s2"
      by (rule site_step.delete_file) (use d key Cons.prems(2) in simp_all)
    ultimately have run: "site_runs cfg st s ?s2" by (meson rtranclp.rtrancl_refl rtranclp.rtrancl_into_rtrancl)
    show ?thesis
    proof (cases e1)
      case (Some err)
      with Cons.prems(1) i d have "fs' = fs1" by auto
      with run show ?thesis by (intro exI [of _ ?s2]) simp
    next
      case None
      with Cons.prems(1) i d have "reconcile_objects (\<lambda>key. ds_Delete st (g key) key) references cutoff xs fs1 = (e, fs')" by auto
      from Cons.IH [OF this, of ?s2] Cons.prems(3,4) run_trans [OF run] show ?thesis by simp blast
    qed
  qed
qed

lemma reconcile_runs_as_steps:
  assumes "reconcileOrphanedUploads (ds_List st f) (\<lambda>key. ds_Delete st (g key) key) ParseDuration env now references (si_files s) = (e, fs')"
    and "reference_answers references (si_db s)" "storage_documented st v" "stores_ok st v (si_files s)"
  shows "\<exists>s'. site_runs cfg st s s' \<and> si_db s' = si_db s \<and> si_files s' = fs' \<and> si_uploads s' = si_uploads s"
proof (cases "ds_List st f ''documents/'' (si_files s)")
  case (Inl err)
  with assms(1) show ?thesis by (auto simp: reconcileOrphanedUploads_def)
next
  case (Inr xs)
  with assms(1) have "reconcile_objects (\<lambda>key. ds_Delete st (g key) key) references
      (now - environmentDurationDefault ParseDuration env ''UPLOAD_ORPHAN_MIN_AGE'' time_Hour) xs (si_files s) = (e, fs')"
    by (simp add: reconcileOrphanedUploads_def)
  from reconcile_objects_runs [OF this refl] assms(2) ds_list_plain [OF assms(3,4) Inr] show ?thesis by (auto simp: reference_answers_def)
qed

end
