(* ===== verification/Ask.thy ===== *)
theory Ask
  imports Site_Machine Worker
begin

text \<open>
  Answering a question about a document: \<^verbatim>\<open>Ask\<close> of \<^verbatim>\<open>api/documents.go\<close> with the settings and the
  server-sent events it writes. The processor behind gRPC is an argument: what it returns for the
  embedding of the question, and the events and the end of the stream it sends for a question and its
  contexts. So are the JSON encodings (\<open>json\<close>), the distance of the vector search and the state of
  the request's context when the stream ends.
\<close>

section \<open>Settings\<close>

definition defaultAnswerGenerationTimeout :: duration where "defaultAnswerGenerationTimeout = 5 * time_Minute"

definition answerGenerationTimeout :: "(string \<Rightarrow> duration option) \<Rightarrow> environment \<Rightarrow> duration" where
  "answerGenerationTimeout ParseDuration env =
     (let v = env ''ANSWER_GENERATION_TIMEOUT''
      in if v = [] then defaultAnswerGenerationTimeout
         else case ParseDuration v of
             None \<Rightarrow> defaultAnswerGenerationTimeout
           | Some timeout \<Rightarrow> if timeout \<le> 0 then defaultAnswerGenerationTimeout else timeout)"

definition retrievalLimit :: "environment \<Rightarrow> nat" where
  "retrievalLimit env =
     (let v = env ''RETRIEVAL_LIMIT''
      in if v = [] then 5
         else case Atoi v of (limit, err) \<Rightarrow> if err \<noteq> None \<or> limit \<le> 0 then 5 else nat limit)"

section \<open>Server-sent events\<close>

record json =
  js_token :: "string \<Rightarrow> string"
  js_sources :: "documentSource list \<Rightarrow> string"
  js_source_list :: "documentSource list \<Rightarrow> string"
  js_history :: "documentQuestion \<Rightarrow> string"
  js_error :: "string \<Rightarrow> string \<Rightarrow> string"
  js_done :: "bool \<Rightarrow> string"

text \<open>An event is its name and its data.\<close>

type_synonym frame = "string \<times> string"

definition newline :: char where "newline = CHR 0x0A"

definition writeSSE :: "string \<Rightarrow> frame \<Rightarrow> string" where
  "writeSSE response f = (case f of (event, payload) \<Rightarrow>
     response @ ''event: '' @ event @ [newline] @ ''data: '' @ payload @ [newline, newline])"

definition writeSSEError :: "json \<Rightarrow> string \<Rightarrow> string \<Rightarrow> frame" where
  "writeSSEError js code message = (''error'', js_error js code message)"

definition writeSSEDone :: "json \<Rightarrow> bool \<Rightarrow> frame" where
  "writeSSEDone js ok = (''done'', js_done js ok)"

text \<open>The body of a response that streams these events.\<close>

definition stream_body :: "frame list \<Rightarrow> string" where
  "stream_body frames = foldl writeSSE [] frames"

section \<open>The stream of the processor\<close>

record answerEvent =
  ae_Text :: string
  ae_Done :: bool

datatype stream_end = EOF | Broken
datatype context_state = Live | Timed_Out | Client_Gone

text \<open>The loop over the events: the answer so far, whether the model has completed it, the events written.\<close>

fun receive_answer :: "json \<Rightarrow> answerEvent list \<Rightarrow> string \<times> bool \<times> frame list \<Rightarrow> string \<times> bool \<times> frame list" where
  "receive_answer js [] p = p"
| "receive_answer js (e # es) (answerFromStream, modelCompleted, frames) =
     (if ae_Done e then receive_answer js es (answerFromStream, True, frames)
      else receive_answer js es (answerFromStream @ ae_Text e, modelCompleted, frames @ [(''token'', js_token js (ae_Text e))]))"

definition timed_out :: "json \<Rightarrow> frame list" where
  "timed_out js = [writeSSEError js ''generation_timeout'' ''Answer generation timed out.'', writeSSEDone js False]"

definition generation_failed :: "json \<Rightarrow> frame list" where
  "generation_failed js = [writeSSEError js ''generation_failed'' ''Could not complete the answer.'', writeSSEDone js False]"

definition history_failed :: "json \<Rightarrow> frame list" where
  "history_failed js = [writeSSEError js ''history_failed'' ''Answer completed but could not be saved.'', writeSSEDone js False]"

text \<open>What the end of the stream leads to: the last events, or \<open>None\<close> to go on.\<close>

fun stream_result :: "json \<Rightarrow> bool \<Rightarrow> stream_end \<Rightarrow> context_state \<Rightarrow> frame list option" where
  "stream_result js modelCompleted EOF Live = (if modelCompleted then None else Some (generation_failed js))"
| "stream_result js modelCompleted EOF Timed_Out = Some (timed_out js)"
| "stream_result js modelCompleted EOF Client_Gone = Some []"
| "stream_result js modelCompleted Broken Live = Some (generation_failed js)"
| "stream_result js modelCompleted Broken Timed_Out = Some (timed_out js)"
| "stream_result js modelCompleted Broken Client_Gone = Some []"

section \<open>The handler\<close>

record answerContext =
  ac_ChunkIndex :: "32 word"
  ac_Text :: string
  ac_PageStart :: "32 word"
  ac_PageEnd :: "32 word"

definition answer_context :: "documentChunk \<Rightarrow> answerContext" where
  "answer_context c = \<lparr>ac_ChunkIndex = word_of_int (ch_ChunkIndex c), ac_Text = ch_Text c,
     ac_PageStart = ch_PageStart c, ac_PageEnd = ch_PageEnd c\<rparr>"

datatype ask_point = Finding_Document | Rating_Answer | Beginning_Answer | Expiring_Answer | Searching | Saving | Ending_Answer

record 'f ask_inputs =
  ai_question :: "string option"
  ai_up :: "ask_point \<Rightarrow> bool"
  ai_clock :: "ask_point \<Rightarrow> time"
  ai_request_random :: "byte list option"
  ai_history_random :: "byte list option"
  ai_client :: bool
  ai_embedding :: "string \<Rightarrow> (32 word \<times> 'f list) option"
  ai_answer :: "string \<Rightarrow> answerContext list \<Rightarrow> (answerEvent list \<times> stream_end \<times> context_state) option"
  ai_retrieval_latency :: duration
  ai_answer_latency :: duration

record ('f, 'o) ask_library =
  al_json :: json
  al_fmt_g :: "'f \<Rightarrow> string"
  al_distance :: "string \<Rightarrow> string \<Rightarrow> 'o"
  al_accepts_question :: "documentQuestion \<Rightarrow> bool"
  al_timeout :: duration
  al_retrieval_limit :: nat

datatype ask_response = Ask_Refused nat string | Ask_Stream "frame list"

definition begin_answer ::
    "store_kind \<Rightarrow> duration \<Rightarrow> 'f ask_inputs \<Rightarrow> string \<Rightarrow> string \<Rightarrow> 's server \<Rightarrow> bool \<times> 's server" where
  "begin_answer kind timeout inp ownerID requestID sv =
     (if kind = NoQuota
      then (case beginAnswer (ai_clock inp Beginning_Answer) (sv_admission sv) ownerID of (granted, a) \<Rightarrow> (granted, sv\<lparr>sv_admission := a\<rparr>))
      else if \<not> ai_up inp Rating_Answer then (False, sv)
      else (case AllowRate ''answer-owner'' ownerID maxAnswersPerDay (24 * time_Hour) (ai_clock inp Rating_Answer) (rate_limit_buckets (sv_db sv)) of
              (allowed, buckets) \<Rightarrow>
                let sv = sv\<lparr>sv_db := (sv_db sv)\<lparr>rate_limit_buckets := buckets\<rparr>\<rparr>
                in if \<not> allowed then (False, sv)
                   else (case with_connection (ai_up inp Beginning_Answer) (BeginAnswer (ai_clock inp Beginning_Answer) ownerID requestID
                                (ai_clock inp Expiring_Answer + timeout)) (sv_db sv) of
                           (Inl _, d) \<Rightarrow> (False, sv\<lparr>sv_db := d\<rparr>)
                         | (Inr _, d) \<Rightarrow> (True, sv\<lparr>sv_db := d\<rparr>))))"

definition end_answer :: "store_kind \<Rightarrow> 'f ask_inputs \<Rightarrow> string \<Rightarrow> string \<Rightarrow> 's server \<Rightarrow> 's server" where
  "end_answer kind inp ownerID requestID sv =
     (if kind = NoQuota then sv\<lparr>sv_admission := endAnswer (sv_admission sv) ownerID\<rparr>
      else sv\<lparr>sv_db := snd (with_connection (ai_up inp Ending_Answer) (EndAnswer (ai_clock inp Ending_Answer) requestID ''released'') (sv_db sv))\<rparr>)"

text \<open>From the stream on: what is written, and whether the answer was completed and saved.\<close>

definition save_answer ::
    "('f, 'o :: linorder) ask_library \<Rightarrow> 'f ask_inputs \<Rightarrow> string \<Rightarrow> document \<Rightarrow> string \<Rightarrow> documentChunk list \<Rightarrow> string \<Rightarrow> 's server \<Rightarrow>
     frame list \<times> bool \<times> 's server" where
  "save_answer lib inp ownerID doc question contexts answerFromStream sv =
     (let js = al_json lib; sources = map chunk_source contexts; frames = [(''sources'', js_sources js sources)]
      in case documentID (ai_history_random inp) of
          None \<Rightarrow> (frames @ history_failed js, False, sv)
        | Some historyID \<Rightarrow>
            (let history = \<lparr>q_ID = historyID, q_OwnerID = ownerID, q_DocumentID = doc_ID doc, q_Question = question,
                   q_Answer = answerFromStream, q_Sources = js_source_list js sources, q_CreatedAt = ai_clock inp Saving\<rparr>
             in case with_connection (ai_up inp Saving) (CreateQuestion (al_accepts_question lib) history) (sv_db sv) of
                 (Inl _, d) \<Rightarrow> (frames @ history_failed js, False, sv\<lparr>sv_db := d\<rparr>)
               | (Inr _, d) \<Rightarrow> (frames @ [(''history'', js_history js history), writeSSEDone js True], True, sv\<lparr>sv_db := d\<rparr>)))"

definition generate_answer ::
    "('f, 'o :: linorder) ask_library \<Rightarrow> 'f ask_inputs \<Rightarrow> string \<Rightarrow> document \<Rightarrow> string \<Rightarrow> 's server \<Rightarrow> ask_response \<times> bool \<times> 's server" where
  "generate_answer lib inp ownerID doc question sv =
     (if \<not> ai_client inp then (Ask_Refused 503 ''document processor unavailable'', False, sv)
      else case ai_embedding inp question of
          None \<Rightarrow> (Ask_Refused 503 ''could not embed question'', False, sv)
        | Some (dimensions, embedding) \<Rightarrow>
            (if dimensions \<noteq> maxEmbeddingDimensions \<or> length embedding \<noteq> unat maxEmbeddingDimensions
             then (Ask_Refused 503 ''document processor returned an invalid embedding dimension'', False, sv)
             else
               let sv = sv\<lparr>sv_metrics := recordRetrieval (ai_retrieval_latency inp) (\<not> ai_up inp Searching) (sv_metrics sv)\<rparr>
               in if \<not> ai_up inp Searching then (Ask_Refused 500 ''could not search document'', False, sv)
                  else
                    let contexts = SearchChunksOwned (al_distance lib) ownerID (doc_ID doc) (embedding_literal (al_fmt_g lib) embedding)
                          (al_retrieval_limit lib) (sv_db sv)
                    in case ai_answer inp question (map answer_context contexts) of
                        None \<Rightarrow> (Ask_Refused 503 ''could not start answer'', False, sv)
                      | Some (events, ending, ctx) \<Rightarrow>
                          (case receive_answer (al_json lib) events ([], False, []) of
                             (answerFromStream, modelCompleted, frames) \<Rightarrow>
                               (case stream_result (al_json lib) modelCompleted ending ctx of
                                  Some last_frames \<Rightarrow> (Ask_Stream (frames @ last_frames), False, sv)
                                | None \<Rightarrow>
                                    (case save_answer lib inp ownerID doc question contexts answerFromStream sv of
                                       (last_frames, saved, sv) \<Rightarrow> (Ask_Stream (frames @ last_frames), saved, sv))))))"

definition Ask ::
    "store_kind \<Rightarrow> ('f, 'o :: linorder) ask_library \<Rightarrow> 'f ask_inputs \<Rightarrow> string \<Rightarrow> string \<Rightarrow> 's server \<Rightarrow> ask_response \<times> 's server" where
  "Ask kind lib inp ownerID i sv =
     (case ai_question inp of
        None \<Rightarrow> (Ask_Refused 400 ''question must contain between 1 and 4000 characters'', sv)
      | Some question \<Rightarrow>
          (if rune_count question = 0 \<or> rune_count question > 4000
           then (Ask_Refused 400 ''question must contain between 1 and 4000 characters'', sv)
           else case (if ai_up inp Finding_Document then FindOwned ownerID i (sv_db sv) else Inl ErrUnavailable) of
               Inl _ \<Rightarrow> (Ask_Refused 404 ''document not found'', sv)
             | Inr doc \<Rightarrow>
                 (if doc_Status doc \<noteq> ''completed'' then (Ask_Refused 409 ''document is not ready for questions'', sv)
                  else
                    let requestID = (case documentID (ai_request_random inp) of None \<Rightarrow> [] | Some r \<Rightarrow> r)
                    in case begin_answer kind (al_timeout lib) inp ownerID requestID sv of
                        (False, sv) \<Rightarrow> (Ask_Refused 429 ''answer generation quota exceeded'', sv)
                      | (True, sv) \<Rightarrow>
                          (case generate_answer lib inp ownerID doc question sv of
                             (response, ok, sv) \<Rightarrow>
                               (response, end_answer kind inp ownerID requestID
                                 (sv\<lparr>sv_metrics := recordAnswer (ai_answer_latency inp) (\<not> ok) (sv_metrics sv)\<rparr>))))))"

section \<open>What is told is what happened\<close>

definition token_frames :: "json \<Rightarrow> string list \<Rightarrow> frame list" where
  "token_frames js tokens = map (\<lambda>t. (''token'', js_token js t)) tokens"

text \<open>The events the handler writes.\<close>

definition known_frame :: "json \<Rightarrow> frame \<Rightarrow> bool" where
  "known_frame js f \<longleftrightarrow> (\<exists>t. f = (''token'', js_token js t)) \<or> (\<exists>sources. f = (''sources'', js_sources js sources)) \<or>
     (\<exists>q. f = (''history'', js_history js q)) \<or> (\<exists>code message. f = (''error'', js_error js code message)) \<or>
     (\<exists>ok. f = (''done'', js_done js ok))"

lemma known_frames [simp]:
  "f \<in> set (token_frames js tokens) \<Longrightarrow> known_frame js f" "known_frame js (''sources'', js_sources js sources)"
  "known_frame js (''history'', js_history js q)" "known_frame js (''error'', js_error js code message)"
  "known_frame js (''done'', js_done js ok)"
  by (auto simp: known_frame_def token_frames_def)

lemma receive_answer_tokens:
  "\<exists>tokens. receive_answer js es (a, m, fr) = (a @ concat tokens, m \<or> list_ex ae_Done es, fr @ token_frames js tokens) \<and>
     tokens = map ae_Text (filter (\<lambda>e. \<not> ae_Done e) es)"
  by (induction es arbitrary: a m fr) (auto simp: token_frames_def)

lemma stream_result_not_ok:
  "stream_result js m ending ctx = Some fr \<Longrightarrow> js_done js True \<noteq> js_done js False \<Longrightarrow> (''done'', js_done js True) \<notin> set fr"
  by (cases "(js, m, ending, ctx)" rule: stream_result.cases)
    (auto simp: timed_out_def generation_failed_def writeSSEError_def writeSSEDone_def split: if_splits)

lemma CreateQuestion_effect:
  "with_connection up (CreateQuestion accepts q) d = (r, d') \<Longrightarrow>
     (case r of Inl _ \<Rightarrow> d' = d
      | Inr _ \<Rightarrow> d' = d\<lparr>document_questions := document_questions d @ [q]\<rparr> \<and> (keys_ok d \<longrightarrow> keys_ok d'))"
  using keys_ok_insert_question [of d accepts q]
  by (auto simp: with_connection_def CreateQuestion_def insert_question_def split: if_splits sum.splits)

lemma save_answer_cases:
  assumes "save_answer lib inp ownerID doc question contexts content sv = (fr, saved, sv')"
  obtains (not_saved) "fr = (''sources'', js_sources (al_json lib) (map chunk_source contexts)) # history_failed (al_json lib)"
      "\<not> saved" "sv' = sv"
  | (saved) q where "fr = [(''sources'', js_sources (al_json lib) (map chunk_source contexts)), (''history'', js_history (al_json lib) q),
      (''done'', js_done (al_json lib) True)]" "saved" "sv' = sv\<lparr>sv_db := (sv_db sv)\<lparr>document_questions := document_questions (sv_db sv) @ [q]\<rparr>\<rparr>"
      "q_OwnerID q = ownerID" "q_DocumentID q = doc_ID doc" "q_Question q = question" "q_Answer q = content"
      "q_Sources q = js_source_list (al_json lib) (map chunk_source contexts)" "keys_ok (sv_db sv) \<Longrightarrow> keys_ok (sv_db sv')"
proof (cases "documentID (ai_history_random inp)")
  case None
  with assms not_saved show thesis by (auto simp: save_answer_def Let_def)
next
  case (Some h)
  let ?q = "\<lparr>q_ID = h, q_OwnerID = ownerID, q_DocumentID = doc_ID doc, q_Question = question,
     q_Answer = content, q_Sources = js_source_list (al_json lib) (map chunk_source contexts), q_CreatedAt = ai_clock inp Saving\<rparr>"
  obtain r d where c: "with_connection (ai_up inp Saving) (CreateQuestion (al_accepts_question lib) ?q) (sv_db sv) = (r, d)" by force
  note e = CreateQuestion_effect [OF c]
  show thesis
  proof (cases r)
    case (Inl x)
    with e assms Some c not_saved show thesis by (auto simp: save_answer_def Let_def)
  next
    case (Inr x)
    with e assms Some c saved [of ?q] show thesis by (auto simp: save_answer_def Let_def writeSSEDone_def)
  qed
qed

lemma generate_answer_cases:
  assumes "generate_answer lib inp ownerID doc question sv = (response, ok, sv')"
  obtains (refused) code message where "response = Ask_Refused code message" "\<not> ok" "sv_db sv' = sv_db sv" "sv_admission sv' = sv_admission sv"
  | (not_saved) tokens fr where "response = Ask_Stream (token_frames (al_json lib) tokens @ fr)" "\<not> ok" "sv_db sv' = sv_db sv"
      "sv_admission sv' = sv_admission sv"
      "js_done (al_json lib) True \<noteq> js_done (al_json lib) False \<Longrightarrow> (''done'', js_done (al_json lib) True) \<notin> set fr"
      "\<forall>f \<in> set fr. known_frame (al_json lib) f"
  | (saved) tokens sources q where "response = Ask_Stream (token_frames (al_json lib) tokens @
        [(''sources'', js_sources (al_json lib) sources), (''history'', js_history (al_json lib) q), (''done'', js_done (al_json lib) True)])"
      "ok" "sv_db sv' = (sv_db sv)\<lparr>document_questions := document_questions (sv_db sv) @ [q]\<rparr>" "sv_admission sv' = sv_admission sv"
      "q_OwnerID q = ownerID" "q_DocumentID q = doc_ID doc" "q_Question q = question" "q_Answer q = concat tokens"
      "q_Sources q = js_source_list (al_json lib) sources" "keys_ok (sv_db sv) \<Longrightarrow> keys_ok (sv_db sv')"
proof -
  let ?js = "al_json lib"
  let ?sv = "sv\<lparr>sv_metrics := recordRetrieval (ai_retrieval_latency inp) False (sv_metrics sv)\<rparr>"
  show thesis
  proof (cases "\<exists>code message. response = Ask_Refused code message")
    case True
    with assms refused show thesis
      by (auto simp: generate_answer_def Let_def split: if_splits option.splits prod.splits)
  next
    case False
    with assms obtain dimensions embedding where emb: "ai_client inp" "ai_embedding inp question = Some (dimensions, embedding)"
        "dimensions = maxEmbeddingDimensions" "length embedding = unat maxEmbeddingDimensions" "ai_up inp Searching"
      by (auto simp: generate_answer_def Let_def split: if_splits option.splits prod.splits)
    define contexts where "contexts = SearchChunksOwned (al_distance lib) ownerID (doc_ID doc) (embedding_literal (al_fmt_g lib) embedding)
        (al_retrieval_limit lib) (sv_db sv)"
    obtain events ending ctx where ans: "ai_answer inp question (map answer_context contexts) = Some (events, ending, ctx)"
    proof (cases "ai_answer inp question (map answer_context contexts)")
      case None
      with assms emb have "response = Ask_Refused 503 ''could not start answer''"
        by (simp add: generate_answer_def Let_def contexts_def)
      with False show thesis by simp
    next
      case (Some a)
      with that show thesis by (cases a) simp
    qed
    obtain tokens m where r: "receive_answer ?js events ([], False, []) = (concat tokens, m, token_frames ?js tokens)"
      using receive_answer_tokens [of ?js events "[]" False "[]"] by auto
    have gen: "generate_answer lib inp ownerID doc question sv = (case stream_result ?js m ending ctx of
        Some last_frames \<Rightarrow> (Ask_Stream (token_frames ?js tokens @ last_frames), False, ?sv)
      | None \<Rightarrow> (case save_answer lib inp ownerID doc question contexts (concat tokens) ?sv of
          (last_frames, saved, sv) \<Rightarrow> (Ask_Stream (token_frames ?js tokens @ last_frames), saved, sv)))"
      using emb ans r by (simp add: generate_answer_def Let_def contexts_def cong: option.case_cong)
    show thesis
    proof (cases "stream_result ?js m ending ctx")
      case (Some fr)
      have "\<forall>f \<in> set fr. known_frame ?js f"
        using Some by (cases "(?js, m, ending, ctx)" rule: stream_result.cases)
          (auto simp: timed_out_def generation_failed_def writeSSEError_def writeSSEDone_def split: if_splits)
      with Some gen assms not_saved [of tokens fr] stream_result_not_ok [OF Some] show thesis by auto
    next
      case None
      obtain fr s sv2 where save: "save_answer lib inp ownerID doc question contexts (concat tokens) ?sv = (fr, s, sv2)" by (metis prod_cases3)
      with None gen assms have res: "response = Ask_Stream (token_frames ?js tokens @ fr)" "ok = s" "sv' = sv2" by auto
      from save show thesis
      proof (cases rule: save_answer_cases)
        case not_saved
        with res that(2) [of tokens fr] show thesis
          by (auto simp: history_failed_def writeSSEError_def writeSSEDone_def)
      next
        case (saved q)
        with res that(3) [of tokens "map chunk_source contexts" q] show thesis by auto
      qed
    qed
  qed
qed

section \<open>Taking and giving back an answer slot\<close>

lemma BeginAnswer_reservation:
  assumes "BeginAnswer now o' rid expiresAt d = (Inr u, d')"
  shows "\<exists>r. find_answer rid d' = Inr r \<and> ar_State r = ''active'' \<and> ar_OwnerID r = o'"
proof -
  let ?r = "\<lparr>ar_ID = rid, ar_OwnerID = o', ar_RequestID = rid, ar_State = ''active'', ar_ExpiresAt = expiresAt,
      ar_CreatedAt = now, ar_FinishedAt = None\<rparr>"
  from assms obtain d2 where ins: "insert_answer ?r d2 = Inr d'"
    by (auto simp: BeginAnswer_def transaction_ok and_then_Inr Let_def split: if_splits)
  then have d': "answer_reservations d' = answer_reservations d2 @ [?r]" "rid \<notin> ar_ID ` set (answer_reservations d2)"
    by (auto simp: insert_answer_def split: if_splits)
  then have "find (\<lambda>r. ar_ID r = rid) (answer_reservations d2) = None" by (auto simp: find_None_iff)
  then show ?thesis by (simp add: find_answer_def d'(1) find_append first_or_not_found_def)
qed

lemma EndAnswer_succeeds:
  assumes bal: "balanced d" and r: "find_answer rid d = Inr r" "ar_State r = ''active''"
  shows "fst (EndAnswer t rid state d) = Inr ()"
proof -
  let ?l = "lockOwnerUsage t (ar_OwnerID r) d"
  let ?f = "\<lambda>u. u\<lparr>us_ActiveAnswers := max (us_ActiveAnswers u - 1) 0, us_UpdatedAt := t\<rparr>"
  have l: "balanced ?l" using bal by (rule balanced_lock)
  then have "counters (scan_usage (ar_OwnerID r) ?l) = truth (ar_OwnerID r) ?l" "books_ok ?l" by (simp_all add: balanced_def)
  with books_int64 [of ?l "ar_OwnerID r"] have "bigint_ok (?f (scan_usage (ar_OwnerID r) ?l))"
    by (auto simp: bigint_ok_def counters_def truth_def is_int64_def max_def)
  moreover have "tables_ok ?l" using bal by (simp add: balanced_def books_ok_def)
  ultimately obtain d1 where "update_usage (ar_OwnerID r) ?f ?l = Inr d1"
    using update_usage_ok [of ?l "ar_OwnerID r" ?f] by auto
  with r show ?thesis by (simp add: EndAnswer_def transaction_def Let_def)
qed

lemma active_truth: "truth p d = (a, b, c, e, f) \<Longrightarrow> active_count p d = f"
  by (simp add: truth_def)

lemma live_active_le:
  assumes "tables_ok d" "live_truth now o' d = (a, b, c, e, f)"
  shows "f \<le> active_count o' d"
  using live_truth_le(3) [OF assms(1), of o' now] assms(2) by (simp add: live_truth_def)

definition active_of :: "admissionController \<Rightarrow> string \<Rightarrow> int" where
  "active_of a p = (case a p of None \<Rightarrow> 0 | Some usage \<Rightarrow> ou_active usage)"

lemma begin_end_memory:
  assumes "beginAnswer now a o' = (granted, a')" "0 \<le> active_of a o'"
  shows "\<not> granted \<Longrightarrow> active_of a' p = active_of a p" "granted \<Longrightarrow> active_of (endAnswer a' o') p = active_of a p"
  using assms
  by (auto simp: beginAnswer_def endAnswer_def owner_def active_of_def empty_usage_def maxActiveAnswers_def is_int64_def
      Let_def split: if_splits option.splits)

lemma begin_answer_cases:
  assumes "begin_answer kind timeout inp o' rid sv = (granted, sv')" "kind \<noteq> NoQuota" "balanced (sv_db sv)"
  obtains (denied) bs where "\<not> granted" "sv' = sv\<lparr>sv_db := (sv_db sv)\<lparr>rate_limit_buckets := bs\<rparr>\<rparr>"
  | (granted) r where "granted" "sv' = sv\<lparr>sv_db := sv_db sv'\<rparr>" "balanced (sv_db sv')" "find_answer rid (sv_db sv') = Inr r"
      "ar_State r = ''active''" "ar_OwnerID r = o'" "active_count o' (sv_db sv') \<le> active_count o' (sv_db sv) + 1"
      "\<And>p. p \<noteq> o' \<Longrightarrow> active_count p (sv_db sv') = active_count p (sv_db sv)"
      "documents (sv_db sv') = documents (sv_db sv)" "document_questions (sv_db sv') = document_questions (sv_db sv)"
proof (cases "ai_up inp Rating_Answer")
  case False
  with assms denied [of "rate_limit_buckets (sv_db sv)"] show thesis by (auto simp: begin_answer_def)
next
  case True
  obtain allowed bs where rate: "AllowRate ''answer-owner'' o' maxAnswersPerDay (24 * time_Hour) (ai_clock inp Rating_Answer) (rate_limit_buckets (sv_db sv)) = (allowed, bs)"
    by force
  let ?d = "(sv_db sv)\<lparr>rate_limit_buckets := bs\<rparr>" and ?t = "ai_clock inp Beginning_Answer" and ?e = "ai_clock inp Expiring_Answer + timeout"
  obtain res d where c: "with_connection (ai_up inp Beginning_Answer) (BeginAnswer ?t o' rid ?e) ?d = (res, d)" by force
  have "begin_answer kind timeout inp o' rid sv = (if \<not> allowed then (False, sv\<lparr>sv_db := ?d\<rparr>)
      else case res of Inl _ \<Rightarrow> (False, sv\<lparr>sv_db := d\<rparr>) | Inr _ \<Rightarrow> (True, sv\<lparr>sv_db := d\<rparr>))"
    using assms(2) True rate [simplified] c by (simp add: begin_answer_def Let_def split: sum.split)
  with assms(1) have r: "(granted, sv') = (if \<not> allowed then (False, sv\<lparr>sv_db := ?d\<rparr>)
      else case res of Inl _ \<Rightarrow> (False, sv\<lparr>sv_db := d\<rparr>) | Inr _ \<Rightarrow> (True, sv\<lparr>sv_db := d\<rparr>))" by simp
  show thesis
  proof (cases "allowed \<and> res = Inr ()")
    case False
    have "d = ?d" if "res = Inl e" for e
      using c that by (auto simp: with_connection_def BeginAnswer_def split: if_splits dest: transaction_error)
    with r False denied [of bs] show thesis by (cases res) (auto split: if_splits)
  next
    case granted': True
    with r have g: "granted" "sv' = sv\<lparr>sv_db := d\<rparr>" by auto
    have b: "BeginAnswer ?t o' rid ?e ?d = (Inr (), d)" using c granted' by (auto simp: with_connection_def split: if_splits)
    from BeginAnswer_reservation [OF b] obtain x where x: "find_answer rid d = Inr x" "ar_State x = ''active''" "ar_OwnerID x = o'" by blast
    have bal: "balanced ?d" using assms(3) by simp
    then have books: "books_ok ?d" "tables_ok ?d" by (simp_all add: balanced_def books_ok_def)
    have "balanced d" using balanced_step [OF bal, of "Beginning o' rid ?e" undefined ?t] b by simp
    moreover have "documents d = documents (sv_db sv)" "document_questions d = document_questions (sv_db sv)"
      using quiet_BeginAnswer [OF b] by (simp_all add: quiet_def)
    moreover have same: "active_count p ?d = active_count p (sv_db sv)" for p by (simp add: active_count_def)
    have "active_count o' d \<le> active_count o' (sv_db sv) + 1" "p \<noteq> o' \<Longrightarrow> active_count p d = active_count p (sv_db sv)" for p
    proof -
      obtain a1 a2 a3 a4 a5 where live: "live_truth ?t o' ?d = (a1, a2, a3, a4, a5)" by (metis prod_cases5)
      from books(1) b have "active_count o' d = a5 + 1 \<and> (p \<noteq> o' \<longrightarrow> truth p d = truth p ?d)" for p
        by (cases rule: BeginAnswer_cases) (auto simp: live dest: active_truth)
      then show "active_count o' d \<le> active_count o' (sv_db sv) + 1" "p \<noteq> o' \<Longrightarrow> active_count p d = active_count p (sv_db sv)" for p
        using live_active_le [OF books(2) live] same by (auto simp: truth_def)
    qed
    ultimately show thesis using granted [of x] g x by simp
  qed
qed

lemma end_answer_effect:
  assumes "end_answer kind inp o' rid sv = sv'" "kind \<noteq> NoQuota" "ai_up inp Ending_Answer" "balanced (sv_db sv)"
    and r: "find_answer rid (sv_db sv) = Inr r" "ar_State r = ''active''" "ar_OwnerID r = o'"
  shows "balanced (sv_db sv')" "active_count p (sv_db sv') = active_count p (sv_db sv) - (if p = o' then 1 else 0)"
    "document_questions (sv_db sv') = document_questions (sv_db sv)" "documents (sv_db sv') = documents (sv_db sv)"
proof -
  let ?t = "ai_clock inp Ending_Answer"
  obtain res d where e: "EndAnswer ?t rid ''released'' (sv_db sv) = (res, d)" by force
  then have d: "sv_db sv' = d" using assms(1-3) by (auto simp: end_answer_def with_connection_def)
  have res: "res = Inr ()" using EndAnswer_succeeds [OF assms(4) r(1,2), of ?t "''released''"] e by simp
  show "balanced (sv_db sv')" using balanced_step [OF assms(4), of "Ending rid ''released''" undefined ?t] e d by simp
  show "document_questions (sv_db sv') = document_questions (sv_db sv)" "documents (sv_db sv') = documents (sv_db sv)"
    using quiet_EndAnswer [OF e] d by (simp_all add: quiet_def)
  have "tables_ok (sv_db sv)" using assms(4) by (simp add: balanced_def books_ok_def)
  from this e have "truth p d = (if p = o' then add_counters (truth p (sv_db sv)) (0, 0, 0, 0, - 1) else truth p (sv_db sv))"
    by (cases rule: EndAnswer_cases) (use res r in auto)
  then show "active_count p (sv_db sv') = active_count p (sv_db sv) - (if p = o' then 1 else 0)"
    by (simp add: d truth_def split: if_splits)
qed

text \<open>The ways a question can go.\<close>

lemma Ask_cases:
  assumes "Ask kind lib inp o' i sv = (response, sv')"
  obtains (early) code message where "response = Ask_Refused code message" "sv' = sv"
  | (denied) message sv1 rid where "response = Ask_Refused 429 message" "begin_answer kind (al_timeout lib) inp o' rid sv = (False, sv1)" "sv' = sv1"
  | (asked) question doc rid sv1 ok sv2 where "ai_question inp = Some question" "FindOwned o' i (sv_db sv) = Inr doc" "doc_Status doc = ''completed''"
      "begin_answer kind (al_timeout lib) inp o' rid sv = (True, sv1)"
      "generate_answer lib inp o' doc question sv1 = (response, ok, sv2)"
      "sv' = end_answer kind inp o' rid (sv2\<lparr>sv_metrics := recordAnswer (ai_answer_latency inp) (\<not> ok) (sv_metrics sv2)\<rparr>)"
proof (cases "\<exists>question doc. ai_question inp = Some question \<and> \<not> (rune_count question = 0 \<or> rune_count question > 4000) \<and>
    ai_up inp Finding_Document \<and> FindOwned o' i (sv_db sv) = Inr doc \<and> doc_Status doc = ''completed''")
  case False
  have "\<exists>code message. response = Ask_Refused code message \<and> sv' = sv"
  proof (cases "ai_question inp")
    case None
    with assms show ?thesis by (auto simp: Ask_def)
  next
    case (Some q)
    show ?thesis
    proof (cases "(if ai_up inp Finding_Document then FindOwned o' i (sv_db sv) else Inl ErrUnavailable)")
      case (Inl e)
      with Some assms show ?thesis by (auto simp: Ask_def split: if_splits)
    next
      case (Inr doc)
      with Some False assms show ?thesis by (auto simp: Ask_def split: if_splits)
    qed
  qed
  with early show thesis by blast
next
  case True
  then obtain question doc where q: "ai_question inp = Some question" "\<not> (rune_count question = 0 \<or> rune_count question > 4000)"
    "ai_up inp Finding_Document" "FindOwned o' i (sv_db sv) = Inr doc" "doc_Status doc = ''completed''" by blast
  define rid where "rid = (case documentID (ai_request_random inp) of None \<Rightarrow> [] | Some r \<Rightarrow> r)"
  obtain granted sv1 where b: "begin_answer kind (al_timeout lib) inp o' rid sv = (granted, sv1)" by force
  obtain resp ok sv2 where g: "generate_answer lib inp o' doc question sv1 = (resp, ok, sv2)" by (metis prod_cases3)
  have "Ask kind lib inp o' i sv = (if granted
      then (resp, end_answer kind inp o' rid (sv2\<lparr>sv_metrics := recordAnswer (ai_answer_latency inp) (\<not> ok) (sv_metrics sv2)\<rparr>))
      else (Ask_Refused 429 ''answer generation quota exceeded'', sv1))"
    using q b g by (simp add: Ask_def rid_def [symmetric])
  with assms b g q denied asked show thesis by (cases granted) auto
qed


lemma begin_end_quiet:
  "begin_answer kind timeout inp o' rid sv = (granted, sv') \<Longrightarrow> quiet (sv_db sv) (sv_db sv')"
  "quiet (sv_db sv) (sv_db (end_answer kind inp o' rid sv))"
proof -
  have 1: "quiet d (snd (with_connection up (BeginAnswer t o' rid e) d))" for up t e d
    using quiet_BeginAnswer [OF prod.collapse [symmetric], where now = t and o' = o' and rid = rid and expiresAt = e and d = d] by (simp add: with_connection_def)
  show "quiet (sv_db sv) (sv_db sv')" if ba: "begin_answer kind timeout inp o' rid sv = (granted, sv')"
  proof (cases "kind = NoQuota \<or> \<not> ai_up inp Rating_Answer")
    case True
    with ba show ?thesis by (auto simp: begin_answer_def split: prod.splits if_splits)
  next
    case False
    obtain allowed bs where rate: "AllowRate ''answer-owner'' o' maxAnswersPerDay (24 * time_Hour) (ai_clock inp Rating_Answer) (rate_limit_buckets (sv_db sv)) = (allowed, bs)"
      by force
    let ?d = "(sv_db sv)\<lparr>rate_limit_buckets := bs\<rparr>"
    obtain res d where c: "with_connection (ai_up inp Beginning_Answer) (BeginAnswer (ai_clock inp Beginning_Answer) o' rid
        (ai_clock inp Expiring_Answer + timeout)) ?d = (res, d)" by force
    have "begin_answer kind timeout inp o' rid sv = (if \<not> allowed then (False, sv\<lparr>sv_db := ?d\<rparr>)
        else case res of Inl _ \<Rightarrow> (False, sv\<lparr>sv_db := d\<rparr>) | Inr _ \<Rightarrow> (True, sv\<lparr>sv_db := d\<rparr>))"
      using False rate [simplified] c by (simp add: begin_answer_def Let_def split: sum.split)
    moreover have "quiet (sv_db sv) d"
      using 1 [of ?d "ai_up inp Beginning_Answer" "ai_clock inp Beginning_Answer" "ai_clock inp Expiring_Answer + timeout"] c by simp
    ultimately show ?thesis using ba by (cases res) (auto split: if_splits)
  qed
  show "quiet (sv_db sv) (sv_db (end_answer kind inp o' rid sv))"
    using quiet_EndAnswer [OF prod.collapse [symmetric], where now = "ai_clock inp Ending_Answer" and rid = rid and state = "''released''" and d = "sv_db sv"]
    by (simp add: end_answer_def with_connection_def)
qed

lemma begin_end_questions:
  "begin_answer kind timeout inp o' rid sv = (granted, sv') \<Longrightarrow> document_questions (sv_db sv') = document_questions (sv_db sv)"
  "document_questions (sv_db (end_answer kind inp o' rid sv)) = document_questions (sv_db sv)"
  using begin_end_quiet(1) [of kind timeout inp o' rid sv granted sv'] begin_end_quiet(2) [of sv kind inp o' rid]
  by (simp_all add: quiet_def)

lemma FindOwned_found: "FindOwned o' i d = Inr doc \<Longrightarrow> doc_ID doc = i \<and> doc_OwnerID doc = o'"
  by (auto simp: FindOwned_def first_or_not_found_def split: option.splits dest: find_SomeD)

text \<open>C13: what the client is told about its answer is true. The stream says that all went well exactly when the
  question has been saved, for this owner and a completed document of theirs, with the answer that the
  streamed tokens make up and the sources that were sent. In every other case, an error, a timeout, a
  client that has gone, a processor that stops half way, nothing is saved.\<close>

theorem answer_told_truthfully:
  assumes "js_done (al_json lib) True \<noteq> js_done (al_json lib) False"
    and "Ask kind lib inp o' i sv = (response, sv')"
  shows "case response of
      Ask_Refused code message \<Rightarrow> document_questions (sv_db sv') = document_questions (sv_db sv)
    | Ask_Stream frames \<Rightarrow>
        (if (''done'', js_done (al_json lib) True) \<in> set frames
         then \<exists>tokens sources q doc. frames = token_frames (al_json lib) tokens @ [(''sources'', js_sources (al_json lib) sources),
                (''history'', js_history (al_json lib) q), (''done'', js_done (al_json lib) True)] \<and>
              document_questions (sv_db sv') = document_questions (sv_db sv) @ [q] \<and>
              FindOwned o' i (sv_db sv) = Inr doc \<and> doc_Status doc = ''completed'' \<and>
              q_OwnerID q = o' \<and> q_DocumentID q = i \<and> ai_question inp = Some (q_Question q) \<and>
              q_Answer q = concat tokens \<and> q_Sources q = js_source_list (al_json lib) sources
         else document_questions (sv_db sv') = document_questions (sv_db sv))"
  using assms(2)
proof (cases rule: Ask_cases)
  case (denied message sv1 rid)
  with begin_end_questions(1) [OF denied(2)] show ?thesis by simp
next
  case (asked question doc rid sv1 ok sv2)
  have 1: "document_questions (sv_db sv1) = document_questions (sv_db sv)" by (rule begin_end_questions(1) [OF asked(4)])
  have 2: "document_questions (sv_db sv') = document_questions (sv_db sv2)" by (simp add: asked(6) begin_end_questions(2))
  have tokens: "(''done'', x) \<notin> set (token_frames (al_json lib) ts)" for x ts by (auto simp: token_frames_def)
  from asked(5) show ?thesis
  proof (cases rule: generate_answer_cases)
    case refused
    with 1 2 show ?thesis by simp
  next
    case (not_saved ts fr)
    with 1 2 assms(1) tokens show ?thesis by simp
  next
    case (saved ts sources q)
    with 1 2 asked(1-3) FindOwned_found [OF asked(2)] show ?thesis by auto
  qed
qed simp

section \<open>The stream on the wire\<close>

text \<open>How a client takes the body apart: the lines of an event, its name, its data and an empty one.\<close>

fun event_blocks :: "string list \<Rightarrow> frame list" where
  "event_blocks (e # p # b # rest) = (drop 7 e, drop 6 p) # event_blocks rest"
| "event_blocks _ = []"

definition client_events :: "string \<Rightarrow> frame list" where
  "client_events body = event_blocks (Split newline body)"

text \<open>What \<^verbatim>\<open>json.Marshal\<close> returns never has a newline: those in strings are escaped.\<close>

definition one_line :: "json \<Rightarrow> bool" where
  "one_line js \<longleftrightarrow> (\<forall>t. newline \<notin> set (js_token js t)) \<and> (\<forall>sources. newline \<notin> set (js_sources js sources)) \<and>
     (\<forall>q. newline \<notin> set (js_history js q)) \<and> (\<forall>code message. newline \<notin> set (js_error js code message)) \<and>
     (\<forall>ok. newline \<notin> set (js_done js ok))"

lemma foldl_writeSSE: "foldl writeSSE body frames = body @ concat (map (writeSSE []) frames)"
  by (induction frames arbitrary: body) (auto simp: writeSSE_def split: prod.splits)

lemma events_of_body:
  assumes "\<forall>f \<in> set frames. newline \<notin> set (fst f) \<and> newline \<notin> set (snd f)"
  shows "client_events (stream_body frames) = frames"
proof -
  have "event_blocks (Split newline (concat (map (writeSSE []) frames))) = frames"
    using assms
  proof (induction frames)
    case (Cons f frames)
    obtain e p where f: "f = (e, p)" by force
    have nl: "newline \<notin> set (''event: '' @ e)" "newline \<notin> set (''data: '' @ p)"
      using Cons.prems f by (auto simp: newline_def)
    have "concat (map (writeSSE []) (f # frames)) =
        (''event: '' @ e) @ newline # ((''data: '' @ p) @ newline # ([] @ newline # concat (map (writeSSE []) frames)))"
      by (simp add: f writeSSE_def)
    then have "Split newline (concat (map (writeSSE []) (f # frames))) =
        (''event: '' @ e) # (''data: '' @ p) # [] # Split newline (concat (map (writeSSE []) frames))"
      by (simp only: Split_append Split_none [OF nl(1)] Split_none [OF nl(2)] Split.simps) simp
    with Cons f show ?case by simp
  qed simp
  then show ?thesis by (simp add: client_events_def stream_body_def foldl_writeSSE)
qed

text \<open>C35: the events arrive as they were sent. A client that splits the body of an answer at its newlines
  gets exactly the events the handler wrote, in order; no text of the model or of a document can break one
  up or forge another.\<close>

theorem events_round_trip:
  assumes "one_line (al_json lib)" and "Ask kind lib inp o' i sv = (Ask_Stream frames, sv')"
  shows "client_events (stream_body frames) = frames"
proof -
  have known: "newline \<notin> set (fst f) \<and> newline \<notin> set (snd f)" if "known_frame (al_json lib) f" for f
    using that assms(1) by (auto simp: known_frame_def one_line_def newline_def)
  from assms(2) have "\<forall>f \<in> set frames. known_frame (al_json lib) f"
  proof (cases rule: Ask_cases)
    case (asked question doc rid sv1 ok sv2)
    from asked(5) show ?thesis by (cases rule: generate_answer_cases) auto
  qed simp_all
  with known show ?thesis by (intro events_of_body) blast
qed

section \<open>A question that is answered\<close>

definition sample_json :: json where
  "sample_json = \<lparr>js_token = (\<lambda>t. ''t''), js_sources = (\<lambda>_. ''s''), js_source_list = (\<lambda>_. ''[]''), js_history = (\<lambda>_. ''h''),
     js_error = (\<lambda>_ _. ''e''), js_done = (\<lambda>ok. if ok then ''1'' else ''0'')\<rparr>"

definition sample_library :: "(nat, int) ask_library" where
  "sample_library = \<lparr>al_json = sample_json, al_fmt_g = (\<lambda>_. ''0''), al_distance = (\<lambda>_ _. 0), al_accepts_question = (\<lambda>_. True),
     al_timeout = 300, al_retrieval_limit = 5\<rparr>"

definition sample_ask :: "nat ask_inputs" where
  "sample_ask = \<lparr>ai_question = Some ''why'', ai_up = (\<lambda>_. True), ai_clock = (\<lambda>_. 30), ai_request_random = Some (replicate 16 1),
     ai_history_random = Some (replicate 16 2), ai_client = True,
     ai_embedding = (\<lambda>_. Some (768, replicate 768 0)),
     ai_answer = (\<lambda>_ _. Some ([\<lparr>ae_Text = ''so'', ae_Done = False\<rparr>, \<lparr>ae_Text = [], ae_Done = True\<rparr>], EOF, Live)),
     ai_retrieval_latency = 1, ai_answer_latency = 2\<rparr>"

lemma sample_ids:
  "documentID (ai_request_random sample_ask) = Some ''01010101-0101-4101-8101-010101010101''"
  "documentID (ai_history_random sample_ask) = Some ''02020202-0202-4202-8202-020202020202''"
  by code_simp+

definition sample_completed :: document where
  "sample_completed = completed 20 ''text'' 1 (stored_document ''o'' (sample_document ''a'' 10))"

definition sample_ask_server :: "bucket server" where
  "sample_ask_server = \<lparr>sv_db = empty_db\<lparr>documents := [sample_completed]\<rparr>, sv_files = no_files,
     sv_admission = newAdmissionController, sv_metrics = newMetrics\<rparr>"

lemma sample_found: "FindOwned ''o'' ''a'' (sv_db sample_ask_server) = Inr sample_completed"
  by (simp add: sample_ask_server_def FindOwned_def sample_completed_def completed_def stored_document_def sample_document_def
      first_or_not_found_def)

lemma sample_generate:
  assumes "document_chunks (sv_db sv) = []" "documents (sv_db sv) = [sample_completed]" "document_questions (sv_db sv) = []"
  shows "fst (generate_answer sample_library sample_ask ''o'' sample_completed ''why'' sv) =
     Ask_Stream [(''token'', ''t''), (''sources'', ''s''), (''history'', ''h''), (''done'', ''1'')]"
proof -
  have doc: "doc_ID sample_completed = ''a''"
    by (simp add: sample_completed_def completed_def stored_document_def sample_document_def)
  have search: "SearchChunksOwned f o' i v n (sv_db sv) = []" for f :: "string \<Rightarrow> string \<Rightarrow> int" and o' i v n
    using assms(1) by (simp add: SearchChunksOwned_def owned_chunks_def)
  have create: "with_connection True (CreateQuestion (\<lambda>_. True) q) (sv_db sv) = (Inr (), (sv_db sv)\<lparr>document_questions := [q]\<rparr>)"
    if "q_DocumentID q = ''a''" for q
    using assms(2,3) that by (simp add: with_connection_def CreateQuestion_def insert_question_def doc)
  have id: "documentID (Some (replicate 16 2)) = Some ''02020202-0202-4202-8202-020202020202''"
    using sample_ids(2) by (simp add: sample_ask_def)
  show ?thesis
    by (simp add: generate_answer_def save_answer_def sample_ask_def sample_library_def search create doc id sample_json_def
        writeSSEDone_def maxEmbeddingDimensions_def Let_def)
qed

lemma sample_ask_streams:
  "fst (Ask NoQuota sample_library sample_ask ''o'' ''a'' sample_ask_server) =
     Ask_Stream [(''token'', ''t''), (''sources'', ''s''), (''history'', ''h''), (''done'', ''1'')]"
proof -
  have doc: "doc_Status sample_completed = ''completed''"
    by (simp add: sample_completed_def completed_def)
  obtain a where started: "beginAnswer 30 newAdmissionController ''o'' = (True, a)"
    by (simp add: beginAnswer_def owner_def newAdmissionController_def empty_usage_def maxActiveAnswers_def maxAnswersPerDay_def)
  have runes: "rune_count ''why'' = 3" by code_simp
  have inp: "ai_question sample_ask = Some ''why''" "ai_up sample_ask p" "ai_clock sample_ask p = 30" for p
    by (simp_all add: sample_ask_def)
  let ?sv = "sample_ask_server\<lparr>sv_admission := a\<rparr>"
  have sv: "document_chunks (sv_db ?sv) = []" "documents (sv_db ?sv) = [sample_completed]" "document_questions (sv_db ?sv) = []"
    by (simp_all add: sample_ask_server_def)
  have ba: "begin_answer NoQuota t sample_ask ''o'' rid sample_ask_server = (True, ?sv)" for t rid
    using started by (simp add: begin_answer_def inp sample_ask_server_def)
  obtain r ok sv2 where gen: "generate_answer sample_library sample_ask ''o'' sample_completed ''why'' ?sv = (r, ok, sv2)"
    by (metis prod_cases3)
  with sample_generate [OF sv] show ?thesis
    using sample_found doc by (simp add: Ask_def inp runes ba Let_def)
qed

lemma sample_one_line: "one_line sample_json"
  by (simp add: one_line_def sample_json_def newline_def)

lemma answer_told_truthfully_witness:
  "\<exists>(q :: documentQuestion) sv'. snd (Ask NoQuota sample_library sample_ask ''o'' ''a'' sample_ask_server) = sv' \<and>
     document_questions (sv_db sv') = [q] \<and> q_Question q = ''why''"
proof -
  obtain sv' where ask: "Ask NoQuota sample_library sample_ask ''o'' ''a'' sample_ask_server =
      (Ask_Stream [(''token'', ''t''), (''sources'', ''s''), (''history'', ''h''), (''done'', ''1'')], sv')"
    using sample_ask_streams by (metis prod.collapse)
  have "js_done (al_json sample_library) True \<noteq> js_done (al_json sample_library) False"
    by (simp add: sample_library_def sample_json_def)
  from answer_told_truthfully [OF this ask] ask show ?thesis
    by (auto simp: sample_library_def sample_json_def sample_ask_def sample_ask_server_def)
qed

lemma events_round_trip_witness:
  "client_events (stream_body [(''token'', ''t''), (''sources'', ''s''), (''history'', ''h''), (''done'', ''1'')]) =
     [(''token'', ''t''), (''sources'', ''s''), (''history'', ''h''), (''done'', ''1'')]"
proof -
  obtain sv' where ask: "Ask NoQuota sample_library sample_ask ''o'' ''a'' sample_ask_server =
      (Ask_Stream [(''token'', ''t''), (''sources'', ''s''), (''history'', ''h''), (''done'', ''1'')], sv')"
    using sample_ask_streams by (metis prod.collapse)
  have "one_line (al_json sample_library)" using sample_one_line by (simp add: sample_library_def)
  from events_round_trip [OF this ask] show ?thesis .
qed


end
