(* ===== verification/Tenancy.thy ===== *)
theory Tenancy
  imports Handler_Effects Ask
begin

text \<open>
  What belongs to whom: documents, their chunks and the answered questions, account by account. Every
  operation the handlers of \<^verbatim>\<open>api/documents.go\<close> perform for an account leaves the part of every other
  account exactly as it was; its handlers do too, for any kind of store and however their calls fail.
\<close>

section \<open>Accounts\<close>

definition account_part :: "string \<Rightarrow> db \<Rightarrow> document list \<times> documentChunk list \<times> documentQuestion list" where
  "account_part v d = (let p = own_part v d in (documents p, document_chunks p, document_questions p))"

text \<open>A question belongs to the owner of its document.\<close>

definition tenancy :: "db \<Rightarrow> bool" where
  "tenancy d \<longleftrightarrow> keys_ok d \<and>
     (\<forall>q \<in> set (document_questions d). \<exists>r \<in> set (documents d). doc_ID r = q_DocumentID q \<and> doc_OwnerID r = q_OwnerID q)"

text \<open>A change on behalf of the account \<open>u\<close>.\<close>

definition confined :: "string \<Rightarrow> db \<Rightarrow> db \<Rightarrow> bool" where
  "confined u d d' \<longleftrightarrow> tenancy d' \<and> (\<forall>v. v \<noteq> u \<longrightarrow> account_part v d' = account_part v d)"

definition same_content :: "db \<Rightarrow> db \<Rightarrow> bool" where
  "same_content d d' \<longleftrightarrow> documents d' = documents d \<and> document_chunks d' = document_chunks d \<and> document_questions d' = document_questions d"

lemma confined_trans: "confined u d d' \<Longrightarrow> confined u d' d'' \<Longrightarrow> confined u d d''"
  by (simp add: confined_def)

lemma confined_refl: "tenancy d \<Longrightarrow> confined u d d"
  by (simp add: confined_def)

lemma confined_tenancy: "confined u d d' \<Longrightarrow> tenancy d'"
  by (simp add: confined_def)

lemma same_content_confined: "tenancy d \<Longrightarrow> same_content d d' \<Longrightarrow> confined u d d'"
  by (simp add: confined_def same_content_def tenancy_def account_part_def own_part_def keys_ok_def Let_def)

lemma same_content_refl [simp]: "same_content d d"
  by (simp add: same_content_def)

lemma same_content_trans [trans]: "same_content d d' \<Longrightarrow> same_content d' d'' \<Longrightarrow> same_content d d''"
  by (simp add: same_content_def)

lemma same_content_frame [simp]:
  "same_content d (d'\<lparr>rate_limit_buckets := bs\<rparr>) = same_content d d'"
  "same_content d (d'\<lparr>upload_reservations := rs\<rparr>) = same_content d d'"
  "same_content d (set_reservation rid f d') = same_content d d'"
  by (simp_all add: same_content_def set_reservation_def)

lemma quiet_same_content: "quiet d d' \<Longrightarrow> same_content d d'"
  by (simp add: quiet_def same_content_def)

text \<open>What has to be checked of a change.\<close>

lemma confinedI:
  assumes "tenancy d'" and "\<And>v. v \<noteq> u \<Longrightarrow> filter (\<lambda>r. doc_OwnerID r = v) (documents d') = filter (\<lambda>r. doc_OwnerID r = v) (documents d)"
    and "\<And>v. v \<noteq> u \<Longrightarrow> filter (\<lambda>c. ch_DocumentID c \<in> doc_ID ` {r \<in> set (documents d). doc_OwnerID r = v}) (document_chunks d') =
      filter (\<lambda>c. ch_DocumentID c \<in> doc_ID ` {r \<in> set (documents d). doc_OwnerID r = v}) (document_chunks d)"
    and "\<And>v. v \<noteq> u \<Longrightarrow> filter (\<lambda>q. q_OwnerID q = v) (document_questions d') = filter (\<lambda>q. q_OwnerID q = v) (document_questions d)"
  shows "confined u d d'"
proof -
  have "{r \<in> set (documents d'). doc_OwnerID r = v} = {r \<in> set (documents d). doc_OwnerID r = v}" if "v \<noteq> u" for v
    using arg_cong [OF assms(2) [OF that], of set] by simp
  with assms show ?thesis by (simp add: confined_def account_part_def own_part_def Let_def)
qed

section \<open>Operations of the store\<close>

lemma same_content_transaction:
  assumes "transaction f d = (res, d')" and "\<And>x. f d = Inr (x, d') \<Longrightarrow> same_content d d'"
  shows "same_content d d'"
  using assms by (cases res) (auto simp: transaction_ok dest: transaction_error)

lemma same_content_usage: "update_usage o' f d = Inr d' \<Longrightarrow> same_content d d'"
  by (rule quiet_same_content [OF quiet_update_usage])

lemma same_content_lock [simp]:
  "same_content (lockOwnerUsage now o' d) d' = same_content d d'" "same_content d (lockOwnerUsage now o' d') = same_content d d'"
  by (simp_all add: same_content_def)

lemma ReserveUpload_content:
  assumes "ReserveUpload now o' rid did sz expiresAt d = (res, d')"
  shows "same_content d d'"
proof (rule same_content_transaction [OF assms [unfolded ReserveUpload_def]])
  fix x
  assume "(let d = lockOwnerUsage now o' d
     in and_then (recoverExpiredReservations (Some o') now d) (\<lambda>d.
          let usage = scan_usage o' d
          in if wrap64 (wrap64 (us_CommittedBytes usage + us_ReservedBytes usage) + sz) > maxOwnerStorage
                \<or> wrap64 (wrap64 (us_CommittedDocuments usage + us_ReservedDocuments usage) + 1) > maxOwnerDocuments
             then Inl ErrQuotaExceeded
             else and_then (update_usage o' (\<lambda>u. u\<lparr>us_ReservedBytes := us_ReservedBytes u + sz,
                    us_ReservedDocuments := us_ReservedDocuments u + 1, us_UpdatedAt := now\<rparr>) d) (\<lambda>d.
               and_then (insert_reservation \<lparr>ur_ID = rid, ur_OwnerID = o', ur_DocumentID = did,
                    ur_Bytes = sz, ur_State = ''reserved'', ur_ExpiresAt = expiresAt, ur_CreatedAt = now,
                    ur_CommittedAt = None, ur_ReleasedAt = None\<rparr> d) (\<lambda>d. Inr ((), d))))) = Inr (x, d')"
  then obtain d1 f d2 r where "recoverExpiredReservations (Some o') now (lockOwnerUsage now o' d) = Inr d1"
    "update_usage o' f d1 = Inr d2" "insert_reservation r d2 = Inr d'"
    by (auto simp: Let_def and_then_Inr split: if_splits)
  moreover from this(3) have "same_content d2 d'" by (auto simp: insert_reservation_def split: if_splits)
  ultimately show "same_content d d'"
    by (metis quiet_same_content quiet_open same_content_usage same_content_trans)
qed

lemma CommitUpload_content: "CommitUpload now rid d = (res, d') \<Longrightarrow> same_content d d'"
  unfolding CommitUpload_def
  by (erule same_content_transaction)
    (auto simp: and_then_Inr Let_def dest!: same_content_usage split: if_splits)

lemmas same_content_calls =
  ReserveUpload_content CommitUpload_content quiet_same_content [OF quiet_ReleaseUpload]
  quiet_same_content [OF quiet_BeginAnswer] quiet_same_content [OF quiet_EndAnswer]

text \<open>A new document of the account.\<close>

lemma insert_document_confined:
  assumes "tenancy d" "insert_document accepts (doc\<lparr>doc_OwnerID := u\<rparr>) d = Inr d'"
  shows "confined u d d'"
proof -
  from assms(2) obtain r where d': "d' = d\<lparr>documents := documents d @ [r]\<rparr>" "doc_OwnerID r = u"
    by (auto simp: insert_document_def split: if_splits)
  have "keys_ok d'" using keys_ok_insert_document [OF _ assms(2)] assms(1) by (simp add: tenancy_def)
  with assms(1) d' have "tenancy d'" by (auto simp: tenancy_def)
  then show ?thesis by (rule confinedI) (simp_all add: d')
qed

lemma CreateOwned_confined:
  assumes "tenancy d" "CreateOwned accepts u doc d = (res, d')"
  shows "confined u d d'"
  using assms insert_document_confined [OF assms(1)] confined_refl [OF assms(1)]
  by (auto simp: CreateOwned_def Create_def split: sum.splits)

lemma tenancy_same: "tenancy d \<Longrightarrow> same_content d d' \<Longrightarrow> tenancy d'"
  using same_content_confined confined_tenancy by blast

lemma CreateOwnedAndCommitUpload_confined:
  assumes "tenancy d" "CreateOwnedAndCommitUpload accepts now u doc rid d = (res, d')"
  shows "confined u d d'"
proof (cases res)
  case (Inl e)
  with assms show ?thesis by (auto simp: CreateOwnedAndCommitUpload_def dest!: transaction_error intro: confined_refl)
next
  case (Inr x)
  with assms(2) obtain d1 f d2 g where
    "insert_document accepts (doc\<lparr>doc_OwnerID := u\<rparr>) (lockOwnerUsage now u d) = Inr d1" "update_usage u f d1 = Inr d2"
    "d' = set_reservation rid g d2"
    by (auto simp: CreateOwnedAndCommitUpload_def transaction_ok and_then_Inr Let_def split: if_splits)
  moreover have "confined u d (lockOwnerUsage now u d)" using assms(1) by (simp add: same_content_confined)
  ultimately show ?thesis
    using insert_document_confined same_content_confined same_content_usage confined_tenancy confined_trans
    by (metis same_content_frame(3) same_content_refl)
qed

text \<open>A document of the account goes, with its chunks and questions.\<close>

lemma delete_confined:
  assumes t: "tenancy d" and doc: "doc \<in> set (documents d)" "doc_ID doc = i" "doc_OwnerID doc = u"
    and d': "d' = delete_documents (\<lambda>r. doc_ID r = i)
       (d\<lparr>document_chunks := delete_where (\<lambda>c. ch_DocumentID c = i) (document_chunks d),
          document_questions := delete_where (\<lambda>q. q_DocumentID q = i \<and> q_OwnerID q = u) (document_questions d)\<rparr>)"
  shows "confined u d d'"
proof -
  from t have keys: "keys_ok d" by (simp add: tenancy_def)
  have only: "r = doc" if "r \<in> set (documents d)" "doc_ID r = i" for r
    using same_key_same_row [OF keys_ok_docs [OF keys] that(1) doc(1)] that(2) doc(2) by simp
  have q: "q_OwnerID q = u" if "q \<in> set (document_questions d)" "q_DocumentID q = i" for q
  proof -
    from t that(1) obtain r where "r \<in> set (documents d)" "doc_ID r = q_DocumentID q" "doc_OwnerID r = q_OwnerID q"
      unfolding tenancy_def by blast
    with that(2) only doc(3) show ?thesis by metis
  qed
  have parts: "documents d' = delete_where (\<lambda>r. doc_ID r = i) (documents d)"
    "document_chunks d' = delete_where (\<lambda>c. ch_DocumentID c = i) (document_chunks d)"
    "document_questions d' = delete_where (\<lambda>q. q_DocumentID q = i) (document_questions d)"
    using doc(1,2) q by (auto simp: d' delete_documents_def delete_where_def Let_def intro!: filter_cong)
  have "keys_ok d'" unfolding d'
    by (intro keys_ok_delete_documents) (use keys_ok_delete_questions [OF keys_ok_delete_chunks [OF keys]] in simp)
  moreover have "\<exists>r \<in> set (documents d'). doc_ID r = q_DocumentID q \<and> doc_OwnerID r = q_OwnerID q"
    if "q \<in> set (document_questions d')" for q
    using t that unfolding tenancy_def parts delete_where_def by fastforce
  ultimately have "tenancy d'" by (simp add: tenancy_def)
  then show ?thesis
  proof (rule confinedI)
    fix v assume v: "v \<noteq> u"
    show "filter (\<lambda>r. doc_OwnerID r = v) (documents d') = filter (\<lambda>r. doc_OwnerID r = v) (documents d)"
      using only doc(3) v by (auto simp: parts delete_where_def intro!: filter_cong)
    show "filter (\<lambda>c. ch_DocumentID c \<in> doc_ID ` {r \<in> set (documents d). doc_OwnerID r = v}) (document_chunks d') =
      filter (\<lambda>c. ch_DocumentID c \<in> doc_ID ` {r \<in> set (documents d). doc_OwnerID r = v}) (document_chunks d)"
      using only doc(3) v by (auto simp: parts delete_where_def intro!: filter_cong)
    show "filter (\<lambda>q. q_OwnerID q = v) (document_questions d') = filter (\<lambda>q. q_OwnerID q = v) (document_questions d)"
      using q v by (auto simp: parts delete_where_def intro!: filter_cong)
  qed
qed

lemma found_owned: "FindOwned u i d = Inr doc \<Longrightarrow> doc \<in> set (documents d) \<and> doc_ID doc = i \<and> doc_OwnerID doc = u"
  by (auto simp: FindOwned_def first_or_not_found_def dest: find_SomeD split: option.splits)

lemma DeleteOwned_confined:
  assumes "tenancy d" "DeleteOwned u i d = (res, d')"
  shows "confined u d d'"
proof (cases res)
  case (Inl e)
  with assms show ?thesis by (auto simp: DeleteOwned_def dest!: transaction_error intro: confined_refl)
next
  case (Inr x)
  with assms(2) obtain doc where "FindOwned u i d = Inr doc" and d': "d' = delete_documents (\<lambda>r. doc_ID r = doc_ID doc)
      (d\<lparr>document_chunks := delete_where (\<lambda>c. ch_DocumentID c = i) (document_chunks d),
         document_questions := delete_where (\<lambda>q. q_DocumentID q = i \<and> q_OwnerID q = u) (document_questions d)\<rparr>)"
    by (auto simp: DeleteOwned_def transaction_ok and_then_Inr Let_def)
  with found_owned have "doc \<in> set (documents d)" "doc_ID doc = i" "doc_OwnerID doc = u" by blast+
  with delete_confined [OF assms(1) this] d' show ?thesis by simp
qed

lemma DeleteOwnedWithUsage_confined:
  assumes "tenancy d" "DeleteOwnedWithUsage now u i d = (res, d')"
  shows "confined u d d'"
proof (cases res)
  case (Inl e)
  with assms show ?thesis by (auto simp: DeleteOwnedWithUsage_def dest!: transaction_error intro: confined_refl)
next
  case (Inr x)
  with assms(2) obtain doc d1 f where "FindOwned u i d = Inr doc" and d1: "d1 = delete_documents (\<lambda>r. doc_ID r = doc_ID doc)
      (d\<lparr>document_chunks := delete_where (\<lambda>c. ch_DocumentID c = i) (document_chunks d),
         document_questions := delete_where (\<lambda>q. q_DocumentID q = i \<and> q_OwnerID q = u) (document_questions d)\<rparr>)"
    and d': "update_usage u f d1 = Inr d'"
    by (auto simp: DeleteOwnedWithUsage_def delete_locked_def transaction_ok and_then_Inr Let_def)
  with found_owned have "doc \<in> set (documents d)" "doc_ID doc = i" "doc_OwnerID doc = u" by blast+
  with delete_confined [OF assms(1) this] d1 have "confined u d d1" by simp
  then show ?thesis using same_content_confined [OF confined_tenancy same_content_usage [OF d']] confined_trans by blast
qed

lemma filter_update_where:
  "(\<And>r. P r \<Longrightarrow> \<not> Q r) \<Longrightarrow> (\<And>r. P r \<Longrightarrow> \<not> Q (f r)) \<Longrightarrow> filter Q (update_where P f xs) = filter Q xs"
  by (induction xs) auto

lemma RetryOwned_confined:
  assumes t: "tenancy d" and call: "RetryOwned now u i d = (res, d')"
  shows "confined u d d'"
proof (cases res)
  case (Inl e)
  with assms show ?thesis by (auto simp: RetryOwned_def dest!: transaction_error intro: confined_refl)
next
  case (Inr x)
  let ?P = "\<lambda>r. doc_ID r = i \<and> doc_OwnerID r = u \<and> doc_Status r = ''failed'' \<and> doc_FailureKind r \<noteq> ''permanent''"
  let ?f = "\<lambda>r. r\<lparr>doc_Status := ''queued'', doc_ErrorMessage := None, doc_FailureKind := ''retryable'',
    doc_NextAttemptAt := None, doc_LeaseToken := None, doc_LeaseExpiresAt := None, doc_AttemptCount := 0, doc_UpdatedAt := now\<rparr>"
  from call Inr have d': "d' = d\<lparr>documents := update_where ?P ?f (documents d)\<rparr>"
    by (auto simp: RetryOwned_def transaction_ok and_then_Inr split: if_splits)
  have keys: "keys_ok d'" unfolding d' by (rule keys_ok_update_documents) (use t in \<open>simp_all add: tenancy_def\<close>)
  have "(\<lambda>r. (doc_ID r, doc_OwnerID r)) ` set (update_where ?P ?f rs) = (\<lambda>r. (doc_ID r, doc_OwnerID r)) ` set rs" for rs
    by (induction rs) auto
  then have same: "(\<lambda>r. (doc_ID r, doc_OwnerID r)) ` set (documents d') = (\<lambda>r. (doc_ID r, doc_OwnerID r)) ` set (documents d)"
    by (simp add: d')
  have "\<exists>r \<in> set (documents d'). doc_ID r = q_DocumentID q \<and> doc_OwnerID r = q_OwnerID q"
    if "q \<in> set (document_questions d')" for q
  proof -
    from that have "q \<in> set (document_questions d)" by (simp add: d')
    with t have "(q_DocumentID q, q_OwnerID q) \<in> (\<lambda>r. (doc_ID r, doc_OwnerID r)) ` set (documents d)"
      unfolding tenancy_def image_iff by metis
    then have "(q_DocumentID q, q_OwnerID q) \<in> (\<lambda>r. (doc_ID r, doc_OwnerID r)) ` set (documents d')" by (simp only: same)
    then show ?thesis by auto
  qed
  with keys have "tenancy d'" by (simp add: tenancy_def)
  moreover have "filter (\<lambda>r. doc_OwnerID r = v) (update_where ?P ?f (documents d)) = filter (\<lambda>r. doc_OwnerID r = v) (documents d)"
    if "v \<noteq> u" for v
    by (rule filter_update_where) (use that in auto)
  ultimately show ?thesis by (intro confinedI) (simp_all add: d')
qed

lemma question_confined:
  assumes "tenancy d" "doc \<in> set (documents d)" "doc_OwnerID doc = u" "doc_ID doc = q_DocumentID q" "q_OwnerID q = u"
    and "keys_ok (d\<lparr>document_questions := document_questions d @ [q]\<rparr>)"
  shows "confined u d (d\<lparr>document_questions := document_questions d @ [q]\<rparr>)"
proof (rule confinedI)
  show "tenancy (d\<lparr>document_questions := document_questions d @ [q]\<rparr>)"
    using assms by (auto simp: tenancy_def)
qed (use assms(5) in simp_all)

section \<open>Handlers\<close>

lemma call_confined:
  assumes "call cx p f sv = (res, sv')" "tenancy (sv_db sv)"
    and "\<And>d r d'. tenancy d \<Longrightarrow> f d = (r, d') \<Longrightarrow> confined u d d'"
  shows "confined u (sv_db sv) (sv_db sv')"
  using assms confined_refl [OF assms(2)] by (auto simp: call_def with_connection_def split: if_splits prod.splits)

lemma admit_upload_content:
  assumes "admit_upload kind cx u i sz sv = (r, sv')"
  shows "same_content (sv_db sv) (sv_db sv')"
proof (cases "kind = NoQuota \<or> \<not> cx_up cx Rating")
  case True
  with assms show ?thesis by (auto simp: admit_upload_def split: prod.splits if_splits)
next
  case False
  obtain allowed bs where rate: "AllowRate ''upload-owner'' u maxUploadsPerHour time_Hour (cx_clock cx Rating) (rate_limit_buckets (sv_db sv)) = (allowed, bs)"
    by force
  let ?sv = "sv\<lparr>sv_db := (sv_db sv)\<lparr>rate_limit_buckets := bs\<rparr>\<rparr>"
  let ?f = "ReserveUpload (cx_clock cx Reserving_Now) u i i sz (cx_clock cx Reserving_Until + 30 * time_Minute)"
  obtain res sv1 where c: "call cx Reserving_Now ?f ?sv = (res, sv1)" by force
  then have "same_content (sv_db ?sv) (sv_db sv1)"
    using ReserveUpload_content by (auto simp: call_def with_connection_def split: if_splits prod.splits)
  then have "same_content (sv_db sv) (sv_db sv1)" by (simp add: same_content_def)
  moreover have "admit_upload kind cx u i sz sv = (if \<not> allowed then (Inr False, ?sv)
      else case res of Inl _ \<Rightarrow> (Inr False, sv1) | Inr _ \<Rightarrow> (Inr True, sv1))"
    using False by (simp add: admit_upload_def rate c [simplified] Let_def split: sum.split)
  with assms have "sv' = ?sv \<or> sv' = sv1" by (auto split: if_splits sum.splits)
  ultimately show ?thesis by (elim disjE) simp_all
qed

lemma remove_stored_db [simp]: "sv_db (snd (remove_stored st cx key sv)) = sv_db sv"
  by (simp add: remove_stored_def split: prod.split)

lemma store_upload_confined:
  assumes t: "tenancy (sv_db sv)" and call: "store_upload kind accepts st cx u i filename content sv = (r, sv')"
  shows "confined u (sv_db sv) (sv_db sv')"
proof -
  obtain e fs where put: "put_pdf st (cx_put cx) (cx_put_time cx) (storedPath i) content (sv_files sv) = (e, fs)" by force
  let ?sv = "sv\<lparr>sv_files := fs\<rparr>" and ?doc = "upload_document i filename (int (length content)) (cx_clock cx Creating)"
  have t0: "tenancy (sv_db ?sv)" using t by simp
  show ?thesis
  proof (cases "e \<noteq> None")
    case True
    with put call have "sv_db sv' = sv_db sv" by (auto simp: store_upload_def)
    with t show ?thesis by (simp add: confined_refl)
  next
    case no_error: False
    show ?thesis
    proof (cases "kind = AtomicQuota")
      case True
      obtain res sv1 where c: "call cx Committing_Now (CreateOwnedAndCommitUpload accepts (cx_clock cx Committing_Now) u ?doc i) ?sv = (res, sv1)"
        by force
      from call_confined [OF c t0 CreateOwnedAndCommitUpload_confined] have "confined u (sv_db sv) (sv_db sv1)" by simp
      moreover have "sv_db sv' = sv_db sv1"
        using call True no_error put c by (cases res) (auto simp: store_upload_def Let_def split: if_splits)
      ultimately show ?thesis by simp
    next
      case False
      obtain res sv1 where c: "call cx Creating (CreateOwned accepts u ?doc) ?sv = (res, sv1)" by force
      from call_confined [OF c t0 CreateOwned_confined] have 1: "confined u (sv_db sv) (sv_db sv1)" by simp
      note t1 = confined_tenancy [OF 1]
      obtain res2 sv2 where c2: "call cx Committing_Now (CommitUpload (cx_clock cx Committing_Now) i) sv1 = (res2, sv2)" by force
      from call_confined [OF c2 t1 same_content_confined [OF _ CommitUpload_content]] have 2: "confined u (sv_db sv1) (sv_db sv2)" by simp
      obtain res3 sv3 where c3: "call cx Undoing (DeleteOwned u i) sv2 = (res3, sv3)" by force
      from call_confined [OF c3 confined_tenancy [OF 2] DeleteOwned_confined] have 3: "confined u (sv_db sv2) (sv_db sv3)" by simp
      have "sv_db sv' = sv_db sv1 \<or> sv_db sv' = sv_db sv2 \<or> sv_db sv' = sv_db sv3"
        using call False no_error put c c2 c3
        by (cases res; cases res2) (auto simp: store_upload_def Let_def split: if_splits)
      with 1 2 3 confined_trans show ?thesis by metis
    qed
  qed
qed

lemma release_upload_content: "same_content (sv_db sv) (sv_db (release_upload kind cx u i sz sv))"
  using quiet_ReleaseUpload [of "cx_clock cx Releasing_Now" i "sv_db sv"] quiet_same_content
  by (fastforce simp: release_upload_def call_def with_connection_def split: prod.split)

lemma Upload_confined:
  assumes t: "tenancy (sv_db sv)" and call: "Upload kind accepts st cx u request sv = (a, sv')"
  shows "confined u (sv_db sv) (sv_db sv')"
  using call
proof (cases rule: Upload_cases)
  case early
  with t confined_refl show ?thesis by simp
next
  case (denied i filename content r sv1 code message)
  with same_content_confined [OF t admit_upload_content] show ?thesis by metis
next
  case (failed i filename content sv1 message sv2)
  note 1 = same_content_confined [OF t admit_upload_content [OF failed(4)]]
  note 2 = store_upload_confined [OF confined_tenancy [OF 1] failed(5)]
  note 3 = same_content_confined [OF confined_tenancy [OF 2] release_upload_content]
  from confined_trans [OF 1 confined_trans [OF 2 3]] failed(7) show ?thesis by simp
next
  case (done_ i filename content sv1 sv2)
  note 1 = same_content_confined [OF t admit_upload_content [OF done_(5)]]
  note 2 = store_upload_confined [OF confined_tenancy [OF 1] done_(6)]
  from confined_trans [OF 1 2] done_(8) show ?thesis by simp
qed

lemma Delete_handler_confined:
  assumes t: "tenancy (sv_db sv)" and call: "Delete_handler kind st up up' now f u i sv = (a, sv')"
  shows "confined u (sv_db sv) (sv_db sv')"
proof (cases "kind = NoQuota")
  case False
  from call False show ?thesis
  proof (cases rule: Delete_handler_cases)
    case (deleted r d e fs)
    with DeleteOwnedWithUsage_confined [OF t deleted(1)] show ?thesis by simp
  qed (use t confined_refl in simp_all)
next
  case True
  obtain res d where c: "with_connection up' (DeleteOwned u i) (sv_db sv) = (res, d)" by force
  then have "confined u (sv_db sv) d"
    using DeleteOwned_confined [OF t] confined_refl [OF t] by (auto simp: with_connection_def split: if_splits)
  moreover have "sv_db sv' = sv_db sv \<or> sv_db sv' = d"
    using call True c
    by (cases "if up then FindOwned u i (sv_db sv) else Inl ErrUnavailable"; cases res)
      (auto simp: Delete_handler_def Let_def split: prod.splits option.splits)
  ultimately show ?thesis using confined_refl [OF t] by auto
qed

lemma Retry_handler_confined:
  assumes t: "tenancy d" and call: "Retry_handler up now u i d = (a, d')"
  shows "confined u d d'"
proof -
  obtain res d1 where c: "with_connection up (RetryOwned now u i) d = (res, d1)" by force
  then have "confined u d d1"
    using RetryOwned_confined [OF t] confined_refl [OF t] by (auto simp: with_connection_def split: if_splits)
  moreover have "d' = d1" using call c by (auto simp: Retry_handler_def split: sum.splits error.splits)
  ultimately show ?thesis by simp
qed

lemma Ask_confined:
  assumes t: "tenancy (sv_db sv)" and call: "Ask kind lib inp u i sv = (response, sv')"
  shows "confined u (sv_db sv) (sv_db sv')"
  using call
proof (cases rule: Ask_cases)
  case early
  with t confined_refl show ?thesis by simp
next
  case (denied message sv1 rid)
  with same_content_confined [OF t quiet_same_content [OF begin_end_quiet(1) [OF denied(2)]]] show ?thesis by simp
next
  case (asked question doc rid sv1 ok sv2)
  note same = quiet_same_content [OF begin_end_quiet(1) [OF asked(4)]]
  note 1 = same_content_confined [OF t same]
  have doc: "doc \<in> set (documents (sv_db sv1))" "doc_OwnerID doc = u"
    using found_owned [OF asked(2)] same by (simp_all add: same_content_def)
  have 2: "confined u (sv_db sv1) (sv_db sv2)"
    using asked(5)
  proof (cases rule: generate_answer_cases)
    case (saved ts sources q)
    have "keys_ok (sv_db sv2)" using saved(10) confined_tenancy [OF 1] by (simp add: tenancy_def)
    with question_confined [OF confined_tenancy [OF 1] doc] saved(3,5,6) show ?thesis by simp
  qed (use confined_refl [OF confined_tenancy [OF 1]] in simp_all)
  let ?sv = "sv2\<lparr>sv_metrics := recordAnswer (ai_answer_latency inp) (\<not> ok) (sv_metrics sv2)\<rparr>"
  have "tenancy (sv_db ?sv)" using confined_tenancy [OF 2] by simp
  from same_content_confined [OF this quiet_same_content [OF begin_end_quiet(2)]] have "confined u (sv_db sv2) (sv_db sv')"
    by (simp add: asked(6))
  with confined_trans [OF 1 2] confined_trans show ?thesis by blast
qed

section \<open>Files\<close>

text \<open>The files of documents lie where their identifiers say.\<close>

definition stored_ok :: "db \<Rightarrow> bool" where
  "stored_ok d \<longleftrightarrow> (\<forall>r \<in> set (documents d). plain_name (doc_ID r) \<and> doc_StoredPath r = storedPath (doc_ID r))"

text \<open>Only the file of one document may differ.\<close>

definition files_but :: "('f, 's) documentStorage \<Rightarrow> 's bucket_view \<Rightarrow> string \<Rightarrow> 's stores \<Rightarrow> 's stores \<Rightarrow> bool" where
  "files_but st v i ss ss' \<longleftrightarrow> stores_ok st v ss' \<and>
     (\<forall>k. document_key k \<longrightarrow> k \<noteq> storedPath i \<longrightarrow> held_at st v ss' k = held_at st v ss k)"

lemma files_but_refl: "stores_ok st v ss \<Longrightarrow> files_but st v i ss ss"
  by (simp add: files_but_def)

lemma files_but_trans: "files_but st v i ss ss' \<Longrightarrow> files_but st v i ss' ss'' \<Longrightarrow> files_but st v i ss ss''"
  by (simp add: files_but_def)

lemma put_files_but:
  assumes "storage_documented st v" "stores_ok st v ss" "plain_name i" "put_pdf st f now (storedPath i) content ss = (e, ss')"
  shows "files_but st v i ss ss'"
  using ds_put [OF assms(1,2) document_key_storedPath [OF assms(3)] assms(4)] by (auto simp: files_but_def)

lemma delete_files_but:
  assumes "storage_documented st v" "stores_ok st v ss" "plain_name i" "ds_Delete st f (storedPath i) ss = (e, ss')"
  shows "files_but st v i ss ss'"
  using ds_delete [OF assms(1,2) document_key_storedPath [OF assms(3)] assms(4)] by (auto simp: files_but_def)

lemma call_files [simp]: "call cx p f sv = (r, sv') \<Longrightarrow> sv_files sv' = sv_files sv"
  by (auto simp: call_def split: prod.splits)

lemma admit_upload_files: "admit_upload kind cx u i sz sv = (r, sv') \<Longrightarrow> sv_files sv' = sv_files sv"
  by (auto simp: admit_upload_def Let_def call_def split: if_splits prod.splits sum.splits)

lemma store_upload_files:
  assumes ok: "storage_documented st v" "stores_ok st v (sv_files sv)" "plain_name i"
    and call: "store_upload kind accepts st cx u i filename content sv = (r, sv')"
  shows "files_but st v i (sv_files sv) (sv_files sv')"
proof -
  obtain e fs where put: "put_pdf st (cx_put cx) (cx_put_time cx) (storedPath i) content (sv_files sv) = (e, fs)" by force
  note 1 = put_files_but [OF ok put]
  obtain e2 fs2 where del: "ds_Delete st (cx_remove cx) (storedPath i) fs = (e2, fs2)" by force
  have "stores_ok st v fs" using 1 by (simp add: files_but_def)
  note 2 = files_but_trans [OF 1 delete_files_but [OF ok(1) this ok(3) del]]
  have rm: "sv_files (snd (remove_stored st cx (storedPath i) x)) = fs2" if "sv_files x = fs" for x
    using that del by (simp add: remove_stored_def)
  have "sv_files sv' = fs \<or> sv_files sv' = fs2"
  proof (cases e)
    case (Some x)
    with call put show ?thesis by (auto simp: store_upload_def)
  next
    case None
    let ?sv = "sv\<lparr>sv_files := fs\<rparr>" and ?doc = "upload_document i filename (int (length content)) (cx_clock cx Creating)"
    have F: "sv_files (snd (call cx p f x)) = sv_files x" for p f x by (simp add: call_def split: prod.split)
    obtain res sv1 where c: "call cx Committing_Now (CreateOwnedAndCommitUpload accepts (cx_clock cx Committing_Now) u ?doc i) ?sv = (res, sv1)" by force
    obtain res2 sv2 where c2: "call cx Creating (CreateOwned accepts u ?doc) ?sv = (res2, sv2)" by force
    obtain res3 sv3 where c3: "call cx Committing_Now (CommitUpload (cx_clock cx Committing_Now) i) sv2 = (res3, sv3)" by force
    obtain res4 sv4 where c4: "call cx Undoing (DeleteOwned u i) sv3 = (res4, sv4)" by force
    have f: "sv_files sv1 = fs" "sv_files sv2 = fs" "sv_files sv3 = fs" "sv_files sv4 = fs"
      using call_files [OF c] call_files [OF c2] call_files [OF c3] call_files [OF c4] by simp_all
    show ?thesis
      using call None put c c2 c3 c4 f rm
      by (cases res; cases res2; cases res3) (auto simp: store_upload_def Let_def split: if_splits)
  qed
  with 1 2 show ?thesis by auto
qed

lemma release_upload_files [simp]: "sv_files (release_upload kind cx u i sz sv) = sv_files sv"
  by (simp add: release_upload_def call_def split: prod.split)

lemma Upload_files:
  assumes doc: "storage_documented st v" and "stores_ok st v (sv_files sv)" "\<And>i. documentID (cx_random cx) = Some i \<Longrightarrow> plain_name i"
    and call: "Upload kind accepts st cx u request sv = (a, sv')"
  shows "case documentID (cx_random cx) of None \<Rightarrow> sv_files sv' = sv_files sv | Some i \<Rightarrow> files_but st v i (sv_files sv) (sv_files sv')"
  using call
proof (cases rule: Upload_cases)
  case early
  with assms(2) show ?thesis by (simp add: files_but_refl split: option.split)
next
  case (denied i filename content r sv1 code message)
  with assms(2) admit_upload_files [OF denied(3)] show ?thesis by (simp add: files_but_refl)
next
  case (failed i filename content sv1 message sv2)
  have "sv_files sv1 = sv_files sv" by (rule admit_upload_files [OF failed(4)])
  with store_upload_files [OF doc _ assms(3) [OF failed(1)] failed(5)] assms(2) failed(1,7) show ?thesis by simp
next
  case (done_ i filename content sv1 sv2)
  have "sv_files sv1 = sv_files sv" by (rule admit_upload_files [OF done_(5)])
  with store_upload_files [OF doc _ assms(3) [OF done_(1)] done_(6)] assms(2) done_(1,9) show ?thesis by simp
qed

lemma Delete_handler_files:
  assumes doc: "storage_documented st v" and ok: "stores_ok st v (sv_files sv)" "stored_ok (sv_db sv)" and call: "Delete_handler kind st up up' now f u i sv = (a, sv')"
  shows "sv_files sv' = sv_files sv \<or>
    (\<exists>r \<in> set (documents (sv_db sv)). doc_ID r = i \<and> doc_OwnerID r = u) \<and> files_but st v i (sv_files sv) (sv_files sv')"
proof -
  have own: "files_but st v i (sv_files sv) fs" if "doc \<in> set (documents (sv_db sv))" "doc_ID doc = i"
      "ds_Delete st f (doc_StoredPath doc) (sv_files sv) = (e, fs)" for doc e fs
    using that ok delete_files_but [OF doc ok(1)] by (auto simp: stored_ok_def)
  show ?thesis
  proof (cases "kind = NoQuota")
    case False
    from call False show ?thesis
    proof (cases rule: Delete_handler_cases)
      case (deleted r d e fs)
      then have "FindOwned u i (sv_db sv) = Inr r"
        by (auto simp: DeleteOwnedWithUsage_def delete_locked_def transaction_ok and_then_Inr Let_def)
      from found_owned [OF this] own deleted(2,3) show ?thesis by auto
    qed auto
  next
    case True
    obtain res d where c: "with_connection up' (DeleteOwned u i) (sv_db sv) = (res, d)" by force
    show ?thesis
    proof (cases "if up then FindOwned u i (sv_db sv) else Inl ErrUnavailable")
      case (Inl x)
      with call show ?thesis by (auto simp: Delete_handler_def)
    next
      case (Inr doc)
      then have doc: "doc \<in> set (documents (sv_db sv))" "doc_ID doc = i" "doc_OwnerID doc = u"
        using found_owned by (auto split: if_splits)
      obtain e fs where del: "ds_Delete st f (doc_StoredPath doc) (sv_files sv) = (e, fs)" by force
      have "sv_files sv' = sv_files sv \<or> sv_files sv' = fs"
        using call True c Inr del by (cases res; cases e) (auto simp: Delete_handler_def Let_def)
      with own [OF doc(1,2) del] doc show ?thesis by auto
    qed
  qed
qed

lemma save_answer_files: "save_answer lib inp u doc question contexts content sv = (fr, saved, sv') \<Longrightarrow> sv_files sv' = sv_files sv"
  by (erule save_answer_cases) auto

lemma generate_answer_files:
  assumes "generate_answer lib inp u doc question sv = (response, ok, sv')"
  shows "sv_files sv' = sv_files sv"
  using assms unfolding generate_answer_def Let_def
  by (auto split: if_splits option.splits prod.splits dest!: save_answer_files)

lemma begin_answer_files: "begin_answer kind timeout inp u rid sv = (granted, sv') \<Longrightarrow> sv_files sv' = sv_files sv"
  unfolding begin_answer_def Let_def
  by (auto split: if_splits prod.splits sum.splits)

lemma end_answer_files [simp]: "sv_files (end_answer kind inp u rid sv) = sv_files sv"
  by (simp add: end_answer_def)

lemma Ask_files: "Ask kind lib inp u i sv = (response, sv') \<Longrightarrow> sv_files sv' = sv_files sv"
  by (erule Ask_cases) (auto dest!: begin_answer_files generate_answer_files)

end
