(* ===== verification/Metrics_Page.thy ===== *)
theory Metrics_Page
  imports Metrics Go_Strings
begin

text \<open>
  The page of \<^verbatim>\<open>/metrics\<close> (\<^verbatim>\<open>metrics.handler\<close> of \<^verbatim>\<open>api/metrics.go\<close>): the lines, in the groups in
  which they are written, and what the handler returns when a write fails. \<open>seconds\<close> is the
  \<^verbatim>\<open>%g\<close> of a number of milliseconds divided by 1000. A scraper that looks a sample up by its name
  reads the counter back.
\<close>

section \<open>The page\<close>

definition line_end :: char where "line_end = CHR 0x0A"

definition sample_line :: "string \<Rightarrow> 64 word \<Rightarrow> string" where
  "sample_line name n = name @ '' '' @ FormatInt (uint n)"

definition bucket_name :: "string \<Rightarrow> string" where
  "bucket_name le = ''documind_answer_latency_seconds_bucket{le='' @ [CHR 0x22] @ le @ [CHR 0x22] @ ''}''"

definition bucket_bounds :: "string list" where
  "bucket_bounds = [''1'', ''5'', ''10'', ''30'', ''60'', ''120'', ''300'', ''600'']"

definition counter_lines :: "(64 word \<Rightarrow> string) \<Rightarrow> metrics \<Rightarrow> string list" where
  "counter_lines seconds m =
     [''# TYPE documind_uploads_total counter'', sample_line ''documind_uploads_total'' (uploads m),
      ''# TYPE documind_upload_rejections_total counter'', sample_line ''documind_upload_rejections_total'' (uploadRejections m),
      ''# TYPE documind_processing_failures_total counter'', sample_line ''documind_processing_failures_total'' (processingFailures m),
      ''# TYPE documind_answers_total counter'', sample_line ''documind_answers_total'' (answers m),
      ''# TYPE documind_answer_failures_total counter'', sample_line ''documind_answer_failures_total'' (answerFailures m),
      ''# TYPE documind_answer_latency_seconds histogram'',
      ''documind_answer_latency_seconds_sum '' @ seconds (answerLatencyMs m),
      sample_line ''documind_answer_latency_seconds_count'' (answerLatencyN m),
      ''# TYPE documind_retrieval_latency_seconds summary'',
      ''documind_retrieval_latency_seconds_sum '' @ seconds (retrievalLatencyMs m),
      sample_line ''documind_retrieval_latency_seconds_count'' (retrievalLatencyN m),
      sample_line ''documind_retrieval_failures_total'' (retrievalFailures m)]"

definition queue_lines :: "(64 word \<Rightarrow> string) \<Rightarrow> metrics \<Rightarrow> string list" where
  "queue_lines seconds m =
     [sample_line (bucket_name ''+Inf'') (answerLatencyN m),
      ''# TYPE documind_queue_depth gauge'', sample_line ''documind_queue_depth'' (queueDepth m),
      ''# TYPE documind_queue_oldest_age_seconds gauge'',
      ''documind_queue_oldest_age_seconds '' @ seconds (queueOldestAgeMs m)]"

text \<open>One entry for each call of \<^verbatim>\<open>Fprintf\<close>.\<close>

definition metrics_writes :: "(64 word \<Rightarrow> string) \<Rightarrow> metrics \<Rightarrow> string list list" where
  "metrics_writes seconds m =
     [counter_lines seconds m] @
     map (\<lambda>(le, n). [sample_line (bucket_name le) n]) (zip bucket_bounds (answerLatencyBuckets m)) @
     [queue_lines seconds m]"

definition page_text :: "string list \<Rightarrow> string" where
  "page_text ls = concat (map (\<lambda>l. l @ [line_end]) ls)"

text \<open>The writes stop at the first that fails; \<open>fails k\<close> says whether the \<open>k\<close>-th does.\<close>

fun write_until :: "(nat \<Rightarrow> bool) \<Rightarrow> nat \<Rightarrow> string list list \<Rightarrow> string \<times> bool" where
  "write_until fails k [] = ([], True)"
| "write_until fails k (ls # rest) =
     (if fails k then ([], False)
      else case write_until fails (Suc k) rest of (t, ok) \<Rightarrow> (page_text ls @ t, ok))"

text \<open>What has been written, and the error that is written behind it, if any.\<close>

definition metrics_handler :: "(64 word \<Rightarrow> string) \<Rightarrow> (nat \<Rightarrow> bool) \<Rightarrow> metrics \<Rightarrow> string \<times> (nat \<times> string) option" where
  "metrics_handler seconds fails m =
     (case write_until fails 0 (metrics_writes seconds m) of (t, ok) \<Rightarrow>
        (t, if ok then None else Some (500, ''could not write metrics'')))"

section \<open>Reading it\<close>

text \<open>What a scraper makes of the page: the value behind the first line that starts with the name and a blank.\<close>

definition scrape :: "string \<Rightarrow> string \<Rightarrow> string option" where
  "scrape page name =
     map_option (\<lambda>l. drop (Suc (length name)) l) (find (\<lambda>l. has_prefix l (name @ '' '')) (Split line_end page))"

lemma nat_digits_chars: "set (nat_digits n) \<subseteq> {c. is_digit c}"
  using nat_digits [of n] by (auto simp: list_all_iff)

lemma FormatInt_chars: "0 \<le> i \<Longrightarrow> c \<in> set (FormatInt i) \<Longrightarrow> is_digit c"
  using nat_digits_chars [of "nat i"] by (auto simp: FormatInt_def)

lemma FormatInt_one_line: "CHR 0x0A \<notin> set (FormatInt (uint (n :: 64 word)))"
  using FormatInt_chars [of "uint n" "CHR 0x0A"] by (auto simp: is_digit_def)

lemma Split_page: "\<forall>l \<in> set ls. line_end \<notin> set l \<Longrightarrow> Split line_end (page_text ls) = ls @ [[]]"
  by (induction ls) (simp_all add: page_text_def Split_append Split_none)

lemma write_until_all: "(\<And>k. \<not> fails k) \<Longrightarrow> write_until fails k ws = (page_text (concat ws), True)"
  by (induction ws arbitrary: k) (simp_all add: page_text_def)

definition page_lines :: "(64 word \<Rightarrow> string) \<Rightarrow> metrics \<Rightarrow> string list" where
  "page_lines seconds m = concat (metrics_writes seconds m)"

lemma page_lines_clean:
  assumes "\<And>n. line_end \<notin> set (seconds n)"
  shows "\<forall>l \<in> set (page_lines seconds m). line_end \<notin> set l"
proof -
  note simps = sample_line_def FormatInt_one_line assms [unfolded line_end_def] line_end_def bucket_name_def
  have "\<forall>l \<in> set (counter_lines seconds m). line_end \<notin> set l" "\<forall>l \<in> set (queue_lines seconds m). line_end \<notin> set l"
    unfolding counter_lines_def queue_lines_def by (simp_all add: simps)
  moreover have "line_end \<notin> set (sample_line (bucket_name le) n)" if "le \<in> set bucket_bounds" for le n
    using that by (auto simp: simps bucket_bounds_def)
  ultimately show ?thesis by (auto simp: page_lines_def metrics_writes_def dest: set_zip_leftD)
qed

text \<open>The lines as names and what follows them; a comment is a line named by its hash sign.\<close>

type_synonym named_line = "string \<times> string"

definition named_text :: "named_line \<Rightarrow> string" where
  "named_text x = fst x @ '' '' @ snd x"

lemma has_prefix_blank:
  assumes "CHR '' '' \<notin> set name" "CHR '' '' \<notin> set name'"
  shows "has_prefix (name' @ '' '' @ v) (name @ '' '') \<longleftrightarrow> name' = name"
  using assms
proof (induction name' arbitrary: name)
  case Nil
  then show ?case by (cases name) (auto simp: has_prefix_iff)
next
  case (Cons c cs)
  then show ?case by (cases name) (auto simp: has_prefix_iff)
qed

lemma find_named:
  assumes "CHR '' '' \<notin> set name" "\<forall>x \<in> set xs. CHR '' '' \<notin> set (fst x)"
  shows "find (\<lambda>l. has_prefix l (name @ '' '')) (map named_text xs @ [[]]) = map_option (\<lambda>v. named_text (name, v)) (map_of xs name)"
  using assms(2)
proof (induction xs)
  case Nil
  show ?case by (cases name) simp_all
next
  case (Cons x xs)
  with has_prefix_blank [OF assms(1), of "fst x" "snd x"] show ?case by (cases x) (auto simp: named_text_def)
qed

definition named_lines :: "(64 word \<Rightarrow> string) \<Rightarrow> metrics \<Rightarrow> named_line list" where
  "named_lines seconds m =
     [(''#'', ''TYPE documind_uploads_total counter''), (''documind_uploads_total'', FormatInt (uint (uploads m))),
      (''#'', ''TYPE documind_upload_rejections_total counter''),
      (''documind_upload_rejections_total'', FormatInt (uint (uploadRejections m))),
      (''#'', ''TYPE documind_processing_failures_total counter''),
      (''documind_processing_failures_total'', FormatInt (uint (processingFailures m))),
      (''#'', ''TYPE documind_answers_total counter''), (''documind_answers_total'', FormatInt (uint (answers m))),
      (''#'', ''TYPE documind_answer_failures_total counter''),
      (''documind_answer_failures_total'', FormatInt (uint (answerFailures m))),
      (''#'', ''TYPE documind_answer_latency_seconds histogram''),
      (''documind_answer_latency_seconds_sum'', seconds (answerLatencyMs m)),
      (''documind_answer_latency_seconds_count'', FormatInt (uint (answerLatencyN m))),
      (''#'', ''TYPE documind_retrieval_latency_seconds summary''),
      (''documind_retrieval_latency_seconds_sum'', seconds (retrievalLatencyMs m)),
      (''documind_retrieval_latency_seconds_count'', FormatInt (uint (retrievalLatencyN m))),
      (''documind_retrieval_failures_total'', FormatInt (uint (retrievalFailures m)))] @
     map (\<lambda>(le, n). (bucket_name le, FormatInt (uint n))) (zip bucket_bounds (answerLatencyBuckets m)) @
     [(bucket_name ''+Inf'', FormatInt (uint (answerLatencyN m))),
      (''#'', ''TYPE documind_queue_depth gauge''), (''documind_queue_depth'', FormatInt (uint (queueDepth m))),
      (''#'', ''TYPE documind_queue_oldest_age_seconds gauge''),
      (''documind_queue_oldest_age_seconds'', seconds (queueOldestAgeMs m))]"

lemma bucket_name_inj [simp]: "bucket_name a = bucket_name b \<longleftrightarrow> a = b"
  by (simp add: bucket_name_def)

lemma bucket_name_other [simp]:
  "CHR ''{'' \<notin> set name \<Longrightarrow> name \<noteq> bucket_name le" "CHR ''{'' \<notin> set name \<Longrightarrow> bucket_name le \<noteq> name"
  by (auto simp: bucket_name_def)

lemma page_lines_named: "page_lines seconds m = map named_text (named_lines seconds m)"
  by (simp add: page_lines_def metrics_writes_def named_lines_def counter_lines_def queue_lines_def sample_line_def
      named_text_def comp_def case_prod_unfold concat_map_singleton)

lemma scrape_named:
  assumes "\<And>n. line_end \<notin> set (seconds n)" "CHR '' '' \<notin> set name"
  shows "scrape (page_text (page_lines seconds m)) name = map_of (named_lines seconds m) name"
proof -
  have "\<forall>x \<in> set (named_lines seconds m). CHR '' '' \<notin> set (fst x)"
    by (auto simp: named_lines_def bucket_name_def bucket_bounds_def dest!: set_zip_leftD)
  from find_named [OF assms(2) this] show ?thesis
    by (simp add: scrape_def Split_page [OF page_lines_clean [OF assms(1)]] page_lines_named [symmetric] option.map_comp comp_def)
      (simp add: page_lines_named named_text_def option.map_comp comp_def option.map_ident)
qed



end
