(* ===== verification/Server.thy ===== *)
theory Server
  imports Tenancy Session_Security Metrics_Page
begin

text \<open>
  The server as a whole (\<^verbatim>\<open>newServerWithMetrics\<close> of \<^verbatim>\<open>api/main.go\<close>, \<^verbatim>\<open>routes\<close> of
  \<^verbatim>\<open>api/auth.go\<close>): the table of routes, the middleware in front of the document routes, and the
  handlers on the state they share: the database with its rate limits, the accounts, the stored files,
  the admission control and the metrics. Echo's router is an argument, of which only is used that it
  picks a route whose method and path match. A request without a session reaches no document, and one
  with a session reaches nothing that belongs to another account.
\<close>

section \<open>Routes\<close>

datatype endpoint =
    Hello | Health | Ready | Metrics_Endpoint | Account auth_call
  | Upload_Endpoint | List_Endpoint | Status_Endpoint | Get_Endpoint | Chunks_Endpoint | File_Endpoint
  | Delete_Endpoint | Retry_Endpoint | Questions_Endpoint | Ask_Endpoint

record route =
  rt_method :: string
  rt_path :: string
  rt_guarded :: bool
  rt_endpoint :: endpoint

definition open_route :: "string \<Rightarrow> string \<Rightarrow> endpoint \<Rightarrow> route" where
  "open_route m p e = \<lparr>rt_method = m, rt_path = p, rt_guarded = False, rt_endpoint = e\<rparr>"

definition auth_routes :: "route list" where
  "auth_routes =
     [open_route ''POST'' ''/auth/register'' (Account Register), open_route ''POST'' ''/auth/login'' (Account Login),
      open_route ''GET'' ''/auth/session'' (Account CurrentSession), open_route ''POST'' ''/auth/logout'' (Account Logout)]"

text \<open>A group puts its path in front of its routes and its middleware in front of their handlers.\<close>

definition group_route :: "string \<Rightarrow> string \<Rightarrow> string \<Rightarrow> endpoint \<Rightarrow> route" where
  "group_route g m p e = \<lparr>rt_method = m, rt_path = g @ p, rt_guarded = True, rt_endpoint = e\<rparr>"

definition document_routes :: "route list" where
  "document_routes =
     [group_route ''/documents'' ''POST'' [] Upload_Endpoint,
      group_route ''/documents'' ''GET'' [] List_Endpoint,
      group_route ''/documents'' ''GET'' ''/:id/status'' Status_Endpoint,
      group_route ''/documents'' ''GET'' ''/:id'' Get_Endpoint,
      group_route ''/documents'' ''GET'' ''/:id/chunks'' Chunks_Endpoint,
      group_route ''/documents'' ''GET'' ''/:id/file'' File_Endpoint,
      group_route ''/documents'' ''HEAD'' ''/:id/file'' File_Endpoint,
      group_route ''/documents'' ''DELETE'' ''/:id'' Delete_Endpoint,
      group_route ''/documents'' ''POST'' ''/:id/retry'' Retry_Endpoint,
      group_route ''/documents'' ''GET'' ''/:id/questions'' Questions_Endpoint,
      group_route ''/documents'' ''POST'' ''/:id/questions'' Ask_Endpoint]"

definition server_routes :: "route list" where
  "server_routes =
     [open_route ''GET'' ''/'' Hello, open_route ''GET'' ''/health'' Health, open_route ''GET'' ''/ready'' Ready,
      open_route ''GET'' ''/metrics'' Metrics_Endpoint] @ auth_routes @ document_routes"

text \<open>The router picks a route for a method and a path and says what \<^verbatim>\<open>:id\<close> stands for. What Echo
  documents of it: the route is one of the table, with this method, and its path matches, where a
  parameter stands for one component of the path.\<close>

type_synonym router = "route list \<Rightarrow> string \<Rightarrow> string \<Rightarrow> (route \<times> string) option"

fun components_match :: "string list \<Rightarrow> string list \<Rightarrow> string \<Rightarrow> bool" where
  "components_match [] [] i = True"
| "components_match (p # ps) (c # cs) i = ((if p = '':id'' then c = i \<and> c \<noteq> [] else c = p) \<and> components_match ps cs i)"
| "components_match _ _ i = False"

definition router_documented :: "router \<Rightarrow> bool" where
  "router_documented router \<longleftrightarrow> (\<forall>table m p r i. router table m p = Some (r, i) \<longrightarrow>
     r \<in> set table \<and> rt_method r = m \<and> components_match (Split CHR ''/'' (rt_path r)) (Split CHR ''/'' p) i)"

section \<open>The handlers together\<close>

text \<open>What was built at the start of the server.\<close>

record ('ip, 'net, 'b, 'f, 'o, 'g, 's) deployment =
  dp_env :: environment
  dp_lib :: "('ip, 'net, 'b) auth_lib"
  dp_auth :: "'net jwtAuthenticator"
  dp_kind :: store_kind
  dp_accepts :: "document \<Rightarrow> bool"
  dp_storage :: "('g, 's) documentStorage"
  dp_codec :: cursor_codec
  dp_http_time :: http_time
  dp_quote :: "string \<Rightarrow> string"
  dp_decode :: "string \<Rightarrow> documentSource list option"
  dp_ask :: "('f, 'o) ask_library"
  dp_seconds :: "64 word \<Rightarrow> string"

text \<open>What a request brings along and what happens around it.\<close>

record ('f, 'g) request_inputs =
  rq_call :: call_inputs
  rq_conditions :: "'g conditions"
  rq_upload :: upload_request
  rq_up :: bool
  rq_up' :: bool
  rq_now :: time
  rq_storage :: "'g storage_faults"
  rq_storage' :: "'g storage_faults"
  rq_search :: string
  rq_limit :: string
  rq_cursor :: string
  rq_ask :: "'f ask_inputs"
  rq_dial :: "string \<Rightarrow> bool"
  rq_fails :: "nat \<Rightarrow> bool"

record 's api =
  ap_server :: "'s server"
  ap_users :: "authUser list"

datatype page =
    Upload_Page "(string \<times> string) list answer" | List_Page "documentListResponse answer"
  | Status_Page "documentStatusResponse answer" | Document_Page "documentResponse answer"
  | Chunks_Page "documentSource list answer" | File_Page file_answer | Delete_Page "unit answer"
  | Retry_Page "(string \<times> string) list answer" | Questions_Page "question_entry list answer" | Ask_Page ask_response
  | No_Page

definition document_handler ::
    "('ip, 'net, 'b, 'f, 'o :: linorder, 'g, 's) deployment \<Rightarrow> ('f, 'g) request_inputs \<Rightarrow> string \<Rightarrow> 'b request \<Rightarrow> endpoint \<Rightarrow> string \<Rightarrow> string \<Rightarrow>
     's server \<Rightarrow> page \<times> 's server" where
  "document_handler dp inp meth request e i ownerID sv =
     (case e of
        Upload_Endpoint \<Rightarrow>
          (case Upload (dp_kind dp) (dp_accepts dp) (dp_storage dp) (rq_conditions inp) ownerID (rq_upload inp) sv of (a, sv) \<Rightarrow> (Upload_Page a, sv))
      | List_Endpoint \<Rightarrow>
          (List_Page (List_handler (dp_codec dp) (dp_kind dp \<noteq> NoQuota) (rq_up inp) ownerID (rq_search inp) (rq_limit inp) (rq_cursor inp) (sv_db sv)), sv)
      | Status_Endpoint \<Rightarrow> (Status_Page (Status_handler (rq_up inp) ownerID i (sv_db sv)), sv)
      | Get_Endpoint \<Rightarrow> (Document_Page (Get_handler (rq_up inp) ownerID i (sv_db sv)), sv)
      | Chunks_Endpoint \<Rightarrow> (Chunks_Page (Chunks_handler (rq_up inp) (rq_up' inp) ownerID i (sv_db sv)), sv)
      | File_Endpoint \<Rightarrow>
          (File_Page (File_handler (dp_http_time dp) (dp_quote dp) (dp_storage dp) (rq_up inp) (rq_storage inp) (rq_storage' inp) meth request
             ownerID i (sv_db sv) (sv_files sv)), sv)
      | Delete_Endpoint \<Rightarrow>
          (case Delete_handler (dp_kind dp) (dp_storage dp) (rq_up inp) (rq_up' inp) (rq_now inp) (rq_storage inp) ownerID i sv of
             (a, sv) \<Rightarrow> (Delete_Page a, sv))
      | Retry_Endpoint \<Rightarrow>
          (case Retry_handler (rq_up inp) (rq_now inp) ownerID i (sv_db sv) of (a, d) \<Rightarrow> (Retry_Page a, sv\<lparr>sv_db := d\<rparr>))
      | Questions_Endpoint \<Rightarrow> (Questions_Page (Questions_handler (dp_decode dp) (rq_up inp) (rq_up' inp) ownerID i (sv_db sv)), sv)
      | Ask_Endpoint \<Rightarrow> (case Ask (dp_kind dp) (dp_ask dp) (rq_ask inp) ownerID i sv of (r, sv) \<Rightarrow> (Ask_Page r, sv))
      | _ \<Rightarrow> (No_Page, sv))"

text \<open>The account handlers work on the accounts, and their limiter on the table of rate limits that the
  document store uses too.\<close>

definition account_state :: "'s api \<Rightarrow> auth_state" where
  "account_state s = \<lparr>as_users = ap_users s, as_limiter = newAuthRateLimiter (Some (rate_limit_buckets (sv_db (ap_server s))))\<rparr>"

definition with_account_state :: "auth_state \<Rightarrow> 's api \<Rightarrow> 's api" where
  "with_account_state st s =
     s\<lparr>ap_users := as_users st,
       ap_server := (ap_server s)\<lparr>sv_db := (sv_db (ap_server s))\<lparr>rate_limit_buckets :=
         (case as_limiter st of WithDatabase t \<Rightarrow> t | InMemory _ \<Rightarrow> rate_limit_buckets (sv_db (ap_server s)))\<rparr>\<rparr>\<rparr>"

definition processorAddress :: "environment \<Rightarrow> string" where
  "processorAddress env = (if env ''DOCUMENT_PROCESSOR_GRPC_URL'' \<noteq> [] then env ''DOCUMENT_PROCESSOR_GRPC_URL'' else ''127.0.0.1:50051'')"

definition ready :: "environment \<Rightarrow> bool \<Rightarrow> (string \<Rightarrow> bool) \<Rightarrow> nat \<times> (string \<times> string) list" where
  "ready env ping dial =
     (if \<not> ping then (503, [(''status'', ''not_ready''), (''dependency'', ''database'')])
      else if \<not> dial (processorAddress env) then (503, [(''status'', ''not_ready''), (''dependency'', ''document_processor'')])
      else (200, [(''status'', ''ready'')]))"

text \<open>What comes back: nothing from a handler, an answer of the server itself, the text of the metrics, or
  what the middleware and the handler behind it wrote.\<close>

datatype served =
    Unrouted
  | Replied "string option" response
  | Metrics_Text "string \<times> (nat \<times> string) option"
  | Documents "string option" response "page option"

definition serve_route ::
    "('ip, 'net, 'b, 'f, 'o :: linorder, 'g, 's) deployment \<Rightarrow> ('f, 'g) request_inputs \<Rightarrow> string \<Rightarrow> 'b request \<Rightarrow> route \<Rightarrow> string \<Rightarrow> 's api \<Rightarrow> served \<times> 's api" where
  "serve_route dp inp meth request r i s =
     (let plain = (\<lambda>(code, body). case JSON (ci_write_error (rq_call inp)) code body [] of (e, w) \<Rightarrow> (Replied e w, s))
      in if rt_guarded r
         then (case middleware (dp_lib dp) (dp_auth dp) (rq_call inp) request (ap_users s)
                 (\<lambda>ownerID w (sv, _). case document_handler dp inp meth request (rt_endpoint r) i ownerID sv of
                    (page, sv) \<Rightarrow> (ci_write_error (rq_call inp), w @ [Protected], (sv, Some page)))
                 [] (ap_server s, None) of
                (e, w, sv, page) \<Rightarrow> (Documents e w page, s\<lparr>ap_server := sv\<rparr>))
         else case rt_endpoint r of
             Hello \<Rightarrow> plain (200, [(''message'', ''Hello, World!'')])
           | Health \<Rightarrow> plain (200, [(''status'', ''ok'')])
           | Ready \<Rightarrow> plain (ready (dp_env dp) (rq_up inp) (rq_dial inp))
           | Metrics_Endpoint \<Rightarrow> (Metrics_Text (metrics_handler (dp_seconds dp) (rq_fails inp) (sv_metrics (ap_server s))), s)
           | Account ac \<Rightarrow>
               (case auth_exec (dp_lib dp) (dp_auth dp) (ac, rq_call inp, request) (account_state s) of
                  (e, w, st) \<Rightarrow> (Replied e w, with_account_state st s))
           | _ \<Rightarrow> (Unrouted, s))"

definition serve ::
    "('ip, 'net, 'b, 'f, 'o :: linorder, 'g, 's) deployment \<Rightarrow> router \<Rightarrow> ('f, 'g) request_inputs \<Rightarrow> string \<Rightarrow> string \<Rightarrow> 'b request \<Rightarrow> 's api \<Rightarrow> served \<times> 's api" where
  "serve dp router inp meth target request s =
     (case router server_routes meth target of
        None \<Rightarrow> (Unrouted, s)
      | Some (r, i) \<Rightarrow> serve_route dp inp meth request r i s)"

section \<open>An example\<close>

text \<open>A router that takes the first route that matches, with the component that stands for \<^verbatim>\<open>:id\<close>.\<close>

fun named_component :: "string list \<Rightarrow> string list \<Rightarrow> string" where
  "named_component (p # ps) (c # cs) = (if p = '':id'' then c else named_component ps cs)"
| "named_component _ _ = []"

definition sample_router :: router where
  "sample_router table m p =
     (let matches = (\<lambda>r. named_component (Split CHR ''/'' (rt_path r)) (Split CHR ''/'' p))
      in map_option (\<lambda>r. (r, matches r))
           (find (\<lambda>r. rt_method r = m \<and> components_match (Split CHR ''/'' (rt_path r)) (Split CHR ''/'' p) (matches r)) table))"

lemma sample_router_documented: "router_documented sample_router"
  by (auto simp: router_documented_def sample_router_def Let_def find_Some_iff)

definition sample_deployment :: "(string, string, authCredentials, nat, int, network, bucket) deployment" where
  "sample_deployment = \<lparr>dp_env = sample_auth_env, dp_lib = sample_jwt, dp_auth = sample_authenticator, dp_kind = AtomicQuota,
     dp_accepts = (\<lambda>_. True), dp_storage = sample_local,
     dp_codec = sample_codec, dp_http_time = \<lparr>FormatTime = (\<lambda>_. []), ParseTime = (\<lambda>_. None)\<rparr>, dp_quote = (\<lambda>n. n),
     dp_decode = (\<lambda>_. Some []), dp_ask = sample_library, dp_seconds = (\<lambda>_. ''0'')\<rparr>"

definition sample_inputs :: "(nat, network) request_inputs" where
  "sample_inputs = \<lparr>rq_call = call_at 0 ''x'', rq_conditions = sample_conditions, rq_upload = sample_upload_request,
     rq_up = True, rq_up' = True, rq_now = 7, rq_storage = no_faults, rq_storage' = no_faults, rq_search = [], rq_limit = [], rq_cursor = [],
     rq_ask = sample_ask, rq_dial = (\<lambda>_. True), rq_fails = (\<lambda>_. False)\<rparr>"

text \<open>The account \<^verbatim>\<open>u1\<close> beside a document of somebody else, and its cookie.\<close>

definition sample_stranger :: document where
  "sample_stranger = sample_completed\<lparr>doc_StoredPath := storedPath ''a''\<rparr>"

lemma sample_stranger_fields:
  "doc_ID sample_stranger = ''a''" "doc_OwnerID sample_stranger = ''o''" "doc_StoredPath sample_stranger = storedPath ''a''"
  by (simp_all add: sample_stranger_def sample_completed_def completed_def stored_document_def sample_document_def)

definition sample_api :: "bucket api" where
  "sample_api = \<lparr>ap_server = sample_server\<lparr>sv_db := empty_db\<lparr>documents := [sample_stranger]\<rparr>, sv_files := sample_orphans\<rparr>,
     ap_users = [sample_account]\<rparr>"

definition sample_claims :: jwtClaims where
  "sample_claims = session_claims sample_authenticator 0 sample_account"

definition sample_cookie :: string where
  "sample_cookie = sample_sign (ja_secret sample_authenticator) sample_claims"

lemma sample_session:
  "claimsFromRequest sample_jwt sample_authenticator (call_at 0 ''x'') (with_cookie sample_cookie) [sample_account] = Inr sample_claims"
  by (simp add: claimsFromRequest_def sample_auth_lib_def sample_parse_def sample_sign_def sample_cookie_def sample_claims_def
      session_claims_def sample_account_def call_at_def with_cookie_def sample_authenticator_def Truncate_def defaultJWTTTL_def Let_def)

lemma sample_deployment_session:
  "claimsFromRequest (dp_lib sample_deployment) (dp_auth sample_deployment) (rq_call sample_inputs) (with_cookie sample_cookie)
     (ap_users sample_api) = Inr sample_claims"
  by (simp add: sample_deployment_def sample_inputs_def sample_api_def sample_session)

lemma sample_subject: "cl_Subject sample_claims = ''u1''"
  by (simp add: sample_claims_def session_claims_def sample_account_def)

lemma sample_deployment_auth:
  "newAuthenticator (\<lambda>_. None) (\<lambda>_. None) sample_auth_env True = Inr (dp_auth sample_deployment)"
  by (simp add: sample_authenticator_new sample_deployment_def)

lemma sample_api_tenancy: "tenancy (sv_db (ap_server sample_api))"
  by (simp add: sample_api_def tenancy_def keys_ok_def sample_stranger_fields)

lemma sample_api_part: "account_part ''o'' (sv_db (ap_server sample_api)) = ([sample_stranger], [], [])"
  by (simp add: sample_api_def account_part_def own_part_def sample_stranger_fields Let_def)

section \<open>Who reaches what\<close>

text \<open>The ways a request can go once the server has started with a database.\<close>

lemma serve_cases:
  assumes "newAuthenticator ParseCIDR ParseDuration env True = Inr (dp_auth dp)"
    and call: "serve dp router inp meth target request s = (a, s')"
  obtains (outside) bs where "ap_server s' = (ap_server s)\<lparr>sv_db := (sv_db (ap_server s))\<lparr>rate_limit_buckets := bs\<rparr>\<rparr>"
      "\<And>e w page. a \<noteq> Documents e w page" "\<And>r i. router server_routes meth target = Some (r, i) \<Longrightarrow> \<not> rt_guarded r"
      "router server_routes meth target = None \<Longrightarrow> a = Unrouted \<and> s' = s"
  | (refused) e w where "a = Documents e w None" "s' = s" "status w \<in> {Some 400, Some 401}"
  | (handled) r i w claims page sv where "router server_routes meth target = Some (r, i)" "rt_guarded r"
      "claimsFromRequest (dp_lib dp) (dp_auth dp) (rq_call inp) request (ap_users s) = Inr claims"
      "a = Documents (ci_write_error (rq_call inp)) (w @ [Protected]) (Some page)"
      "document_handler dp inp meth request (rt_endpoint r) i (cl_Subject claims) (ap_server s) = (page, sv)"
      "s' = s\<lparr>ap_server := sv\<rparr>"
proof (cases "router server_routes meth target")
  case None
  with call have "a = Unrouted" "s' = s" by (simp_all add: serve_def)
  with None show thesis by (intro outside [of "rate_limit_buckets (sv_db (ap_server s))"]) simp_all
next
  case (Some x)
  obtain r i where r: "router server_routes meth target = Some (r, i)" using Some by (cases x) auto
  show thesis
  proof (cases "rt_guarded r")
    case False
    have "\<exists>bs. ap_server s' = (ap_server s)\<lparr>sv_db := (sv_db (ap_server s))\<lparr>rate_limit_buckets := bs\<rparr>\<rparr> \<and> (\<forall>e w page. a \<noteq> Documents e w page)"
    proof (cases "\<exists>ac. rt_endpoint r = Account ac")
      case True
      then obtain ac where ac: "rt_endpoint r = Account ac" by blast
      obtain e w st where x: "auth_exec (dp_lib dp) (dp_auth dp) (ac, rq_call inp, request) (account_state s) = (e, w, st)"
        using prod_cases3 by blast
      from call have "a = Replied e w" "s' = with_account_state st s" by (simp_all add: serve_def serve_route_def r False ac x)
      then show ?thesis by (auto simp: with_account_state_def)
    next
      case no: False
      from call have "serve_route dp inp meth request r i s = (a, s')" by (simp add: serve_def r)
      then have "s' = s \<and> (\<forall>e w page. a \<noteq> Documents e w page)"
        using no by (cases "rt_endpoint r") (auto simp: serve_route_def False JSON_def Let_def ready_def split: if_splits)
      then show ?thesis by (intro exI [of _ "rate_limit_buckets (sv_db (ap_server s))"]) simp
    qed
    then obtain bs where bs: "ap_server s' = (ap_server s)\<lparr>sv_db := (sv_db (ap_server s))\<lparr>rate_limit_buckets := bs\<rparr>\<rparr>"
      "\<forall>e w page. a \<noteq> Documents e w page" by blast
    show thesis by (rule outside [OF bs(1)]) (use bs(2) False r in simp_all)
  next
    case True
    have secret: "ja_secret (dp_auth dp) \<noteq> []" using newAuthenticator_with_database(3) [OF assms(1)] by auto
    obtain e w where h: "requireHTTPSRequest (al_net (dp_lib dp)) (dp_auth dp) (ci_write_error (rq_call inp)) request [] = (e, w)" by force
    then have w: "e = None \<and> w = [] \<or> w = [Body 400 [(''error'', ''HTTPS is required'')]]"
      by (auto simp: requireHTTPSRequest_def JSON_def Let_def split: if_splits)
    note serving = call [unfolded serve_def serve_route_def r option.case prod.case Let_def if_P [OF True] middleware_def h if_not_P [OF secret]]
    show thesis
    proof (cases "claimsFromRequest (dp_lib dp) (dp_auth dp) (rq_call inp) request (ap_users s)")
      case (Inl err)
      with serving obtain e' w' where "a = Documents e' w' None" "s' = s" "e \<noteq> None \<and> w' = w \<or> w' = w @ [Body 401 [(''error'', ''authentication required'')]]"
        by (auto simp: JSON_def split: option.splits)
      with w show thesis by (intro refused) auto
    next
      case (Inr claims)
      obtain page sv where d: "document_handler dp inp meth request (rt_endpoint r) i (cl_Subject claims) (ap_server s) = (page, sv)" by force
      show thesis
      proof (cases e)
        case None
        with serving Inr d have "a = Documents (ci_write_error (rq_call inp)) (w @ [Protected]) (Some page)" "s' = s\<lparr>ap_server := sv\<rparr>"
          by auto
        from handled [OF r True Inr this(1) d this(2)] show thesis .
      next
        case (Some err)
        with serving have "a = Documents e w None" "s' = s" by auto
        moreover have "status [Body 400 b] \<in> {Some 400, Some 401}" for b by simp
        with w Some have "status w \<in> {Some 400, Some 401}" by blast
        ultimately show thesis by (rule refused)
      qed
    qed
  qed
qed

text \<open>The paths below \<^verbatim>\<open>/documents\<close> lead to guarded routes only.\<close>

definition documents_path :: "string \<Rightarrow> bool" where
  "documents_path p \<longleftrightarrow> (case Split CHR ''/'' p of first # second # _ \<Rightarrow> first = [] \<and> second = ''documents'' | _ \<Rightarrow> False)"

lemma documents_path_guarded:
  assumes "router_documented router" "documents_path p" "router server_routes m p = Some (r, i)"
  shows "rt_guarded r"
proof -
  have match: "r \<in> set server_routes" "components_match (Split CHR ''/'' (rt_path r)) (Split CHR ''/'' p) i"
    using assms(1,3) unfolding router_documented_def by blast+
  have table: "\<forall>r \<in> set server_routes. rt_guarded r \<or>
      (case Split CHR ''/'' (rt_path r) of first # second # _ \<Rightarrow> second \<noteq> '':id'' \<and> second \<noteq> ''documents'' | _ \<Rightarrow> True)" by code_simp
  obtain rest where p: "Split CHR ''/'' p = [] # ''documents'' # rest"
    using assms(2) by (auto simp: documents_path_def split: list.splits)
  show ?thesis
  proof (rule ccontr)
    assume "\<not> rt_guarded r"
    with table match(1) have "case Split CHR ''/'' (rt_path r) of first # second # _ \<Rightarrow> second \<noteq> '':id'' \<and> second \<noteq> ''documents'' | _ \<Rightarrow> True"
      by blast
    with match(2) p show False by (cases "Split CHR ''/'' (rt_path r)" rule: list.exhaust; cases "tl (Split CHR ''/'' (rt_path r))") auto
  qed
qed

text \<open>C7: no document without a session: whatever a request asks for, if it presents no accepted session it
  runs no handler of documents and changes nothing but rate limits and accounts; and below
  \<^verbatim>\<open>/documents\<close> it is refused with 401 (or 400 when HTTPS is asked for) and changes nothing at all.\<close>

theorem no_document_without_session:
  assumes "newAuthenticator ParseCIDR ParseDuration env True = Inr (dp_auth dp)" and "router_documented router"
    and "claimsFromRequest (dp_lib dp) (dp_auth dp) (rq_call inp) request (ap_users s) = Inl e"
    and "serve dp router inp meth target request s = (a, s')"
  shows "(\<forall>e w page. a \<noteq> Documents e w (Some page)) \<and>
    (\<exists>bs. ap_server s' = (ap_server s)\<lparr>sv_db := (sv_db (ap_server s))\<lparr>rate_limit_buckets := bs\<rparr>\<rparr>) \<and>
    (documents_path target \<longrightarrow> s' = s \<and>
      (a = Unrouted \<or> (\<exists>e w. a = Documents e w None \<and> status w \<in> {Some 400, Some 401})))"
  using assms(1,4)
proof (cases rule: serve_cases)
  case (outside bs)
  have "a = Unrouted \<and> s' = s" if "documents_path target"
    using outside(3,4) documents_path_guarded [OF assms(2) that] by (cases "router server_routes meth target") auto
  with outside(1,2) show ?thesis by auto
next
  case (refused e w)
  then have "ap_server s' = (ap_server s)\<lparr>sv_db := (sv_db (ap_server s))\<lparr>rate_limit_buckets := rate_limit_buckets (sv_db (ap_server s))\<rparr>\<rparr>" by simp
  with refused show ?thesis by blast
next
  case handled
  with assms(3) show ?thesis by simp
qed

lemma no_document_without_session_witness:
  "serve sample_deployment sample_router sample_inputs ''DELETE'' ''/documents/a'' (sample_request ''1.2.3.4:5'' [] sample_credentials) sample_api =
     (Documents None [Body 401 [(''error'', ''authentication required'')]] None, sample_api)"
proof -
  let ?q = "sample_request ''1.2.3.4:5'' [] sample_credentials"
  let ?serve = "serve sample_deployment sample_router sample_inputs ''DELETE'' ''/documents/a'' ?q sample_api"
  obtain a s' where call: "?serve = (a, s')" by force
  have anon: "claimsFromRequest (dp_lib sample_deployment) (dp_auth sample_deployment) (rq_call sample_inputs) ?q (ap_users sample_api) =
      Inl ''missing authentication cookie''"
    by (simp add: claimsFromRequest_def sample_request_def)
  have "documents_path ''/documents/a''" by code_simp
  with no_document_without_session [OF sample_deployment_auth sample_router_documented anon call] have "s' = sample_api" by blast
  moreover have "fst ?serve = Documents None [Body 401 [(''error'', ''authentication required'')]] None" by code_simp
  ultimately show ?thesis using call by simp
qed

lemma document_handler_confined:
  assumes "tenancy (sv_db sv)" "document_handler dp inp meth request e i u sv = (page, sv')"
  shows "confined u (sv_db sv) (sv_db sv')"
  using assms(2) confined_refl [OF assms(1)] Upload_confined [OF assms(1)] Delete_handler_confined [OF assms(1)]
    Retry_handler_confined [OF assms(1)] Ask_confined [OF assms(1)]
  by (cases e) (auto simp: document_handler_def split: prod.splits)

lemma serve_confined:
  assumes "newAuthenticator ParseCIDR ParseDuration env True = Inr (dp_auth dp)" and "tenancy (sv_db (ap_server s))"
    and "serve dp router inp meth target request s = (a, s')"
    and "\<forall>claims. claimsFromRequest (dp_lib dp) (dp_auth dp) (rq_call inp) request (ap_users s) = Inr claims \<longrightarrow> cl_Subject claims \<noteq> v"
  shows "account_part v (sv_db (ap_server s')) = account_part v (sv_db (ap_server s)) \<and> tenancy (sv_db (ap_server s'))"
  using assms(1,3)
proof (cases rule: serve_cases)
  case (outside bs)
  have "same_content (sv_db (ap_server s)) (sv_db (ap_server s'))" by (simp add: outside(1))
  with same_content_confined [OF assms(2)] have "confined u (sv_db (ap_server s)) (sv_db (ap_server s'))" for u by blast
  from this [of "CHR ''x'' # v"] show ?thesis by (auto simp: confined_def)
next
  case refused
  with assms(2) show ?thesis by simp
next
  case (handled r i w claims page sv)
  from document_handler_confined [OF assms(2) handled(5)] assms(4) handled(3,6) show ?thesis
    by (auto simp: confined_def)
qed

text \<open>C6: accounts are kept apart: a request changes no document, no chunk and no question of any account but
  the one its session names, whatever it asks for and however the calls it makes fail, and nothing of
  anybody's when it has no session.\<close>

theorem requests_stay_in_account:
  assumes "newAuthenticator ParseCIDR ParseDuration env True = Inr (dp_auth dp)" and "tenancy (sv_db (ap_server s))"
    and "serve dp router inp meth target request s = (a, s')"
    and "\<forall>claims. claimsFromRequest (dp_lib dp) (dp_auth dp) (rq_call inp) request (ap_users s) = Inr claims \<longrightarrow> cl_Subject claims \<noteq> v"
  shows "account_part v (sv_db (ap_server s')) = account_part v (sv_db (ap_server s)) \<and> tenancy (sv_db (ap_server s'))"
  by (rule serve_confined [OF assms])

text \<open>The account \<^verbatim>\<open>u1\<close> asks for the document of \<^verbatim>\<open>o\<close> to be deleted.\<close>

lemma requests_stay_in_account_witness:
  "case serve sample_deployment sample_router sample_inputs ''DELETE'' ''/documents/a'' (with_cookie sample_cookie) sample_api of
     (a, s') \<Rightarrow> account_part ''o'' (sv_db (ap_server s')) = ([sample_stranger], [], [])"
proof -
  obtain a s' where call: "serve sample_deployment sample_router sample_inputs ''DELETE'' ''/documents/a'' (with_cookie sample_cookie) sample_api = (a, s')"
    by force
  have "account_part ''o'' (sv_db (ap_server s')) = account_part ''o'' (sv_db (ap_server sample_api))"
    using requests_stay_in_account [OF sample_deployment_auth sample_api_tenancy call, of "''o''"]
    by (simp add: sample_deployment_session sample_subject)
  with call show ?thesis by (simp add: sample_api_part)
qed

text \<open>The same for the stored files: an upload under a new identifier and every other request leave the
  file of each document of another account as it is.\<close>

theorem files_stay_in_account:
  assumes "newAuthenticator ParseCIDR ParseDuration env True = Inr (dp_auth dp)" and "tenancy (sv_db (ap_server s))"
    and "storage_documented (dp_storage dp) view" and "stored_ok (sv_db (ap_server s))" and "stores_ok (dp_storage dp) view (sv_files (ap_server s))"
    and "serve dp router inp meth target request s = (a, s')"
    and "\<forall>claims. claimsFromRequest (dp_lib dp) (dp_auth dp) (rq_call inp) request (ap_users s) = Inr claims \<longrightarrow> cl_Subject claims \<noteq> v"
    and "\<forall>i. documentID (cx_random (rq_conditions inp)) = Some i \<longrightarrow> plain_name i \<and> row (sv_db (ap_server s)) i = None"
    and "r \<in> set (documents (sv_db (ap_server s)))" and "doc_OwnerID r = v"
  shows "held_at (dp_storage dp) view (sv_files (ap_server s')) (doc_StoredPath r) =
      held_at (dp_storage dp) view (sv_files (ap_server s)) (doc_StoredPath r) \<and>
    stores_ok (dp_storage dp) view (sv_files (ap_server s'))"
proof -
  let ?fs = "sv_files (ap_server s)" and ?fs' = "sv_files (ap_server s')" and ?st = "dp_storage dp"
  have key: "plain_name (doc_ID r)" "doc_StoredPath r = storedPath (doc_ID r)" using assms(4,9) by (simp_all add: stored_ok_def)
  have mine: "x = r" if "x \<in> set (documents (sv_db (ap_server s)))" "doc_ID x = doc_ID r" for x
    using same_key_same_row [OF keys_ok_docs that(1) assms(9) that(2)] assms(2) by (simp add: tenancy_def)
  have "?fs' = ?fs \<or> (\<exists>i. i \<noteq> doc_ID r \<and> files_but ?st view i ?fs ?fs')"
    using assms(1,6)
  proof (cases rule: serve_cases)
    case (handled x i w claims page sv)
    show ?thesis
    proof (cases "rt_endpoint x = Upload_Endpoint")
      case True
      let ?cx = "rq_conditions inp"
      obtain a where up: "Upload (dp_kind dp) (dp_accepts dp) ?st ?cx (cl_Subject claims) (rq_upload inp) (ap_server s) = (a, sv)"
        using handled(5) True by (auto simp: document_handler_def split: prod.splits)
      have plain: "documentID (cx_random ?cx) = Some j \<Longrightarrow> plain_name j" for j using assms(8) by blast
      show ?thesis
      proof (cases "documentID (cx_random ?cx)")
        case None
        with Upload_files [OF assms(3,5) plain up] handled(6) show ?thesis by simp
      next
        case (Some j)
        then have "row (sv_db (ap_server s)) j = None" using assms(8) by blast
        then have "j \<noteq> doc_ID r" using assms(9) by (auto simp: row_None)
        with Some Upload_files [OF assms(3,5) plain up] handled(6) show ?thesis by auto
      qed
    next
      case no_upload: False
      show ?thesis
      proof (cases "rt_endpoint x = Delete_Endpoint")
        case True
        obtain b where del: "Delete_handler (dp_kind dp) ?st (rq_up inp) (rq_up' inp) (rq_now inp) (rq_storage inp) (cl_Subject claims) i (ap_server s) = (b, sv)"
          using handled(5) True by (auto simp: document_handler_def split: prod.splits)
        have "i \<noteq> doc_ID r" if "q \<in> set (documents (sv_db (ap_server s)))" "doc_ID q = i" "doc_OwnerID q = cl_Subject claims" for q
          using that mine assms(7,10) handled(3) by metis
        with Delete_handler_files [OF assms(3,5,4) del] handled(6) show ?thesis by auto
      next
        case False
        with no_upload handled(5) have "sv_files sv = ?fs"
          by (cases "rt_endpoint x") (auto simp: document_handler_def dest: Ask_files split: prod.splits)
        with handled(6) show ?thesis by simp
      qed
    qed
  qed simp_all
  then show ?thesis
    using assms(5) document_key_storedPath [OF key(1)] by (auto simp: files_but_def storedPath_inj key(2))
qed

text \<open>The account \<^verbatim>\<open>u1\<close> uploads, beside the stored file of \<^verbatim>\<open>o\<close>.\<close>

lemma files_stay_in_account_witness:
  "case serve sample_deployment sample_router sample_inputs ''POST'' ''/documents'' (with_cookie sample_cookie) sample_api of
     (a, s') \<Rightarrow> held_at sample_local sample_view (sv_files (ap_server s')) (storedPath ''a'') =
       held_at sample_local sample_view sample_orphans (storedPath ''a'')"
proof -
  obtain a s' where call: "serve sample_deployment sample_router sample_inputs ''POST'' ''/documents'' (with_cookie sample_cookie) sample_api = (a, s')"
    by force
  have ok: "storage_documented (dp_storage sample_deployment) sample_view" "stored_ok (sv_db (ap_server sample_api))"
    "stores_ok (dp_storage sample_deployment) sample_view (sv_files (ap_server sample_api))"
    "\<forall>i. documentID (cx_random (rq_conditions sample_inputs)) = Some i \<longrightarrow> plain_name i \<and> row (sv_db (ap_server sample_api)) i = None"
    "sample_stranger \<in> set (documents (sv_db (ap_server sample_api)))"
    using sample_orphans_ok sample_documented(1)
    by (simp_all add: stored_ok_def sample_api_def sample_deployment_def sample_inputs_def sample_stranger_fields sample_documentID
        plain_name_def row_def)
  note here = sample_deployment_auth sample_api_tenancy ok(1-3) call
  note there = ok(4,5) sample_stranger_fields(2)
  have "\<forall>claims. claimsFromRequest (dp_lib sample_deployment) (dp_auth sample_deployment) (rq_call sample_inputs)
      (with_cookie sample_cookie) (ap_users sample_api) = Inr claims \<longrightarrow> cl_Subject claims \<noteq> ''o''"
    by (simp add: sample_deployment_session sample_subject)
  from files_stay_in_account [OF here this there] call show ?thesis
    by (simp add: sample_stranger_fields sample_deployment_def sample_api_def)
qed

end
