(* ===== verification/Server_Runs.thy ===== *)
theory Server_Runs
  imports Server
begin

text \<open>
  Runs of the server of \<open>Server\<close>: any requests of any clients, one after another, with the cookies the
  clients were given. What is proved of single requests, of sessions and of passwords comes together
  here: as long as nobody presents the password of an account, nothing of it changes.
\<close>

section \<open>Runs\<close>

type_synonym ('f, 'g, 'b) api_event = "('f, 'g) request_inputs \<times> string \<times> string \<times> 'b request"

fun api_run :: "('ip, 'net, 'b, 'f, 'o :: linorder, 'g, 's) deployment \<Rightarrow> router \<Rightarrow> ('f, 'g, 'b) api_event list \<Rightarrow> 's api \<Rightarrow> 's api" where
  "api_run dp router [] s = s"
| "api_run dp router ((inp, meth, target, q) # es) s = (case serve dp router inp meth target q s of (_, s') \<Rightarrow> api_run dp router es s')"

text \<open>The token a client is given with what came back.\<close>

fun handed_by :: "served \<Rightarrow> string option" where
  "handed_by (Replied e w) = handed w"
| "handed_by (Documents e w page) = handed w"
| "handed_by _ = None"

text \<open>Cookies come from somewhere: each is one of the known tokens or one that was handed out before.\<close>

fun cookies_known :: "('ip, 'net, 'b, 'f, 'o :: linorder, 'g, 's) deployment \<Rightarrow> router \<Rightarrow> string list \<Rightarrow> ('f, 'g, 'b) api_event list \<Rightarrow> 's api \<Rightarrow> bool" where
  "cookies_known dp router known [] s = True"
| "cookies_known dp router known ((inp, meth, target, q) # es) s =
     ((case req_Cookie q authCookie of None \<Rightarrow> True | Some tok \<Rightarrow> tok = [] \<or> tok \<in> set known) \<and>
      (case serve dp router inp meth target q s of (a, s') \<Rightarrow>
         cookies_known dp router (case handed_by a of None \<Rightarrow> known | Some tok \<Rightarrow> tok # known) es s'))"

text \<open>A registration or login with the address and the password of the account \<open>v\<close>, as the accounts
  are afterwards.\<close>

definition password_presented :: "('ip, 'net, 'b) auth_lib \<Rightarrow> 'b request \<Rightarrow> authUser list \<Rightarrow> string \<Rightarrow> bool" where
  "password_presented lib q users v =
     (case decodeCredentials lib q of
        Decoded credentials \<Rightarrow>
          list_ex (\<lambda>u. u_ID u = v \<and> u_Email u = normalizeEmail (cr_Email credentials) \<and>
            al_CompareHashAndPassword lib (u_PasswordHash u) (cr_Password credentials)) users
      | _ \<Rightarrow> False)"

definition account_call :: "router \<Rightarrow> string \<Rightarrow> string \<Rightarrow> auth_call option" where
  "account_call router meth target =
     (case router server_routes meth target of
        Some (r, i) \<Rightarrow> (if rt_guarded r then None else case rt_endpoint r of Account ac \<Rightarrow> Some ac | _ \<Rightarrow> None)
      | None \<Rightarrow> None)"

fun logged_in :: "('ip, 'net, 'b, 'f, 'o :: linorder, 'g, 's) deployment \<Rightarrow> router \<Rightarrow> string \<Rightarrow> ('f, 'g, 'b) api_event list \<Rightarrow> 's api \<Rightarrow> bool" where
  "logged_in dp router v [] s = False"
| "logged_in dp router v ((inp, meth, target, q) # es) s =
     (case serve dp router inp meth target q s of (_, s') \<Rightarrow>
        account_call router meth target \<in> {Some Register, Some Login} \<and> password_presented (dp_lib dp) q (ap_users s') v \<or>
        logged_in dp router v es s')"

text \<open>A token that is read as a session of the account \<open>v\<close> at some time.\<close>

definition token_names :: "('ip, 'net, 'b) auth_lib \<Rightarrow> 'net jwtAuthenticator \<Rightarrow> string \<Rightarrow> string \<Rightarrow> bool" where
  "token_names lib a v tok \<longleftrightarrow>
     (\<exists>now claims. al_ParseWithClaims lib (ja_secret a) (ja_issuer a) now tok = Some claims \<and> cl_Subject claims = v)"

section \<open>Tokens\<close>

text \<open>Whoever is handed a token has presented the password of the account it names.\<close>

lemma handed_password:
  assumes "auth_exec lib a (ac, inp, q) s = (err, w, s')" "handed w = Some tok" "bcrypt_documented lib"
  shows "ac \<in> {Register, Login} \<and> (\<exists>user. al_SignedString lib (ja_secret a) (session_claims a (ci_time inp) user) = Some tok \<and>
    password_presented lib q (as_users s') (u_ID user))"
proof -
  obtain user where user: "al_SignedString lib (ja_secret a) (session_claims a (ci_time inp) user) = Some tok"
    "Body 200 [(''subject'', u_ID user), (''email'', u_Email user)] \<in> set w"
  proof (cases ac)
    case Register
    with assms(1) have "register lib a inp q s = (err, w, s')" by simp
    then show thesis
    proof (cases rule: register_cases)
      case (created credentials hash w0)
      from handed_authenticate [OF created(5,6) assms(2)] that show thesis by blast
    qed (use assms(2) in simp)
  next
    case Login
    with assms(1) have "login lib a inp q s = (err, w, s')" by simp
    then show thesis
    proof (cases rule: login_cases)
      case (admitted credentials user w0)
      from handed_authenticate [OF admitted(6,7) assms(2)] that show thesis by blast
    qed (use assms(2) in simp)
  next
    case CurrentSession
    with assms show thesis using handed_credentials [OF assms] by auto
  next
    case Logout
    with assms show thesis using handed_credentials [OF assms] by auto
  qed
  from handed_credentials [OF assms] obtain credentials user' where "ac \<in> {Register, Login}"
    "decodeCredentials lib q = Decoded credentials" "user' \<in> set (as_users s')"
    "u_Email user' = normalizeEmail (cr_Email credentials)"
    "al_CompareHashAndPassword lib (u_PasswordHash user') (cr_Password credentials)"
    "\<And>b. Body 200 b \<in> set w \<longleftrightarrow> b = [(''subject'', u_ID user'), (''email'', u_Email user')]"
    by metis
  moreover from this(6) user(2) have "u_ID user' = u_ID user" by simp
  ultimately have "ac \<in> {Register, Login}" "password_presented lib q (as_users s') (u_ID user)"
    by (auto simp: password_presented_def list_ex_iff)
  with user(1) show ?thesis by blast
qed

lemma signed_names:
  assumes "jwt_documented lib" "ja_issuer a \<noteq> []" "al_SignedString lib (ja_secret a) (session_claims a t user) = Some tok"
    and "token_names lib a v tok"
  shows "u_ID user = v"
  using assms by (auto simp: token_names_def jwt_documented_def session_claims_def split: if_splits)

text \<open>The middleware and the handlers behind it set no cookie.\<close>

lemma documents_hand_nothing:
  assumes "serve dp router inp meth target q s = (Documents e w page, s')"
  shows "handed w = None"
proof -
  obtain r i where r: "router server_routes meth target = Some (r, i)" using assms by (auto simp: serve_def split: option.splits)
  with assms have "serve_route dp inp meth q r i s = (Documents e w page, s')" by (simp add: serve_def)
  moreover have "handed ([Protected]) = None" "handed (w @ [Protected]) = handed w" for w by (simp, induction w rule: handed.induct) auto
  ultimately show ?thesis
    by (auto simp: serve_route_def middleware_def requireHTTPSRequest_def JSON_def Let_def
        split: if_splits prod.splits option.splits sum.splits endpoint.splits)
qed

lemma serve_hands:
  assumes "serve dp router inp meth target q s = (a, s')" "handed_by a = Some tok"
  obtains ac e w st where "account_call router meth target = Some ac"
    "auth_exec (dp_lib dp) (dp_auth dp) (ac, rq_call inp, q) (account_state s) = (e, w, st)" "handed w = Some tok"
    "ap_users s' = as_users st"
proof (cases a)
  case (Replied e w)
  with assms(2) have h: "handed w = Some tok" by simp
  from assms(1) Replied obtain r i where r: "router server_routes meth target = Some (r, i)" by (auto simp: serve_def split: option.splits)
  with assms(1) Replied have sr: "serve_route dp inp meth q r i s = (Replied e w, s')" by (simp add: serve_def)
  then have g: "\<not> rt_guarded r" by (auto simp: serve_route_def Let_def split: prod.splits)
  show thesis
  proof (cases "\<exists>ac. rt_endpoint r = Account ac")
    case True
    then obtain ac where ac: "rt_endpoint r = Account ac" by blast
    obtain e1 w1 st where x: "auth_exec (dp_lib dp) (dp_auth dp) (ac, rq_call inp, q) (account_state s) = (e1, w1, st)" using prod_cases3 by blast
    with sr g ac have "w1 = w" "s' = with_account_state st s" by (simp_all add: serve_route_def)
    with that [of ac] x h r g ac show thesis by (simp add: account_call_def with_account_state_def)
  next
    case False
    with sr g h show thesis
      by (cases "rt_endpoint r") (auto simp: serve_route_def JSON_def Let_def ready_def split: if_splits)
  qed
next
  case (Documents e w page)
  with documents_hand_nothing assms show thesis by fastforce
qed (use assms(2) in simp_all)

section \<open>Nothing changes without the password\<close>

lemma run_confined:
  assumes auth: "newAuthenticator ParseCIDR ParseDuration env True = Inr (dp_auth dp)"
    and lib: "jwt_documented (dp_lib dp)" "bcrypt_documented (dp_lib dp)"
  shows "tenancy (sv_db (ap_server s)) \<Longrightarrow> \<forall>tok \<in> set known. \<not> token_names (dp_lib dp) (dp_auth dp) v tok \<Longrightarrow>
    cookies_known dp router known es s \<Longrightarrow> \<not> logged_in dp router v es s \<Longrightarrow>
    account_part v (sv_db (ap_server (api_run dp router es s))) = account_part v (sv_db (ap_server s)) \<and>
    tenancy (sv_db (ap_server (api_run dp router es s)))"
proof (induction es arbitrary: known s)
  case (Cons ev es)
  obtain inp meth target q where ev: "ev = (inp, meth, target, q)" using prod_cases4 by blast
  obtain a s' where st: "serve dp router inp meth target q s = (a, s')" by force
  have "cl_Subject claims \<noteq> v" if "claimsFromRequest (dp_lib dp) (dp_auth dp) (rq_call inp) q (ap_users s) = Inr claims" for claims
  proof -
    from that obtain tok where tok: "req_Cookie q authCookie = Some tok" "tok \<noteq> []"
      "al_ParseWithClaims (dp_lib dp) (ja_secret (dp_auth dp)) (ja_issuer (dp_auth dp)) (ci_time (rq_call inp)) tok = Some claims"
      by (auto simp: claimsFromRequest_def split: option.splits if_splits)
    with Cons.prems(3) have "tok \<in> set known" by (simp add: ev)
    with Cons.prems(2) tok(3) show ?thesis by (auto simp: token_names_def)
  qed
  with serve_confined [OF auth Cons.prems(1) st, of v] have here:
    "account_part v (sv_db (ap_server s')) = account_part v (sv_db (ap_server s))" "tenancy (sv_db (ap_server s'))" by blast+
  let ?known = "case handed_by a of None \<Rightarrow> known | Some tok \<Rightarrow> tok # known"
  have "\<not> token_names (dp_lib dp) (dp_auth dp) v tok" if "handed_by a = Some tok" for tok
  proof
    assume names: "token_names (dp_lib dp) (dp_auth dp) v tok"
    from serve_hands [OF st that] obtain ac e w st' where h: "account_call router meth target = Some ac"
      "auth_exec (dp_lib dp) (dp_auth dp) (ac, rq_call inp, q) (account_state s) = (e, w, st')" "handed w = Some tok" "ap_users s' = as_users st'" .
    from handed_password [OF h(2,3) lib(2)] obtain user where u: "ac \<in> {Register, Login}"
      "al_SignedString (dp_lib dp) (ja_secret (dp_auth dp)) (session_claims (dp_auth dp) (ci_time (rq_call inp)) user) = Some tok"
      "password_presented (dp_lib dp) q (ap_users s') (u_ID user)" unfolding h(4) by blast
    from signed_names [OF lib(1) newAuthenticator_with_database(5) [OF auth] u(2) names] u(1,3) h(1)
    have "logged_in dp router v (ev # es) s" by (auto simp: ev st)
    with Cons.prems(4) show False by contradiction
  qed
  with Cons.prems(2) have "\<forall>tok \<in> set ?known. \<not> token_names (dp_lib dp) (dp_auth dp) v tok" by (auto split: option.splits)
  moreover have "cookies_known dp router ?known es s'" "\<not> logged_in dp router v es s'"
    using Cons.prems(3,4) by (simp_all add: ev st)
  ultimately have "account_part v (sv_db (ap_server (api_run dp router es s'))) = account_part v (sv_db (ap_server s')) \<and>
      tenancy (sv_db (ap_server (api_run dp router es s')))"
    using Cons.IH [OF here(2)] by blast
  with here(1) show ?case by (simp add: ev st)
qed simp



end
