(* ===== verification/Startup.thy ===== *)
theory Startup
  imports Server
begin

text \<open>
  The start of the API (\<^verbatim>\<open>main\<close>, \<^verbatim>\<open>uploadDirectory\<close>, \<^verbatim>\<open>configuredDocumentStorage\<close>,
  \<^verbatim>\<open>newServerWithMetrics\<close> of \<^verbatim>\<open>api/main.go\<close>; \<^verbatim>\<open>api/migrations.go\<close>; \<^verbatim>\<open>openDocumentStore\<close> of
  \<^verbatim>\<open>api/database.go\<close>; \<^verbatim>\<open>embeddingDimensions\<close>, \<^verbatim>\<open>asDocumentStorage\<close> of \<^verbatim>\<open>api/worker.go\<close>): what is
  read from the environment, in which order things are checked and opened, and which failure stops the
  start. Goose, the database driver, the address and duration parsers and the bucket client are
  arguments, collected in a record.
\<close>

section \<open>Scanning numbers\<close>

text \<open>\<^verbatim>\<open>fmt.Sscanf\<close> with the format \<^verbatim>\<open>%d\<close>: white space is skipped, where a new line is an error; the
  longest run of digits is the number, and what follows it is not looked at.\<close>

definition new_line :: char where "new_line = char_of (10 :: nat)"

fun skip_space :: "string \<Rightarrow> string option" where
  "skip_space [] = Some []"
| "skip_space (c # s) = (if c = new_line then None else if is_space c then skip_space s else Some (c # s))"

definition Sscanf_uint32 :: "string \<Rightarrow> 32 word option" where
  "Sscanf_uint32 s =
     (case skip_space s of
        None \<Rightarrow> None
      | Some r \<Rightarrow>
          (let tok = takeWhile is_digit r
           in if tok = [] then None
              else case parse_digits 0 tok of
                  Inl e \<Rightarrow> None
                | Inr i \<Rightarrow> (if i < 2 ^ 32 then Some (word_of_int i) else None)))"

definition Sscanf_int :: "string \<Rightarrow> int option" where
  "Sscanf_int s =
     (case skip_space s of
        None \<Rightarrow> None
      | Some r \<Rightarrow>
          (let sign = (if r \<noteq> [] \<and> hd r \<in> {CHR ''+'', CHR ''-''} then [hd r] else []);
               tok = takeWhile is_digit (drop (length sign) r)
           in if tok = [] then None
              else case ParseInt (sign @ tok) of (i, e) \<Rightarrow> (if e \<noteq> None then None else Some i)))"

definition embeddingDimensions :: "environment \<Rightarrow> 32 word" where
  "embeddingDimensions env =
     (let v = env ''EMBEDDING_DIMENSIONS''
      in if v \<noteq> []
         then (case Sscanf_uint32 v of Some dimensions \<Rightarrow> (if dimensions > 0 then dimensions else maxEmbeddingDimensions)
               | None \<Rightarrow> maxEmbeddingDimensions)
         else maxEmbeddingDimensions)"

lemma skip_space_append:
  "list_all (\<lambda>c. is_space c \<and> c \<noteq> new_line) spaces \<Longrightarrow> skip_space (spaces @ s) = skip_space s"
  by (induction spaces) auto

lemma digit_no_space: "is_digit c \<Longrightarrow> \<not> is_space c \<and> c \<noteq> new_line"
  by (auto simp: is_digit_def is_space_def new_line_def)

text \<open>The setting is the number it begins with: white space before it and anything after it is ignored,
  and a number that is zero or does not fit 32 bits counts as the default.\<close>

theorem dimensions_setting:
  assumes "env ''EMBEDDING_DIMENSIONS'' = spaces @ ds @ rest" and "list_all (\<lambda>c. is_space c \<and> c \<noteq> new_line) spaces"
    and "list_all is_digit ds" and "rest = [] \<or> \<not> is_digit (hd rest)" and "ds \<noteq> []"
  shows "embeddingDimensions env =
    (if 0 < decimal ds \<and> decimal ds < 2 ^ 32 then word_of_int (decimal ds) else maxEmbeddingDimensions)"
proof -
  from assms(5) obtain c cs where ds: "ds = c # cs" by (cases ds) auto
  with assms(3) have c: "is_digit c" by simp
  have "takeWhile is_digit (ds @ rest) = ds"
    using assms(3,4) by (cases rest) (auto simp: takeWhile_append2 list_all_iff takeWhile_tail)
  moreover have "skip_space (ds @ rest) = Some (ds @ rest)" using digit_no_space [OF c] by (simp add: ds)
  ultimately have scan: "Sscanf_uint32 (env ''EMBEDDING_DIMENSIONS'') =
      (if decimal ds < 2 ^ 32 then Some (word_of_int (decimal ds)) else None)"
    using parse_digits_digits [of 0 ds] assms(3,5)
    by (simp add: assms(1) Sscanf_uint32_def skip_space_append [OF assms(2)] Let_def)
  have ge: "0 \<le> decimal ds" using decimal_from_ge [of 0 ds] assms(3) by simp
  have "0 < (word_of_int (decimal ds) :: 32 word) \<longleftrightarrow> 0 < decimal ds" if "decimal ds < 2 ^ 32"
    using that ge by (simp add: word_less_def uint_word_of_int take_bit_int_eq_self)
  with scan assms(5) show ?thesis by (simp add: embeddingDimensions_def assms(1) Let_def)
qed

lemma dimensions_setting_witness:
  "embeddingDimensions ((\<lambda>_. [])(''EMBEDDING_DIMENSIONS'' := '' 768.5 or so'')) = 768 \<and>
   embeddingDimensions ((\<lambda>_. [])(''EMBEDDING_DIMENSIONS'' := ''4294967296'')) = 768"
proof -
  have "list_all (\<lambda>c. is_space c \<and> c \<noteq> new_line) '' ''" "list_all is_digit ''768''" "list_all is_digit ''4294967296''"
    "decimal ''768'' = 768" "decimal ''4294967296'' = 4294967296" "\<not> is_digit CHR ''.''" by code_simp+
  then show ?thesis
    using dimensions_setting [of "(\<lambda>_. [])(''EMBEDDING_DIMENSIONS'' := '' 768.5 or so'')" "'' ''" "''768''" "''.5 or so''"]
      dimensions_setting [of "(\<lambda>_. [])(''EMBEDDING_DIMENSIONS'' := ''4294967296'')" "[]" "''4294967296''" "[]"]
    by (simp add: maxEmbeddingDimensions_def)
qed

section \<open>The upload directory\<close>

text \<open>\<^verbatim>\<open>filepath.Clean\<close> of any path, and \<^verbatim>\<open>filepath.Join\<close>. Two dots at the front of a path that
  does not start at the root stay.\<close>

definition clean_component :: "bool \<Rightarrow> path \<Rightarrow> string \<Rightarrow> path" where
  "clean_component rooted cs c =
     (if c = [] \<or> c = ''.'' then cs
      else if c = ''..'' then
        (if cs \<noteq> [] \<and> last cs \<noteq> ''..'' then butlast cs else if rooted then cs else cs @ [''..''])
      else cs @ [c])"

definition Clean :: "string \<Rightarrow> string" where
  "Clean p =
     (let rooted = (p \<noteq> [] \<and> hd p = CHR ''/''); cs = foldl (clean_component rooted) [] (Split CHR ''/'' p)
      in if rooted then CHR ''/'' # slash_join cs else if cs = [] then ''.'' else slash_join cs)"

definition Join :: "string list \<Rightarrow> string" where
  "Join parts =
     (let parts = filter (\<lambda>p. p \<noteq> []) parts
      in if parts = [] then [] else Clean (slash_join parts))"

definition uploadDirectory :: "string + string \<Rightarrow> environment \<Rightarrow> string + string" where
  "uploadDirectory home env =
     (if env ''UPLOAD_DIRECTORY'' \<noteq> [] then Inr (env ''UPLOAD_DIRECTORY'')
      else and_then
        (if env ''XDG_DATA_HOME'' = [] then and_then home (\<lambda>homeDirectory. Inr (Join [homeDirectory, ''.local'', ''share'']))
         else Inr (env ''XDG_DATA_HOME''))
        (\<lambda>dataDirectory. Inr (Join [dataDirectory, ''documind'', ''uploads''])))"

section \<open>The storage\<close>

text \<open>A relative directory is below the working directory \<open>cwd\<close>.\<close>

definition newFilesystemStorage :: "string \<Rightarrow> string \<Rightarrow> filesystemStorage" where
  "newFilesystemStorage cwd root =
     \<lparr>fs_root = clean_rooted (if root \<noteq> [] \<and> hd root = CHR ''/'' then root else cwd @ ''/'' @ root)\<rparr>"

definition configuredDocumentStorage ::
    "(string \<Rightarrow> string \<Rightarrow> string \<Rightarrow> bool \<Rightarrow> ('f, 's) minio_client option) \<Rightarrow> (open_point \<Rightarrow> 'f) \<Rightarrow> string \<Rightarrow> environment \<Rightarrow>
     string \<Rightarrow> 's stores \<Rightarrow> (string + ('f, 's) documentStorage) \<times> 's stores" where
  "configuredDocumentStorage new_client f cwd env directory ss =
     (if getenv env ''OBJECT_STORAGE_ENDPOINT'' [] \<noteq> []
      then (case newObjectStorage new_client f env (ss_bucket ss) of (r, s) \<Rightarrow> (map_sum id Bucket r, ss\<lparr>ss_bucket := s\<rparr>))
      else (Inr (Filesystem (newFilesystemStorage cwd directory)), ss))"

definition firstStorage :: "('f, 's) documentStorage list \<Rightarrow> ('f, 's) documentStorage option" where
  "firstStorage storages = (case storages of st # _ \<Rightarrow> Some st | [] \<Rightarrow> None)"

text \<open>What a worker may be given; anything else is a panic.\<close>

datatype ('f, 's) storage_input = Storage_Value "('f, 's) documentStorage" | String_Value string | Other_Value

fun asDocumentStorage :: "string \<Rightarrow> ('f, 's) storage_input \<Rightarrow> ('f, 's) documentStorage option" where
  "asDocumentStorage cwd (Storage_Value st) = Some st"
| "asDocumentStorage cwd (String_Value directory) = Some (Filesystem (newFilesystemStorage cwd directory))"
| "asDocumentStorage cwd Other_Value = None"

section \<open>The database\<close>

text \<open>What Goose and the driver do: the error of each call, and what the migrations do to the database
  given the owner set in the session. \<open>'m\<close> stands for Goose's own tables.\<close>

record 'm migration_library =
  ml_Open :: "string \<Rightarrow> string option"
  ml_Ping :: "string option"
  ml_SetDialect :: "string option"
  ml_SetOwner :: "string \<Rightarrow> string option"
  ml_Up :: "string option \<Rightarrow> 'm \<times> db \<Rightarrow> string option \<times> 'm \<times> db"

definition runMigrations :: "'m migration_library \<Rightarrow> environment \<Rightarrow> string \<Rightarrow> 'm \<times> db \<Rightarrow> string option \<times> 'm \<times> db" where
  "runMigrations lib env databaseURL w =
     (let legacy = env ''LEGACY_DOCUMENT_OWNER'' in
      case ml_Open lib databaseURL of Some e \<Rightarrow> (Some e, w) | None \<Rightarrow>
      case ml_Ping lib of Some e \<Rightarrow> (Some e, w) | None \<Rightarrow>
      case ml_SetDialect lib of Some e \<Rightarrow> (Some e, w) | None \<Rightarrow>
      case (if legacy \<noteq> [] then ml_SetOwner lib legacy else None) of Some e \<Rightarrow> (Some e, w) | None \<Rightarrow>
      case ml_Up lib (if legacy \<noteq> [] then Some legacy else None) w of
        (Some e, w) \<Rightarrow> (Some (''apply database migrations: '' @ e), w)
      | (None, w) \<Rightarrow> (None, w))"

text \<open>\<open>Inl\<close> is the panic, \<open>Inr\<close> whether the command was the one to migrate.\<close>

definition migrateCommand :: "'m migration_library \<Rightarrow> environment \<Rightarrow> string list \<Rightarrow> 'm \<times> db \<Rightarrow> (string + bool) \<times> 'm \<times> db" where
  "migrateCommand lib env args w =
     (if length args < 2 \<or> args ! 1 \<noteq> ''migrate'' then (Inr False, w)
      else case runMigrations lib env (env ''DATABASE_URL'') w of
          (Some e, w) \<Rightarrow> (Inl e, w)
        | (None, w) \<Rightarrow> (Inr True, w))"

record pool_settings =
  ps_MaxOpenConns :: int
  ps_MaxIdleConns :: int
  ps_ConnMaxLifetime :: duration
  ps_ConnMaxIdleTime :: duration

text \<open>What happens while the store is opened: the errors of the driver, and whether each of the two steps
  of \<^verbatim>\<open>initialize\<close> reaches the database.\<close>

record open_conditions =
  oc_Open :: "string \<Rightarrow> string option"
  oc_DB :: "string option"
  oc_Ping :: "string option"
  oc_up_seed :: bool
  oc_up_recover :: bool
  oc_sql_time :: time
  oc_time :: time

datatype open_error = Driver_Error string | Initialize_Error error

definition pool_of :: "(string \<Rightarrow> duration option) \<Rightarrow> environment \<Rightarrow> pool_settings" where
  "pool_of ParseDuration env =
     \<lparr>ps_MaxOpenConns = environmentIntDefault Sscanf_int env ''DB_MAX_OPEN_CONNS'' 25,
      ps_MaxIdleConns = environmentIntDefault Sscanf_int env ''DB_MAX_IDLE_CONNS'' 5,
      ps_ConnMaxLifetime = environmentDurationDefault ParseDuration env ''DB_CONN_MAX_LIFETIME'' (30 * time_Minute),
      ps_ConnMaxIdleTime = environmentDurationDefault ParseDuration env ''DB_CONN_MAX_IDLE_TIME'' (5 * time_Minute)\<rparr>"

definition initialize_store :: "open_conditions \<Rightarrow> unit op" where
  "initialize_store oc d =
     (if \<not> oc_up_seed oc then (Inl ErrUnavailable, d)
      else case seed_usages (oc_sql_time oc) d of
          Inl e \<Rightarrow> (Inl e, d)
        | Inr d \<Rightarrow> with_connection (oc_up_recover oc) (RecoverExpiredReservations (oc_time oc)) d)"

definition openDocumentStore ::
    "(string \<Rightarrow> duration option) \<Rightarrow> open_conditions \<Rightarrow> environment \<Rightarrow> string \<Rightarrow> db \<Rightarrow> (open_error + pool_settings) \<times> db" where
  "openDocumentStore ParseDuration oc env databaseURL d =
     (case oc_Open oc databaseURL of Some e \<Rightarrow> (Inl (Driver_Error e), d) | None \<Rightarrow>
      case oc_DB oc of Some e \<Rightarrow> (Inl (Driver_Error e), d) | None \<Rightarrow>
      let pool = pool_of ParseDuration env in
      case oc_Ping oc of Some e \<Rightarrow> (Inl (Driver_Error e), d) | None \<Rightarrow>
      case initialize_store oc d of
        (Inl e, d) \<Rightarrow> (Inl (Initialize_Error e), d)
      | (Inr _, d) \<Rightarrow> (Inr pool, d))"

text \<open>\<^verbatim>\<open>Ping\<close> of an open store.\<close>

definition Ping :: "string option \<Rightarrow> string option \<Rightarrow> string option" where
  "Ping db_error ping_error = (case db_error of Some e \<Rightarrow> Some e | None \<Rightarrow> ping_error)"

section \<open>The server\<close>

record ('f, 's) documentHandler =
  hd_uploadDirectory :: string
  hd_store :: store_kind
  hd_storage :: "('f, 's) documentStorage"
  hd_admission :: admissionController
  hd_metrics :: metrics

definition newDocumentHandlerWithMetrics ::
    "string \<Rightarrow> store_kind \<Rightarrow> ('f, 's) documentStorage \<Rightarrow> metrics \<Rightarrow> ('f, 's) documentHandler" where
  "newDocumentHandlerWithMetrics directory kind storage collector =
     \<lparr>hd_uploadDirectory = directory, hd_store = kind, hd_storage = storage, hd_admission = newAdmissionController, hd_metrics = collector\<rparr>"

definition newDocumentHandler ::
    "string \<Rightarrow> string \<Rightarrow> store_kind \<Rightarrow> ('f, 's) documentStorage list \<Rightarrow> ('f, 's) documentHandler" where
  "newDocumentHandler cwd directory kind storages =
     newDocumentHandlerWithMetrics directory kind
       (case storages of [] \<Rightarrow> Filesystem (newFilesystemStorage cwd directory) | storage # _ \<Rightarrow> storage) newMetrics"

record ('net, 'f, 's) built_server =
  bs_handler :: "('f, 's) documentHandler"
  bs_auth :: "'net jwtAuthenticator"
  bs_routes :: "route list"

text \<open>The authenticator gets the database when the store is the one for PostgreSQL.\<close>

definition newServerWithMetrics ::
    "(string \<Rightarrow> 'net option) \<Rightarrow> (string \<Rightarrow> duration option) \<Rightarrow> string \<Rightarrow> environment \<Rightarrow> string \<Rightarrow> store_kind \<Rightarrow> bool \<Rightarrow>
     ('f, 's) documentStorage option \<Rightarrow> metrics \<Rightarrow> string + ('net, 'f, 's) built_server" where
  "newServerWithMetrics ParseCIDR ParseDuration cwd env directory kind postgres storage m =
     (let storage = (case storage of None \<Rightarrow> Filesystem (newFilesystemStorage cwd directory) | Some st \<Rightarrow> st);
          handler = newDocumentHandlerWithMetrics directory kind storage m
      in and_then (newAuthenticator ParseCIDR ParseDuration env postgres) (\<lambda>auth.
           Inr \<lparr>bs_handler = handler, bs_auth = auth, bs_routes = server_routes\<rparr>))"

definition newServer ::
    "(string \<Rightarrow> 'net option) \<Rightarrow> (string \<Rightarrow> duration option) \<Rightarrow> string \<Rightarrow> environment \<Rightarrow> string \<Rightarrow> store_kind \<Rightarrow> bool \<Rightarrow>
     ('f, 's) documentStorage list \<Rightarrow> string + ('net, 'f, 's) built_server" where
  "newServer ParseCIDR ParseDuration cwd env directory kind postgres storages =
     newServerWithMetrics ParseCIDR ParseDuration cwd env directory kind postgres (firstStorage storages) newMetrics"

section \<open>The start\<close>

record ('net, 'm, 'f, 's) program_library =
  pl_ParseCIDR :: "string \<Rightarrow> 'net option"
  pl_ParseDuration :: "string \<Rightarrow> duration option"
  pl_UserHomeDir :: "string + string"
  pl_cwd :: string
  pl_migrations :: "'m migration_library"
  pl_open :: open_conditions
  pl_new_client :: "string \<Rightarrow> string \<Rightarrow> string \<Rightarrow> bool \<Rightarrow> ('f, 's) minio_client option"
  pl_bucket :: "open_point \<Rightarrow> 'f"
  pl_list :: "'f storage_faults"
  pl_delete :: "string \<Rightarrow> 'f storage_faults"
  pl_reference_up :: "string \<Rightarrow> bool"
  pl_now :: time

record ('m, 's) world =
  wo_goose :: 'm
  wo_db :: db
  wo_stores :: "'s stores"

datatype startup_panic =
    Panic_Migrate string | Panic_Auth string | Panic_Dimensions | Panic_Migrations string | Panic_Directory string
  | Panic_Database open_error | Panic_Storage string | Panic_Worker string | Panic_Server string

text \<open>What runs once the server has started. The error of the clean-up is printed.\<close>

record ('net, 'f, 's) serving =
  sg_server :: "('net, 'f, 's) built_server"
  sg_worker :: workerConfig
  sg_pool :: pool_settings
  sg_printed :: "reconcile_error option"

datatype ('net, 'f, 's) outcome = Migrated | Panicked startup_panic | Serving "('net, 'f, 's) serving"

definition references_of :: "(string \<Rightarrow> bool) \<Rightarrow> db \<Rightarrow> string \<Rightarrow> error + bool" where
  "references_of up d i = (if up i then Inr (UploadReferenceExists i d) else Inl ErrUnavailable)"

definition clean_up_storage ::
    "('net, 'm, 'f, 's) program_library \<Rightarrow> environment \<Rightarrow> ('f, 's) documentStorage \<Rightarrow> ('m, 's) world \<Rightarrow>
     reconcile_error option \<times> ('m, 's) world" where
  "clean_up_storage lib env st w =
     (case reconcileOrphanedUploads (ds_List st (pl_list lib)) (\<lambda>key. ds_Delete st (pl_delete lib key) key) (pl_ParseDuration lib) env
        (pl_now lib) (references_of (pl_reference_up lib) (wo_db w)) (wo_stores w) of
        (e, ss) \<Rightarrow> (e, w\<lparr>wo_stores := ss\<rparr>))"

text \<open>The last part of \<^verbatim>\<open>main\<close>, once the storage is there.\<close>

definition start_serving ::
    "('net, 'm, 'f, 's) program_library \<Rightarrow> environment \<Rightarrow> string \<Rightarrow> pool_settings \<Rightarrow> ('f, 's) documentStorage \<Rightarrow> ('m, 's) world \<Rightarrow>
     ('net, 'f, 's) outcome \<times> ('m, 's) world" where
  "start_serving lib env directory pool st w =
     (case clean_up_storage lib env st w of (printed, w) \<Rightarrow>
      case loadWorkerConfig (pl_ParseDuration lib) env of Inl e \<Rightarrow> (Panicked (Panic_Worker e), w) | Inr config \<Rightarrow>
      case newServerWithMetrics (pl_ParseCIDR lib) (pl_ParseDuration lib) (pl_cwd lib) env directory AtomicQuota True (Some st) newMetrics of
        Inl e \<Rightarrow> (Panicked (Panic_Server e), w)
      | Inr server \<Rightarrow> (Serving \<lparr>sg_server = server, sg_worker = config, sg_pool = pool, sg_printed = printed\<rparr>, w))"

text \<open>What is checked and opened before.\<close>

definition start_api ::
    "('net, 'm, 'f, 's) program_library \<Rightarrow> environment \<Rightarrow> ('m, 's) world \<Rightarrow> ('net, 'f, 's) outcome \<times> ('m, 's) world" where
  "start_api lib env w =
     (let url = env ''DATABASE_URL'' in
      case validateProductionAuthConfig env of Some e \<Rightarrow> (Panicked (Panic_Auth e), w) | None \<Rightarrow>
      if embeddingDimensions env \<noteq> maxEmbeddingDimensions then (Panicked Panic_Dimensions, w) else
      case runMigrations (pl_migrations lib) env url (wo_goose w, wo_db w) of (migrated, g, d) \<Rightarrow>
      let w = w\<lparr>wo_goose := g, wo_db := d\<rparr> in
      case migrated of Some e \<Rightarrow> (Panicked (Panic_Migrations e), w) | None \<Rightarrow>
      case uploadDirectory (pl_UserHomeDir lib) env of Inl e \<Rightarrow> (Panicked (Panic_Directory e), w) | Inr directory \<Rightarrow>
      case openDocumentStore (pl_ParseDuration lib) (pl_open lib) env url (wo_db w) of (store, d) \<Rightarrow>
      let w = w\<lparr>wo_db := d\<rparr> in
      case store of Inl e \<Rightarrow> (Panicked (Panic_Database e), w) | Inr pool \<Rightarrow>
      case configuredDocumentStorage (pl_new_client lib) (pl_bucket lib) (pl_cwd lib) env directory (wo_stores w) of (configured, ss) \<Rightarrow>
      let w = w\<lparr>wo_stores := ss\<rparr> in
      case configured of Inl e \<Rightarrow> (Panicked (Panic_Storage e), w) | Inr st \<Rightarrow>
      start_serving lib env directory pool st w)"

definition main ::
    "('net, 'm, 'f, 's) program_library \<Rightarrow> environment \<Rightarrow> string list \<Rightarrow> ('m, 's) world \<Rightarrow> ('net, 'f, 's) outcome \<times> ('m, 's) world" where
  "main lib env args w =
     (case migrateCommand (pl_migrations lib) env args (wo_goose w, wo_db w) of (command, g, d) \<Rightarrow>
      let w = w\<lparr>wo_goose := g, wo_db := d\<rparr> in
      case command of
        Inl e \<Rightarrow> (Panicked (Panic_Migrate e), w)
      | Inr migrate \<Rightarrow> (if migrate then (Migrated, w) else start_api lib env w))"

section \<open>What has been checked when it serves\<close>

lemma seed_usages_ok:
  assumes "books_ok d"
  shows "\<exists>d'. seed_usages t d = Inr d' \<and> books_ok d' \<and> documents d' = documents d"
proof -
  let ?missing = "filter (\<lambda>o'. o' \<notin> us_OwnerID ` set (db_owner_usages d)) (remdups (map doc_OwnerID (documents d)))"
  let ?row = "\<lambda>o'. (new_usage t o')\<lparr>us_CommittedBytes := doc_bytes o' d, us_CommittedDocuments := doc_count o' d\<rparr>"
  let ?d = "d\<lparr>db_owner_usages := db_owner_usages d @ map ?row ?missing\<rparr>"
  have tables: "tables_ok d" and within: "within_quota o' d" for o' using assms by (simp_all add: books_ok_def)
  have "bigint_ok (?row o')" for o'
  proof -
    have "truth o' d = (doc_bytes o' d, doc_count o' d, res_bytes o' d, res_count o' d, active_count o' d)" by (simp add: truth_def)
    from truth_nonneg [OF tables this] within [of o'] show ?thesis
      by (simp add: bigint_ok_def is_int64_def new_usage_def within_quota_def quota_limits)
  qed
  then have "seed_usages t d = Inr ?d" by (simp add: seed_usages_def list_ex_iff Let_def)
  moreover have "books_ok ?d"
  proof -
    have "map us_OwnerID (map ?row ?missing) = ?missing" by (simp add: new_usage_def comp_def)
    with tables have "tables_ok ?d" by (auto simp: tables_ok_def)
    moreover have "within_quota o' ?d" for o' using within [of o'] by (subst truth_eq_quota) simp_all
    ultimately show ?thesis by (simp add: books_ok_def)
  qed
  ultimately show ?thesis by simp
qed

lemma initialize_store_ok:
  assumes "books_ok d" "initialize_store oc d = (r, d')"
  shows "r = Inr () \<longleftrightarrow> oc_up_seed oc \<and> oc_up_recover oc" "r = Inr () \<Longrightarrow> balanced d' \<and> documents d' = documents d"
proof -
  obtain d1 where seed: "seed_usages (oc_sql_time oc) d = Inr d1" "books_ok d1" "documents d1 = documents d"
    using seed_usages_ok [OF assms(1)] by blast
  obtain d2 where rec: "RecoverExpiredReservations (oc_time oc) d1 = (Inr (), d2)" "books_ok d2" "documents d2 = documents d1"
    "\<forall>p. counters (scan_usage p d2) = truth p d2"
    using recovery_heals [OF seed(2)] by blast
  have "initialize_store oc d = (if \<not> oc_up_seed oc then (Inl ErrUnavailable, d) else if oc_up_recover oc then (Inr (), d2) else (Inl ErrUnavailable, d1))"
    by (simp add: initialize_store_def seed(1) rec(1) with_connection_def)
  with assms(2) rec(2-) seed(3) show "r = Inr () \<longleftrightarrow> oc_up_seed oc \<and> oc_up_recover oc" "r = Inr () \<Longrightarrow> balanced d' \<and> documents d' = documents d"
    by (auto simp: balanced_def split: if_splits)
qed

lemma openDocumentStore_Inr:
  "openDocumentStore pd oc env url d = (Inr pool, d') \<Longrightarrow> initialize_store oc d = (Inr (), d') \<and> pool = pool_of pd env"
  by (auto simp: openDocumentStore_def Let_def split: option.splits prod.splits sum.splits)

lemma clean_up_storage_frame:
  "clean_up_storage lib env st w = (e, w') \<Longrightarrow> wo_db w' = wo_db w \<and> wo_goose w' = wo_goose w"
  by (auto simp: clean_up_storage_def split: prod.splits)

lemma migrateCommand_False: "migrateCommand lib env args w = (Inr False, w') \<Longrightarrow> w' = w"
  by (auto simp: migrateCommand_def split: if_splits prod.splits option.splits)

lemma main_cases:
  obtains (command) e g d where "2 \<le> length args" "args ! 1 = ''migrate''"
      "runMigrations (pl_migrations lib) env (env ''DATABASE_URL'') (wo_goose w, wo_db w) = (e, g, d)"
      "main lib env args w = (case e of Some e \<Rightarrow> Panicked (Panic_Migrate e) | None \<Rightarrow> Migrated, w\<lparr>wo_goose := g, wo_db := d\<rparr>)"
  | (api) "\<not> (2 \<le> length args \<and> args ! 1 = ''migrate'')" "main lib env args w = start_api lib env w"
proof (cases "2 \<le> length args \<and> args ! 1 = ''migrate''")
  case True
  obtain e g d where m: "runMigrations (pl_migrations lib) env (env ''DATABASE_URL'') (wo_goose w, wo_db w) = (e, g, d)" using prod_cases3 by blast
  with True have "main lib env args w = (case e of Some e \<Rightarrow> Panicked (Panic_Migrate e) | None \<Rightarrow> Migrated, w\<lparr>wo_goose := g, wo_db := d\<rparr>)"
    by (cases e) (simp_all add: main_def migrateCommand_def)
  with True m command show thesis by blast
next
  case False
  then have "main lib env args w = start_api lib env w" by (auto simp: main_def migrateCommand_def)
  with False api show thesis by blast
qed

text \<open>The way to an API that serves.\<close>

lemma start_api_Serving:
  assumes "start_api lib env w = (Serving sv, w')"
  obtains g d directory pool d1 st s where
    "validateProductionAuthConfig env = None" "embeddingDimensions env = maxEmbeddingDimensions"
    "runMigrations (pl_migrations lib) env (env ''DATABASE_URL'') (wo_goose w, wo_db w) = (None, g, d)"
    "openDocumentStore (pl_ParseDuration lib) (pl_open lib) env (env ''DATABASE_URL'') d = (Inr pool, d1)"
    "configuredDocumentStorage (pl_new_client lib) (pl_bucket lib) (pl_cwd lib) env directory (wo_stores w) = (Inr st, s)"
    "start_serving lib env directory pool st (w\<lparr>wo_goose := g, wo_db := d1, wo_stores := s\<rparr>) = (Serving sv, w')"
proof -
  let ?url = "env ''DATABASE_URL''"
  obtain m g d where m: "runMigrations (pl_migrations lib) env ?url (wo_goose w, wo_db w) = (m, g, d)" using prod_cases3 by blast
  obtain r1 d1 where r1: "openDocumentStore (pl_ParseDuration lib) (pl_open lib) env ?url d = (r1, d1)" by force
  note run = assms [unfolded start_api_def Let_def m prod.case]
  from run have 1: "validateProductionAuthConfig env = None" "embeddingDimensions env = maxEmbeddingDimensions" "m = None"
    by (auto split: option.splits if_splits)
  with run obtain directory where dir: "uploadDirectory (pl_UserHomeDir lib) env = Inr directory"
    by (cases "uploadDirectory (pl_UserHomeDir lib) env") auto
  obtain cf s where cf: "configuredDocumentStorage (pl_new_client lib) (pl_bucket lib) (pl_cwd lib) env directory (wo_stores w) = (cf, s)" by force
  from run 1 dir r1 obtain pool where pool: "r1 = Inr pool" by (cases r1) auto
  from run 1 dir r1 pool cf obtain st where st: "cf = Inr st" by (cases cf) auto
  from run 1 dir r1 pool cf st have "start_serving lib env directory pool st (w\<lparr>wo_goose := g, wo_db := d1, wo_stores := s\<rparr>) = (Serving sv, w')"
    by simp
  with that 1 m r1 pool cf st show thesis by blast
qed

lemma main_Serving:
  assumes "main lib env args w = (Serving sv, w')"
  obtains g d directory d1 st ss where
    "\<not> (2 \<le> length args \<and> args ! 1 = ''migrate'')"
    "validateProductionAuthConfig env = None" "embeddingDimensions env = maxEmbeddingDimensions"
    "runMigrations (pl_migrations lib) env (env ''DATABASE_URL'') (wo_goose w, wo_db w) = (None, g, d)"
    "initialize_store (pl_open lib) d = (Inr (), d1)"
    "configuredDocumentStorage (pl_new_client lib) (pl_bucket lib) (pl_cwd lib) env directory (wo_stores w) = (Inr st, ss)"
    "clean_up_storage lib env st (w\<lparr>wo_goose := g, wo_db := d1, wo_stores := ss\<rparr>) = (sg_printed sv, w')"
    "loadWorkerConfig (pl_ParseDuration lib) env = Inr (sg_worker sv)"
    "newAuthenticator (pl_ParseCIDR lib) (pl_ParseDuration lib) env True = Inr (bs_auth (sg_server sv))"
    "bs_handler (sg_server sv) = newDocumentHandlerWithMetrics directory AtomicQuota st newMetrics"
proof (cases rule: main_cases [where lib = lib and env = env and args = args and w = w])
  case (command e g d)
  with assms show thesis by (cases e) auto
next
  case api
  with assms have "start_api lib env w = (Serving sv, w')" by simp
  then show thesis
  proof (cases rule: start_api_Serving)
    case (1 g d directory pool d1 st ss)
    from 1(6) have "clean_up_storage lib env st (w\<lparr>wo_goose := g, wo_db := d1, wo_stores := ss\<rparr>) = (sg_printed sv, w') \<and>
        loadWorkerConfig (pl_ParseDuration lib) env = Inr (sg_worker sv) \<and>
        newAuthenticator (pl_ParseCIDR lib) (pl_ParseDuration lib) env True = Inr (bs_auth (sg_server sv)) \<and>
        bs_handler (sg_server sv) = newDocumentHandlerWithMetrics directory AtomicQuota st newMetrics"
      by (auto simp: start_serving_def newServerWithMetrics_def and_then_Inr Let_def split: prod.splits sum.splits)
    with that api(1) 1 openDocumentStore_Inr [OF 1(4)] show thesis by blast
  qed
qed

lemma clean_rooted_plain: "list_all plain_name (clean_rooted s)"
  unfolding clean_rooted_def using clean_fold_components [of "[]" "Split CHR ''/'' s"] Split_components by simp

text \<open>C14: an API that serves has been checked: it did not start as the migration command; the migrations went
  through before the store was opened; its authenticator is one for a database, with a secret of at least
  32 bytes and, outside development, secure cookies and HTTPS; embeddings have 768 dimensions; the worker
  settings are sound; the files lie below a clean path or in a bucket; and whatever the usage rows
  said after the last stop, every owner's books are balanced and no document has been touched.\<close>

theorem serving_is_sound:
  assumes "main lib env args w = (Serving sv, w')"
  shows "\<not> (2 \<le> length args \<and> args ! 1 = ''migrate'') \<and>
    (\<exists>g d. runMigrations (pl_migrations lib) env (env ''DATABASE_URL'') (wo_goose w, wo_db w) = (None, g, d) \<and>
       (books_ok d \<longrightarrow> balanced (wo_db w') \<and> documents (wo_db w') = documents d)) \<and>
    newAuthenticator (pl_ParseCIDR lib) (pl_ParseDuration lib) env True = Inr (bs_auth (sg_server sv)) \<and>
    32 \<le> length (ja_secret (bs_auth (sg_server sv))) \<and>
    (authMode env = ''development'' \<or> ja_secureCookie (bs_auth (sg_server sv)) \<and> ja_requireHTTPS (bs_auth (sg_server sv))) \<and>
    embeddingDimensions env = 768 \<and> config_ok (sg_worker sv) \<and>
    (case hd_storage (bs_handler (sg_server sv)) of
       Filesystem st \<Rightarrow> list_all plain_name (fs_root st) \<and> env ''OBJECT_STORAGE_ENDPOINT'' = []
     | Bucket st \<Rightarrow> env ''OBJECT_STORAGE_ENDPOINT'' \<noteq> [])"
  using assms
proof (cases rule: main_Serving)
  case (1 g d directory d1 st ss)
  have db: "wo_db w' = d1" using clean_up_storage_frame [OF 1(7)] by simp
  have books: "balanced (wo_db w') \<and> documents (wo_db w') = documents d" if "books_ok d"
    using initialize_store_ok(2) [OF that 1(5)] db by simp
  have storage: "case st of Filesystem st \<Rightarrow> list_all plain_name (fs_root st) \<and> env ''OBJECT_STORAGE_ENDPOINT'' = []
      | Bucket st \<Rightarrow> env ''OBJECT_STORAGE_ENDPOINT'' \<noteq> []"
    using 1(6) by (auto simp: configuredDocumentStorage_def newFilesystemStorage_def getenv_def clean_rooted_plain map_sum_def
        split: if_splits sum.splits prod.splits documentStorage.splits)
  note checked = newAuthenticator_with_database(3,9) [OF 1(9)] accepted_config_sound [OF 1(8)]
  show ?thesis
    using 1(1-4,9,10) books checked storage by (auto simp: config_ok_def maxEmbeddingDimensions_def newDocumentHandlerWithMetrics_def)
qed

text \<open>An example: an API in development mode, with the database of an earlier run whose usage rows are wrong.\<close>

definition sample_migrations :: "nat migration_library" where
  "sample_migrations = \<lparr>ml_Open = (\<lambda>_. None), ml_Ping = None, ml_SetDialect = None, ml_SetOwner = (\<lambda>_. None),
     ml_Up = (\<lambda>legacy (version, d). (None, 5, d))\<rparr>"

definition sample_program :: "(string, nat, network, bucket) program_library" where
  "sample_program = \<lparr>pl_ParseCIDR = (\<lambda>_. None), pl_ParseDuration = (\<lambda>_. None), pl_UserHomeDir = Inr ''/home/documind'', pl_cwd = ''/'',
     pl_migrations = sample_migrations,
     pl_open = \<lparr>oc_Open = (\<lambda>_. None), oc_DB = None, oc_Ping = None, oc_up_seed = True, oc_up_recover = True, oc_sql_time = 5, oc_time = 5\<rparr>,
     pl_new_client = (\<lambda>_ _ _ _. Some sample_client), pl_bucket = (\<lambda>_. Fine), pl_list = no_faults\<lparr>sf_walk := True\<rparr>, pl_delete = (\<lambda>_. no_faults),
     pl_reference_up = (\<lambda>_. True), pl_now = 5\<rparr>"

definition sample_world :: "(nat, bucket) world" where
  "sample_world = \<lparr>wo_goose = 2, wo_db = sample_drift, wo_stores = no_files\<rparr>"

lemma serving_is_sound_witness:
  "case main sample_program sample_auth_env [''documind''] sample_world of
     (Serving sv, w') \<Rightarrow> sg_printed sv = Some (ListError ErrStorage) \<and> balanced (wo_db w') \<and>
       (case hd_storage (bs_handler (sg_server sv)) of Filesystem st \<Rightarrow> fs_root st = [''home'', ''documind'', ''.local'', ''share'', ''documind'', ''uploads'']
        | Bucket _ \<Rightarrow> False)
   | _ \<Rightarrow> False"
proof -
  let ?run = "main sample_program sample_auth_env [''documind''] sample_world"
  have up: "runMigrations sample_migrations sample_auth_env [] (2, sample_drift) = (None, 5, sample_drift)"
    by (simp add: runMigrations_def sample_migrations_def sample_auth_env_def Let_def)
  have "case fst ?run of Serving sv \<Rightarrow> sg_printed sv = Some (ListError ErrStorage) \<and>
      (case hd_storage (bs_handler (sg_server sv)) of Filesystem st \<Rightarrow> fs_root st = [''home'', ''documind'', ''.local'', ''share'', ''documind'', ''uploads'']
        | Bucket _ \<Rightarrow> False) | _ \<Rightarrow> False" by code_simp
  then obtain sv w' where run: "?run = (Serving sv, w')" and sv: "sg_printed sv = Some (ListError ErrStorage) \<and>
      (case hd_storage (bs_handler (sg_server sv)) of Filesystem st \<Rightarrow> fs_root st = [''home'', ''documind'', ''.local'', ''share'', ''documind'', ''uploads'']
        | Bucket _ \<Rightarrow> False)" by (cases ?run) (auto split: outcome.splits)
  from serving_is_sound [OF run] have "balanced (wo_db w')"
    using sample_drift_books up by (auto simp: sample_program_def sample_world_def sample_auth_env_def)
  with run sv show ?thesis by simp
qed

text \<open>What the outcome is apart from the printed error of the clean-up.\<close>

fun without_report :: "('net, 'f, 's) outcome \<Rightarrow> ('net, 'f, 's) outcome" where
  "without_report (Serving sv) = Serving (sv\<lparr>sg_printed := None\<rparr>)"
| "without_report result = result"

definition same_start :: "('net, 'f, 's) outcome \<times> ('m, 's) world \<Rightarrow> ('net, 'f, 's) outcome \<times> ('m, 's) world \<Rightarrow> bool" where
  "same_start x y \<longleftrightarrow> without_report (fst y) = without_report (fst x) \<and> wo_db (snd y) = wo_db (snd x) \<and> wo_goose (snd y) = wo_goose (snd x)"

text \<open>The clean-up of orphaned uploads does not decide about the start: however listing, asking for
  references and deleting go, and whenever it runs, the API starts with the same parts or is refused for the
  same reason, and the database is the same.\<close>

theorem cleanup_never_stops_start:
  "case main lib env args w of (result, w1) \<Rightarrow>
   case main (lib\<lparr>pl_list := l, pl_delete := k, pl_reference_up := up, pl_now := t\<rparr>) env args w of
     (result', w2) \<Rightarrow> without_report result' = without_report result \<and> wo_db w2 = wo_db w1 \<and> wo_goose w2 = wo_goose w1"
proof -
  let ?lib = "lib\<lparr>pl_list := l, pl_delete := k, pl_reference_up := up, pl_now := t\<rparr>"
  have refl: "same_start x x" for x by (simp add: same_start_def split: prod.splits)
  have last: "same_start (start_serving lib env directory pool st u) (start_serving ?lib env directory pool st u)" for directory pool st u
  proof -
    obtain p1 u1 where c1: "clean_up_storage lib env st u = (p1, u1)" by force
    obtain p2 u2 where c2: "clean_up_storage ?lib env st u = (p2, u2)" by force
    from clean_up_storage_frame [OF c1] clean_up_storage_frame [OF c2] show ?thesis
      by (simp add: start_serving_def c1 c2 same_start_def split: sum.split)
  qed
  have "same_start (start_api lib env u) (start_api ?lib env u)" for u
    by (simp add: start_api_def Let_def refl last split: option.split sum.split prod.split)
  then have "same_start (main lib env args w) (main ?lib env args w)"
    by (simp add: main_def Let_def refl split: sum.split prod.split)
  then show ?thesis by (simp add: same_start_def case_prod_beta)
qed

end
