(* ===== verification/Server_Site.thy ===== *)
theory Server_Site
  imports Server Startup
begin

text \<open>
  The server of \<open>Server\<close> on the machine of \<open>Site_Machine\<close>: every request, whatever it asks for, ends where
  steps of the machine end. So what holds of all runs of the machine holds while an API serves requests.
\<close>

section \<open>Changes of the database\<close>

definition db_moves :: "queueConfig \<Rightarrow> ('f, 's) documentStorage \<Rightarrow> db \<Rightarrow> db \<Rightarrow> bool" where
  "db_moves cfg st d d' \<longleftrightarrow> (\<forall>s. si_db s = d \<longrightarrow> site_runs cfg st s (s\<lparr>si_db := d'\<rparr>))"

lemma db_moves_refl [simp]: "db_moves cfg st d d"
  by (auto simp: db_moves_def)

lemma db_moves_trans [trans]:
  fixes st :: "('f, 's) documentStorage"
  assumes "db_moves cfg st d d'" "db_moves cfg st d' d''"
  shows "db_moves cfg st d d''"
  unfolding db_moves_def
proof (intro allI impI)
  fix s :: "'s site" assume "si_db s = d"
  with assms(1) have "site_runs cfg st s (s\<lparr>si_db := d'\<rparr>)" by (simp add: db_moves_def)
  moreover have "site_runs cfg st (s\<lparr>si_db := d'\<rparr>) (s\<lparr>si_db := d'\<rparr>\<lparr>si_db := d''\<rparr>)"
    using assms(2) unfolding db_moves_def by (metis site.select_convs(1) site.surjective site.update_convs(1))
  ultimately show "site_runs cfg st s (s\<lparr>si_db := d''\<rparr>)" using run_trans by fastforce
qed

lemma db_moves_rate: "db_moves cfg st d (d\<lparr>rate_limit_buckets := bs\<rparr>)"
  using run_rate by (auto simp: db_moves_def)

lemma db_moves_other: "independent ev \<Longrightarrow> db_moves cfg st d (quota_exec cfg t ev d)"
  by (auto simp: db_moves_def intro!: r_into_rtranclp site_step.other)

lemma db_moves_question: "keys_ok (d\<lparr>document_questions := qs\<rparr>) \<Longrightarrow> db_moves cfg st d (d\<lparr>document_questions := qs\<rparr>)"
  by (auto simp: db_moves_def intro!: r_into_rtranclp site_step.question)

lemma db_moves_connection:
  assumes "\<And>r d'. f d = (r, d') \<Longrightarrow> db_moves cfg st d d'"
  shows "db_moves cfg st d (snd (with_connection up f d))"
  using assms by (auto simp: with_connection_def prod_eq_iff)

section \<open>Handlers\<close>

lemma Retry_handler_moves:
  assumes "Retry_handler up now u i d = (a, d')"
  shows "db_moves cfg st d d'"
proof -
  have "quota_exec cfg now (Working 0 (RetryByOwner u i)) d = snd (RetryOwned now u i d)"
    by (simp add: apfst_def map_prod_def split: prod.split)
  with db_moves_other [of "Working 0 (RetryByOwner u i)" cfg st d now] have "db_moves cfg st d (snd (RetryOwned now u i d))" by simp
  then have "db_moves cfg st d (snd (with_connection up (RetryOwned now u i) d))" by (intro db_moves_connection) simp
  moreover have "d' = snd (with_connection up (RetryOwned now u i) d)"
    using assms by (auto simp: Retry_handler_def split: prod.splits sum.splits error.splits)
  ultimately show ?thesis by simp
qed

lemma begin_answer_moves:
  assumes "begin_answer AtomicQuota timeout inp u rid sv = (granted, sv')"
  shows "db_moves cfg st (sv_db sv) (sv_db sv')"
proof (cases "ai_up inp Rating_Answer")
  case False
  with assms show ?thesis by (auto simp: begin_answer_def)
next
  case True
  obtain allowed bs where rate: "AllowRate ''answer-owner'' u maxAnswersPerDay (24 * time_Hour) (ai_clock inp Rating_Answer) (rate_limit_buckets (sv_db sv)) = (allowed, bs)"
    by force
  let ?d = "(sv_db sv)\<lparr>rate_limit_buckets := bs\<rparr>" and ?t = "ai_clock inp Beginning_Answer"
  let ?f = "BeginAnswer ?t u rid (ai_clock inp Expiring_Answer + timeout)"
  let ?d' = "snd (with_connection (ai_up inp Beginning_Answer) ?f ?d)"
  have "db_moves cfg st ?d (snd (?f ?d))"
    using db_moves_other [of "Beginning u rid (ai_clock inp Expiring_Answer + timeout)" cfg st ?d ?t] by simp
  then have "db_moves cfg st ?d ?d'" by (intro db_moves_connection) simp
  with db_moves_rate db_moves_trans have "db_moves cfg st (sv_db sv) ?d'" by blast
  moreover have "sv_db sv' = ?d \<or> sv_db sv' = ?d'"
    using assms True rate by (auto simp: begin_answer_def Let_def split: prod.splits sum.splits if_splits)
  ultimately show ?thesis using db_moves_rate by metis
qed

lemma end_answer_moves: "db_moves cfg st (sv_db sv) (sv_db (end_answer AtomicQuota inp u rid sv))"
proof -
  have "db_moves cfg st d (snd (EndAnswer t rid ''released'' d))" for t d
    using db_moves_other [of "Ending rid ''released''" cfg st d t] by simp
  then have "db_moves cfg st d (snd (with_connection up (EndAnswer t rid ''released'') d))" for t up d
    by (intro db_moves_connection) (metis snd_conv)
  then show ?thesis by (simp add: end_answer_def)
qed

lemma Ask_moves:
  assumes call: "Ask AtomicQuota lib inp u i sv = (response, sv')" and keys: "keys_ok (sv_db sv)"
  shows "db_moves cfg st (sv_db sv) (sv_db sv')"
  using call
proof (cases rule: Ask_cases)
  case (denied message sv1 rid)
  with begin_answer_moves show ?thesis by simp
next
  case (asked question doc rid sv1 ok sv2)
  note 1 = begin_answer_moves [OF asked(4), of cfg st]
  have keys1: "keys_ok (sv_db sv1)"
    using quiet_same_content [OF begin_end_quiet(1) [OF asked(4)]] keys by (simp add: same_content_def keys_ok_def)
  have 2: "db_moves cfg st (sv_db sv1) (sv_db sv2)"
    using asked(5)
  proof (cases rule: generate_answer_cases)
    case (saved ts sources q)
    with keys1 db_moves_question show ?thesis by metis
  qed simp_all
  have "db_moves cfg st (sv_db sv2) (sv_db sv')"
    using end_answer_moves [of cfg st "sv2\<lparr>sv_metrics := recordAnswer (ai_answer_latency inp) (\<not> ok) (sv_metrics sv2)\<rparr>"] asked(6) by simp
  with 1 2 db_moves_trans show ?thesis by blast
qed simp

section \<open>Requests\<close>

lemma moves_run:
  assumes "db_moves cfg st (sv_db sv) (sv_db sv')" "sv_files sv' = sv_files sv" "server_at sv s"
  shows "\<exists>s'. site_runs cfg st s s' \<and> server_at sv' s' \<and> si_uploads s' = si_uploads s"
proof -
  have "site_runs cfg st s (s\<lparr>si_db := sv_db sv'\<rparr>)" using assms(1,3) by (simp add: db_moves_def server_at_def)
  with assms(2,3) show ?thesis by (intro exI [of _ "s\<lparr>si_db := sv_db sv'\<rparr>"]) (simp add: server_at_def)
qed

lemma document_handler_runs:
  assumes kind: "dp_kind dp = AtomicQuota" "dp_accepts dp = qc_accepts cfg"
    and at: "keys_ok (sv_db sv)" "server_at sv s" "fresh_for (rq_conditions inp) s"
    and call: "document_handler dp inp meth q e i u sv = (page, sv')"
  shows "\<exists>s'. site_runs cfg (dp_storage dp) s s' \<and> server_at sv' s' \<and> si_uploads s' = si_uploads s"
proof -
  have same: ?thesis if "sv' = sv" using that at(2) by auto
  show ?thesis
  proof (cases e)
    case Upload_Endpoint
    then obtain a where "Upload AtomicQuota (qc_accepts cfg) (dp_storage dp) (rq_conditions inp) u (rq_upload inp) sv = (a, sv')"
      using call kind by (auto simp: document_handler_def split: prod.splits)
    from upload_runs [OF this at(2,3)] show ?thesis .
  next
    case Delete_Endpoint
    then obtain a where "Delete_handler AtomicQuota (dp_storage dp) (rq_up inp) (rq_up' inp) (rq_now inp) (rq_storage inp) u i sv = (a, sv')"
      using call kind by (auto simp: document_handler_def split: prod.splits)
    from delete_runs_as_steps [OF this at(2)] show ?thesis .
  next
    case Retry_Endpoint
    then obtain a d where "Retry_handler (rq_up inp) (rq_now inp) u i (sv_db sv) = (a, d)" "sv' = sv\<lparr>sv_db := d\<rparr>"
      using call by (auto simp: document_handler_def split: prod.splits)
    with Retry_handler_moves at(2) show ?thesis by (intro moves_run [of cfg _ sv]) auto
  next
    case Ask_Endpoint
    then obtain r where "Ask AtomicQuota (dp_ask dp) (rq_ask inp) u i sv = (r, sv')"
      using call kind by (auto simp: document_handler_def split: prod.splits)
    with Ask_moves [OF this at(1)] Ask_files [OF this] at(2) show ?thesis by (intro moves_run) auto
  qed (use call same in \<open>auto simp: document_handler_def\<close>)
qed

lemma request_runs:
  assumes "newAuthenticator ParseCIDR ParseDuration env True = Inr (dp_auth dp)"
    and kind: "dp_kind dp = AtomicQuota" "dp_accepts dp = qc_accepts cfg"
    and at: "keys_ok (sv_db (ap_server a))" "server_at (ap_server a) s" "fresh_for (rq_conditions inp) s"
    and "serve dp router inp meth target q a = (answer, a')"
  shows "\<exists>s'. site_runs cfg (dp_storage dp) s s' \<and> server_at (ap_server a') s' \<and> si_uploads s' = si_uploads s"
  using assms(1,7)
proof (cases rule: serve_cases)
  case (outside bs)
  with at(2) db_moves_rate show ?thesis by (intro moves_run [of cfg _ "ap_server a"]) auto
next
  case refused
  with at(2) show ?thesis by auto
next
  case (handled r i w claims page sv)
  from document_handler_runs [OF kind at handled(5)] handled(6) show ?thesis by simp
qed

text \<open>C15: every request to the server is a run of the machine. Whatever other uploads, deletions, clean-ups and
  workers are at work, and whatever the request asks for, is answered and has fail, it ends in a database
  and files that steps of the machine reach, and leaves nothing of its own at work.\<close>

theorem requests_run_as_steps:
  assumes "newAuthenticator ParseCIDR ParseDuration env True = Inr (dp_auth dp)"
    and "dp_kind dp = AtomicQuota" and "dp_accepts dp = qc_accepts cfg"
    and "keys_ok (sv_db (ap_server a))" and "server_at (ap_server a) s" and "fresh_for (rq_conditions inp) s"
    and "serve dp router inp meth target q a = (answer, a')"
  shows "\<exists>s'. site_runs cfg (dp_storage dp) s s' \<and> server_at (ap_server a') s' \<and> si_uploads s' = si_uploads s"
  by (rule request_runs [OF assms])

text \<open>The account \<^verbatim>\<open>u1\<close> uploads to a new installation.\<close>

definition first_api :: "bucket api" where
  "first_api = \<lparr>ap_server = sample_server, ap_users = [sample_account]\<rparr>"

lemma first_upload:
  "length (documents (sv_db (ap_server (snd (serve sample_deployment sample_router sample_inputs ''POST'' ''/documents''
     (with_cookie sample_cookie) first_api))))) = 1"
proof -
  have r: "sample_router server_routes ''POST'' ''/documents'' = Some (group_route ''/documents'' ''POST'' [] Upload_Endpoint, [])" by code_simp
  have up: "length (documents (sv_db (snd (Upload AtomicQuota (\<lambda>_. True) sample_local sample_conditions ''u1'' sample_upload_request sample_server)))) = 1"
    by code_simp
  have m: "ja_secret sample_authenticator \<noteq> []" "requireHTTPSRequest net sample_authenticator e q [] = (None, [])" for net e and q :: "authCredentials request"
    by (simp_all add: sample_authenticator_def requireHTTPSRequest_def)
  obtain a sv where u: "Upload AtomicQuota (\<lambda>_. True) sample_local sample_conditions ''u1'' sample_upload_request sample_server = (a, sv)" by force
  have "serve sample_deployment sample_router sample_inputs ''POST'' ''/documents'' (with_cookie sample_cookie) first_api =
      (Documents None [Protected] (Some (Upload_Page a)), first_api\<lparr>ap_server := sv\<rparr>)"
    using sample_session
    by (simp add: serve_def r serve_route_def group_route_def middleware_def m sample_deployment_def first_api_def sample_inputs_def
        document_handler_def sample_subject u call_at_def Let_def)
  with up u show ?thesis by simp
qed

lemma sample_kind: "dp_kind sample_deployment = AtomicQuota" "dp_accepts sample_deployment = qc_accepts sample_config"
  "dp_storage sample_deployment = sample_local" "rq_conditions sample_inputs = sample_conditions"
  by (simp_all add: sample_deployment_def sample_config_def sample_inputs_def)

lemma requests_run_as_steps_witness:
  "\<exists>s'. site_runs sample_config sample_local (empty_site no_files) s' \<and> length (documents (si_db s')) = 1"
proof -
  obtain answer a' where run: "serve sample_deployment sample_router sample_inputs ''POST'' ''/documents'' (with_cookie sample_cookie) first_api = (answer, a')"
    by force
  have "keys_ok (sv_db (ap_server first_api))" "server_at (ap_server first_api) (empty_site no_files)" "fresh_for (rq_conditions sample_inputs) (empty_site no_files)"
    by (simp_all add: first_api_def sample_server_def server_at_def empty_site_def sample_kind fresh_for_def sample_documentID plain_name_def row_def)
  from requests_run_as_steps [OF sample_deployment_auth sample_kind(1,2) this run] first_upload run show ?thesis
    by (auto simp: server_at_def sample_kind)
qed

end
