(* ===== verification/Installation.thy ===== *)
theory Installation
  imports Server_Site
begin

text \<open>
  An installation over time: requests to its servers, the transactions of its workers, clean-ups, and processes
  that end and start again with \<^verbatim>\<open>main\<close> of \<^verbatim>\<open>api/main.go\<close>. Between requests the machine of \<open>Site_Machine\<close> is
  at rest, so its invariants hold at any time.
\<close>

section \<open>A running installation\<close>

text \<open>The identifier an upload draws is new.\<close>

definition new_id :: "('f, 'g) request_inputs \<Rightarrow> 's api \<Rightarrow> bool" where
  "new_id inp a = (case documentID (cx_random (rq_conditions inp)) of None \<Rightarrow> True
     | Some i \<Rightarrow> plain_name i \<and> row (sv_db (ap_server a)) i = None)"

text \<open>What Goose does to a database it has migrated before, and a service that does not say its bucket is missing.\<close>

definition up_to_date :: "'m migration_library \<Rightarrow> db \<Rightarrow> bool" where
  "up_to_date lib d \<longleftrightarrow> (\<forall>legacy g. snd (snd (ml_Up lib legacy (g, d))) = d)"

definition bucket_found :: "('net, 'm, 'f, 's) program_library \<Rightarrow> 's stores \<Rightarrow> bool" where
  "bucket_found lib ss \<longleftrightarrow> (\<forall>endpoint access secret secure client b. pl_new_client lib endpoint access secret secure = Some client \<longrightarrow>
     mc_BucketExists client (pl_bucket lib Bucket_Exists) b (ss_bucket ss) \<noteq> Inr False)"

text \<open>The parts a request meets are those \<^verbatim>\<open>main\<close> has built.\<close>

definition serves :: "('net, 'g, 's) serving \<Rightarrow> ('ip, 'net, 'b, 'f, 'o, 'g, 's) deployment \<Rightarrow> bool" where
  "serves sv dp \<longleftrightarrow> dp_auth dp = bs_auth (sg_server sv) \<and> dp_kind dp = hd_store (bs_handler (sg_server sv)) \<and>
     dp_storage dp = hd_storage (bs_handler (sg_server sv))"

definition booted :: "('net, 'g, 's) serving \<Rightarrow> ('m, 's) world \<Rightarrow> authUser list \<Rightarrow> 's api" where
  "booted sv w users = \<lparr>ap_server = \<lparr>sv_db = wo_db w, sv_files = wo_stores w, sv_admission = hd_admission (bs_handler (sg_server sv)),
     sv_metrics = hd_metrics (bs_handler (sg_server sv))\<rparr>, ap_users = users\<rparr>"

text \<open>What happens to an installation: requests, the transactions of workers and of recovery, the clean-up of another
  server, and a process that ends and starts again, on the schema version Goose has left. Accounts may be there from
  the start.\<close>

inductive running ::
    "('ip, 'net, 'b, 'f, 'o :: linorder, 'g, 's) deployment \<Rightarrow> router \<Rightarrow> queueConfig \<Rightarrow> 's stores \<Rightarrow> 's api \<Rightarrow> bool"
  for dp router cfg start where
  install: "running dp router cfg start \<lparr>ap_server = \<lparr>sv_db = empty_db, sv_files = start, sv_admission = newAdmissionController,
      sv_metrics = newMetrics\<rparr>, ap_users = users\<rparr>"
| request: "running dp router cfg start a \<Longrightarrow> new_id inp a \<Longrightarrow> serve dp router inp meth target q a = (answer, a') \<Longrightarrow>
    running dp router cfg start a'"
| transaction: "running dp router cfg start a \<Longrightarrow> independent ev \<Longrightarrow>
    running dp router cfg start (a\<lparr>ap_server := (ap_server a)\<lparr>sv_db := quota_exec cfg t ev (sv_db (ap_server a))\<rparr>\<rparr>)"
| clean_up: "running dp router cfg start a \<Longrightarrow>
    reconcileOrphanedUploads (ds_List (dp_storage dp) f) (\<lambda>key. ds_Delete (dp_storage dp) (g key) key) ParseDuration env now
      (references_of up (sv_db (ap_server a))) (sv_files (ap_server a)) = (e, ss) \<Longrightarrow>
    running dp router cfg start (a\<lparr>ap_server := (ap_server a)\<lparr>sv_files := ss\<rparr>\<rparr>)"
| boot: "running dp router cfg start a \<Longrightarrow> up_to_date (pl_migrations (lib :: ('net, nat, 'g, 's) program_library)) (sv_db (ap_server a)) \<Longrightarrow>
    bucket_found lib (sv_files (ap_server a)) \<Longrightarrow>
    main lib env args \<lparr>wo_goose = version, wo_db = sv_db (ap_server a), wo_stores = sv_files (ap_server a)\<rparr> = (Serving sv, w) \<Longrightarrow>
    serves sv dp \<Longrightarrow> running dp router cfg start (booted sv w (ap_users a))"

section \<open>Between requests\<close>

text \<open>The machine is at rest.\<close>

definition at_rest :: "queueConfig \<Rightarrow> ('g, 's) documentStorage \<Rightarrow> 's stores \<Rightarrow> 's server \<Rightarrow> bool" where
  "at_rest cfg st start sv \<longleftrightarrow> (\<exists>s. site_reachable cfg st start s \<and> server_at sv s \<and> si_uploads s = Map.empty \<and> si_doomed s = {})"

lemma site_reachable_runs: "site_runs cfg st s s' \<Longrightarrow> site_reachable cfg st start s \<Longrightarrow> site_reachable cfg st start s'"
  by (induction rule: rtranclp_induct) (auto intro: site_reachable.step)

lemma at_restI:
  assumes "site_reachable cfg st start s" "site_runs cfg st s s'" "server_at sv s'" "si_uploads s' = Map.empty"
  shows "at_rest cfg st start sv"
proof -
  let ?s = "s'\<lparr>si_uploads := Map.empty, si_doomed := {}\<rparr>"
  have "site_step cfg st s' ?s" by (rule site_step.stop) simp_all
  with site_reachable_runs [OF assms(2,1)] have "site_reachable cfg st start ?s" by (rule site_reachable.step)
  with assms(3) show ?thesis unfolding at_rest_def by (intro exI [of _ ?s]) (simp add: server_at_def)
qed

lemma at_restE:
  assumes "at_rest cfg st start sv" "storage_documented st v" "stores_ok st v start"
  obtains s where "site_reachable cfg st start s" "site_ok st v s" "server_at sv s" "si_uploads s = Map.empty" "si_doomed s = {}"
  using assms(1) site_reachable_ok [OF _ assms(2,3)] that by (auto simp: at_rest_def)

lemma site_ok_keys: "site_ok st v s \<Longrightarrow> keys_ok (si_db s)"
  by (simp add: site_ok_def balanced_def books_ok_def tables_ok_def)

lemma at_rest_clean_up:
  assumes "at_rest cfg st start sv" "storage_documented st v" "stores_ok st v start"
    and "reconcileOrphanedUploads (ds_List st f) (\<lambda>key. ds_Delete st (g key) key) ParseDuration env now (references_of up (sv_db sv)) (sv_files sv) =
      (e, ss)"
  shows "at_rest cfg st start (sv\<lparr>sv_files := ss\<rparr>)"
proof -
  from assms(1-3) obtain s where s: "site_reachable cfg st start s" "site_ok st v s" "server_at sv s" "si_uploads s = Map.empty"
    by (rule at_restE)
  have "reference_answers (references_of up (sv_db sv)) (si_db s)"
    using s(3) by (auto simp: reference_answers_def references_of_def server_at_def split: if_splits)
  moreover have "stores_ok st v (si_files s)" using s(2) by (simp add: site_ok_def)
  ultimately obtain s' where s': "site_runs cfg st s s'" "si_db s' = si_db s" "si_files s' = ss" "si_uploads s' = si_uploads s"
    using reconcile_runs_as_steps [of st f g ParseDuration env now "references_of up (sv_db sv)" s e ss v cfg] assms(2,4) s(3)
    by (auto simp: server_at_def)
  show ?thesis by (rule at_restI [OF s(1) s'(1)]) (use s(3,4) s'(2-) in \<open>simp_all add: server_at_def\<close>)
qed

lemma at_rest_transaction:
  assumes "at_rest cfg st start sv" "independent ev"
  shows "at_rest cfg st start (sv\<lparr>sv_db := quota_exec cfg t ev (sv_db sv)\<rparr>)"
proof -
  from assms(1) obtain s where s: "site_reachable cfg st start s" "server_at sv s" "si_uploads s = Map.empty"
    by (auto simp: at_rest_def)
  have "site_runs cfg st s (s\<lparr>si_db := quota_exec cfg t ev (si_db s)\<rparr>)"
    using site_step.other [OF assms(2)] by blast
  from at_restI [OF s(1) this] s(2,3) show ?thesis by (simp add: server_at_def)
qed

lemma at_rest_same: "at_rest cfg st start sv \<Longrightarrow> sv_db sv' = sv_db sv \<Longrightarrow> sv_files sv' = sv_files sv \<Longrightarrow> at_rest cfg st start sv'"
  by (simp add: at_rest_def server_at_def)

section \<open>Starting again\<close>

text \<open>On true usage rows the first half of \<^verbatim>\<open>initialize\<close> finds nothing to add.\<close>

lemma count_where_pos: "x \<in> set xs \<Longrightarrow> P x \<Longrightarrow> 0 < count_where P xs"
  by (auto simp: count_where_def filter_empty_conv)

lemma seed_usages_balanced:
  assumes "balanced d"
  shows "seed_usages t d = Inr d"
proof -
  have "doc_OwnerID r \<in> us_OwnerID ` set (db_owner_usages d)" if r: "r \<in> set (documents d)" for r
  proof (rule ccontr)
    assume "doc_OwnerID r \<notin> us_OwnerID ` set (db_owner_usages d)"
    then have "find (\<lambda>u. us_OwnerID u = doc_OwnerID r) (db_owner_usages d) = None" by (metis (mono_tags) find_None_iff image_eqI)
    then have "scan_usage (doc_OwnerID r) d = new_usage 0 (doc_OwnerID r)" by (simp add: scan_usage_def)
    moreover have "counters (scan_usage (doc_OwnerID r) d) = truth (doc_OwnerID r) d" using assms by (simp add: balanced_def)
    ultimately have "doc_count (doc_OwnerID r) d = 0" by (simp add: counters_def new_usage_def truth_def)
    with count_where_pos [OF r, of "\<lambda>x. doc_OwnerID x = doc_OwnerID r"] show False by (simp add: doc_count_def)
  qed
  then have "filter (\<lambda>o'. o' \<notin> us_OwnerID ` set (db_owner_usages d)) (remdups (map doc_OwnerID (documents d))) = []"
    by (auto simp: filter_empty_conv)
  then show ?thesis by (simp add: seed_usages_def Let_def)
qed

lemma initialize_store_balanced:
  "balanced d \<Longrightarrow> initialize_store oc d = (Inr (), d') \<Longrightarrow> d' = quota_exec cfg (oc_time oc) Recovering d"
  by (auto simp: initialize_store_def seed_usages_balanced with_connection_def split: if_splits)

lemma runMigrations_up_to_date:
  assumes "up_to_date lib d" "runMigrations lib env url (g, d) = (None, g', d')"
  shows "d' = d"
proof -
  from assms(2) obtain legacy where "ml_Up lib legacy (g, d) = (None, g', d')"
    by (auto simp: runMigrations_def Let_def split: option.splits prod.splits if_splits)
  with assms(1) show ?thesis by (metis snd_conv up_to_date_def)
qed

lemma configuredDocumentStorage_found:
  assumes "bucket_found lib ss" "configuredDocumentStorage (pl_new_client lib) (pl_bucket lib) cwd env directory ss = (Inr st, ss')"
  shows "ss' = ss"
proof (cases "getenv env ''OBJECT_STORAGE_ENDPOINT'' [] = []")
  case True
  with assms(2) show ?thesis by (simp add: configuredDocumentStorage_def)
next
  case False
  obtain r s where n: "newObjectStorage (pl_new_client lib) (pl_bucket lib) env (ss_bucket ss) = (r, s)" by force
  have "s = ss_bucket ss"
    using n assms(1) unfolding newObjectStorage_def bucket_found_def Let_def
    by (simp split: if_splits option.splits sum.splits)
  with assms(2) False n show ?thesis by (simp add: configuredDocumentStorage_def)
qed

lemma at_rest_boot:
  assumes rest: "at_rest cfg st start sv" and doc: "storage_documented st v" "stores_ok st v start"
    and lib: "up_to_date (pl_migrations lib) (sv_db sv)" "bucket_found lib (sv_files sv)"
    and run: "main lib env args \<lparr>wo_goose = version, wo_db = sv_db sv, wo_stores = sv_files sv\<rparr> = (Serving process, w)"
    and st: "hd_storage (bs_handler (sg_server process)) = st"
  shows "at_rest cfg st start (ap_server (booted process w users))"
  using run
proof (cases rule: main_Serving)
  case (1 g d directory d1 st' ss)
  have bal: "balanced (sv_db sv)" using at_restE [OF rest doc] site_okD(1) by (metis server_at_def)
  have d: "d = sv_db sv" using runMigrations_up_to_date [OF lib(1)] 1(4) by simp
  then have d1: "d1 = quota_exec cfg (oc_time (pl_open lib)) Recovering (sv_db sv)" using initialize_store_balanced bal 1(5) by blast
  have ss: "ss = sv_files sv" using configuredDocumentStorage_found [OF lib(2)] 1(6) by simp
  have st': "st' = st" using st 1(10) by (simp add: newDocumentHandlerWithMetrics_def)
  from at_rest_transaction [OF rest, of Recovering] have recovered: "at_rest cfg st start (sv\<lparr>sv_db := d1\<rparr>)" by (simp add: d1)
  obtain e ss' where c: "reconcileOrphanedUploads (ds_List st (pl_list lib)) (\<lambda>key. ds_Delete st (pl_delete lib key) key) (pl_ParseDuration lib) env
        (pl_now lib) (references_of (pl_reference_up lib) d1) (sv_files sv) = (e, ss')" by force
  with 1(7) have "wo_db w = d1" "wo_stores w = ss'" by (auto simp: clean_up_storage_def ss st')
  moreover have "at_rest cfg st start (sv\<lparr>sv_db := d1, sv_files := ss'\<rparr>)"
    using at_rest_clean_up [OF recovered doc, of "pl_list lib" "pl_delete lib" "pl_ParseDuration lib" env "pl_now lib" "pl_reference_up lib" e ss'] c
    by simp
  ultimately show ?thesis by (elim at_rest_same) (simp_all add: booted_def)
qed

lemma running_at_rest:
  assumes auth: "newAuthenticator ParseCIDR' ParseDuration' env' True = Inr (dp_auth dp)"
    and kind: "dp_kind dp = AtomicQuota" "dp_accepts dp = qc_accepts cfg"
    and doc: "storage_documented (dp_storage dp) v" "stores_ok (dp_storage dp) v start"
  shows "running dp router cfg start a \<Longrightarrow> at_rest cfg (dp_storage dp) start (ap_server a)"
proof (induction rule: running.induct)
  case (install users)
  show ?case
    by (rule at_restI [OF site_reachable.empty rtranclp.rtrancl_refl]) (simp_all add: server_at_def empty_site_def)
next
  case (request a inp meth target q answer a')
  from at_restE [OF request(4) doc] obtain s where s: "site_reachable cfg (dp_storage dp) start s" "site_ok (dp_storage dp) v s"
      "server_at (ap_server a) s" "si_uploads s = Map.empty" "si_doomed s = {}" by blast
  have "keys_ok (sv_db (ap_server a))" using site_ok_keys [OF s(2)] s(3) by (simp add: server_at_def)
  moreover have "fresh_for (rq_conditions inp) s"
    using request(2) s(3-) by (auto simp: fresh_for_def new_id_def server_at_def split: option.splits)
  ultimately obtain s' where s': "site_runs cfg (dp_storage dp) s s'" "server_at (ap_server a') s'" "si_uploads s' = si_uploads s"
    using request_runs [OF auth kind _ s(3) _ request(3)] by blast
  show ?case by (rule at_restI [OF s(1) s'(1,2)]) (simp add: s'(3) s(4))
next
  case (transaction a ev t)
  from at_rest_transaction [OF transaction(3,2)] show ?case by simp
next
  case (clean_up a f g ParseDuration env now up e ss)
  from at_rest_clean_up [OF clean_up(3) doc clean_up(2)] show ?case by simp
next
  case (boot a lib env args version sv w)
  from at_rest_boot [OF boot(6) doc boot(2-4)] boot(5) show ?case by (simp add: serves_def)
qed



text \<open>A process that starts on an empty database and directory is one of these installations.\<close>

lemma sample_boot:
  "\<exists>sv w. main sample_program sample_auth_env [''documind''] \<lparr>wo_goose = 2, wo_db = empty_db, wo_stores = no_files\<rparr> = (Serving sv, w) \<and>
     running (sample_deployment\<lparr>dp_storage := hd_storage (bs_handler (sg_server sv))\<rparr>) sample_router sample_config no_files
       (booted sv w [sample_account])"
proof -
  let ?run = "main sample_program sample_auth_env [''documind''] \<lparr>wo_goose = 2, wo_db = empty_db, wo_stores = no_files\<rparr>"
  have "case fst ?run of Serving sv \<Rightarrow> True | _ \<Rightarrow> False" by code_simp
  then obtain sv w where run: "?run = (Serving sv, w)" by (cases ?run) (auto split: outcome.splits)
  let ?dp = "sample_deployment\<lparr>dp_storage := hd_storage (bs_handler (sg_server sv))\<rparr>"
  let ?a = "first_api\<lparr>ap_users := [sample_account]\<rparr>"
  have first: "running ?dp sample_router sample_config no_files ?a" unfolding first_api_def sample_server_def api.simps by (rule running.install)
  have "up_to_date (pl_migrations sample_program) (sv_db (ap_server ?a))" "bucket_found sample_program (sv_files (ap_server ?a))"
    by (auto simp: up_to_date_def bucket_found_def sample_program_def sample_migrations_def sample_client_def)
  moreover have "main sample_program sample_auth_env [''documind''] \<lparr>wo_goose = 2, wo_db = sv_db (ap_server ?a), wo_stores = sv_files (ap_server ?a)\<rparr> =
      (Serving sv, w)"
    using run by (simp add: first_api_def sample_server_def)
  moreover have "serves sv ?dp"
    using run
  proof (cases rule: main_Serving)
    case (1 g d directory d1 st ss)
    with sample_deployment_auth show ?thesis
      by (simp add: serves_def sample_program_def newDocumentHandlerWithMetrics_def sample_deployment_def)
  qed
  ultimately have "running ?dp sample_router sample_config no_files (booted sv w (ap_users ?a))" by (rule running.boot [OF first])
  with run show ?thesis by auto
qed

end
