(* ===== verification/Worker_Storage.thy ===== *)
theory Worker_Storage
  imports Document_Storage Worker_Round
begin

text \<open>
  What a worker reads from the storage (\<^verbatim>\<open>processDocument\<close> of \<^verbatim>\<open>api/worker.go\<close> with the two storages
  of \<^verbatim>\<open>api/storage.go\<close>): that it cannot tell a bucket from a directory, and what becomes of a document whose
  file cannot be read.
\<close>

section \<open>What depends on the storage\<close>

text \<open>What a worker makes of the opened file.\<close>

definition opened_file :: "storage_error + handle \<Rightarrow> stored_file" where
  "opened_file h = (case h of Inl _ \<Rightarrow> Unopened | Inr NotReadable \<Rightarrow> Unreadable | Inr (Readable c) \<Rightarrow> Content c)"

text \<open>Opening a missing object is no error, unlike on the file system, but no worker can tell: as long
  as the service answers, a document is processed with exactly the same outcome from the bucket as
  from a directory with the same content, whether its file is there or not.\<close>

theorem worker_sees_no_difference:
  assumes "minio_answers (os_client ost) (os_bucket ost) stored f s" and "fs_ok st fs"
    and "document_key (doc_StoredPath doc)" and "stored s (doc_StoredPath doc) = fs_content st fs (doc_StoredPath doc)"
  shows "processDocument fmt_g rnd now (opened_file (object_Get ost f (doc_StoredPath doc) s)) process doc =
      processDocument fmt_g rnd now (opened_file (storage_Get st (doc_StoredPath doc) fs)) process doc \<and>
    (stored s (doc_StoredPath doc) = None \<longrightarrow> object_Get ost f (doc_StoredPath doc) s = Inr NotReadable \<and>
       storage_Get st (doc_StoredPath doc) fs = Inl ErrStorageNotFound)"
proof -
  have "object_Get ost f (doc_StoredPath doc) s =
      Inr (case stored s (doc_StoredPath doc) of None \<Rightarrow> NotReadable | Some (c, t) \<Rightarrow> Readable c)"
    using assms(1) by (simp add: minio_answers_def object_Get_def document_key_stripped [OF assms(3)] valid_range_def range_of_def
        split: sum.splits option.splits)
  moreover have "storage_Get st (doc_StoredPath doc) fs =
      (case stored s (doc_StoredPath doc) of None \<Rightarrow> Inl ErrStorageNotFound | Some (c, t) \<Rightarrow> Inr (Readable c))"
    using fs.get_content [OF assms(2,3)] assms(4) by simp
  ultimately show ?thesis by (auto simp: opened_file_def processDocument_def split: option.split)
qed

lemma worker_sees_no_difference_witness:
  "storage_Get sample_storage (storedPath ''a'') [] = Inl ErrStorageNotFound \<and>
   object_Get sample_bucket Fine (storedPath ''a'') [] = Inr NotReadable"
proof -
  let ?doc = "sample_document ''a'' 10\<lparr>doc_StoredPath := storedPath ''a''\<rparr>"
  have key: "document_key (storedPath ''a'')" by (simp add: document_key_storedPath plain_name_def)
  have none: "fs_content sample_storage [] (storedPath ''a'') = None" by code_simp
  from worker_sees_no_difference [of sample_bucket map_of Fine "[]" sample_storage "[]" ?doc "\<lambda>_ :: nat. []" "\<lambda>_. None" 0 "\<lambda>_ _. NoClient"] key none
  show ?thesis by (simp add: sample_bucket_def sample_client_answers empty_fs_ok sample_storage_def plain_name_def)
qed

text \<open>C39: reading the stored file is the one step of processing that is never tried again: whatever made it
  fail (an object storage that cannot be reached for a moment, say), the document is failed for good,
  with attempts left, and its owner is told that it cannot be retried.\<close>

theorem unreadable_upload_fails_for_good:
  assumes "keys_ok d" and "leased d t (doc_ID r) tok" and "\<forall>c. h \<noteq> Inr (Readable c)"
    and "store_outcome True cfg config t now r tok (processDocument fmt_g rnd now' (opened_file h) process r) m d = (res, m', d')"
  shows "res = Inr () \<and> processingFailures m' = processingFailures m + 1 \<and>
    (\<exists>q. row d' (doc_ID r) = Some q \<and> doc_Status q = ''failed'' \<and> doc_FailureKind q = ''permanent'' \<and>
      doc_ErrorMessage q = Some ''could not read uploaded PDF'' \<and>
      RetryOwned later (doc_OwnerID q) (doc_ID r) d' = (Inl ErrPermanentFailure, d'))"
proof -
  have p: "processDocument fmt_g rnd now' (opened_file h) process r = Inl unreadable_pdf"
    using assms(3) by (auto simp: opened_file_def processDocument_def split: sum.splits handle.splits)
  obtain q where q: "row d (doc_ID r) = Some q" using assms(2) by (auto simp: leased_def split: option.splits)
  let ?q = "Job_Store.failed now ''could not read uploaded PDF'' ''permanent'' q"
  from store_outcome_row [OF assms(1,2,4)] q have res: "res = Inr ()" "row d' (doc_ID r) = Some ?q"
    by (simp_all add: p unreadable_pdf_def)
  from assms(4) have f: "Fail t now (doc_ID r) tok ''could not read uploaded PDF'' ''permanent'' d = (res, d')"
      "m' = m\<lparr>processingFailures := processingFailures m + 1\<rparr>"
    by (auto simp: store_outcome_def p unreadable_pdf_def Let_def split: prod.splits)
  have "find (\<lambda>x. doc_ID x = doc_ID r \<and> doc_OwnerID x = doc_OwnerID ?q \<and> doc_Status x = ''failed'') (documents d') = Some ?q"
  proof -
    have unique: "x = ?q" if "x \<in> set (documents d')" "doc_ID x = doc_ID r" for x
      using row_in_set [OF fail.keeps_keys [OF assms(1) f(1)] that(1)] that(2) res(2) by simp
    have "?q \<in> set (documents d')" "doc_ID ?q = doc_ID r" using row_ID [OF res(2)] by simp_all
    then have "\<exists>x. x \<in> set (documents d') \<and> doc_ID x = doc_ID r \<and> doc_OwnerID x = doc_OwnerID ?q \<and> doc_Status x = ''failed''"
      by (intro exI [of _ ?q]) (simp add: Job_Store.failed_def)
    then have "find (\<lambda>x. doc_ID x = doc_ID r \<and> doc_OwnerID x = doc_OwnerID ?q \<and> doc_Status x = ''failed'') (documents d') \<noteq> None"
      unfolding find_None_iff by blast
    then obtain x where x: "find (\<lambda>x. doc_ID x = doc_ID r \<and> doc_OwnerID x = doc_OwnerID ?q \<and> doc_Status x = ''failed'') (documents d') = Some x"
      by blast
    from find_SomeD [OF x] unique have "x = ?q" by blast
    with x show ?thesis by simp
  qed
  then have "RetryOwned later (doc_OwnerID ?q) (doc_ID r) d' = (Inl ErrPermanentFailure, d')"
    by (simp add: RetryOwned_def transaction_def first_or_not_found_def and_then_def Job_Store.failed_def)
  with res f(2) show ?thesis by (auto simp: Job_Store.failed_def)
qed

lemma unreadable_upload_fails_for_good_witness:
  "\<exists>r d tok res m' d'. ClaimNext [] 20 tok time_Minute 5 sample_queued = (Inr r, d) \<and> doc_AttemptCount r = 1 \<and>
     store_outcome True sample_config default_config 30 30 r tok
       (processDocument (\<lambda>_ :: nat. []) (\<lambda>_. None) 30 (opened_file (object_Get sample_bucket Lost ''x'' [])) (\<lambda>_ _. NoClient) r) newMetrics d =
       (res, m', d') \<and>
     res = Inr () \<and> (\<exists>q. row d' (doc_ID r) = Some q \<and> doc_FailureKind q = ''permanent'')"
proof -
  obtain r d where c: "ClaimNext [] 20 ''w'' time_Minute 5 sample_queued = (Inr r, d)" and n: "doc_AttemptCount r = 1"
    and l: "leased d 30 (doc_ID r) ''w''"
  proof -
    have "(case ClaimNext [] 20 ''w'' time_Minute 5 sample_queued of
      (Inr r, d) \<Rightarrow> doc_AttemptCount r = 1 \<and> leased d 30 (doc_ID r) ''w'' | _ \<Rightarrow> False)" by code_simp
    then show thesis using that by (auto split: prod.splits sum.splits)
  qed
  have "keys_ok sample_queued" using reachable_table_ok [OF sample_queued_reachable]
    by (simp add: table_ok_def sample_config_def)
  then have k: "keys_ok d" using c by (rule keys_ok_ClaimNext)
  have h: "\<forall>c. object_Get sample_bucket Lost ''x'' [] \<noteq> Inr (Readable c)"
    by (simp add: object_Get_def sample_bucket_def sample_client_def)
  obtain res m' d' where call: "store_outcome True sample_config default_config 30 30 r ''w''
      (processDocument (\<lambda>_ :: nat. []) (\<lambda>_. None) 30 (opened_file (object_Get sample_bucket Lost ''x'' [])) (\<lambda>_ _. NoClient) r) newMetrics d =
      (res, m', d')" using prod_cases3 by blast
  note result = unreadable_upload_fails_for_good [OF k l h call]
  show ?thesis
    by (rule exI [of _ r], rule exI [of _ d], rule exI [of _ "''w''"], rule exI [of _ res], rule exI [of _ m'], rule exI [of _ d'])
      (use result c n call in auto)
qed

end
