(* ===== verification/Shutdown.thy ===== *)
theory Shutdown
  imports Startup Worker_Loop
begin

text \<open>
  From a serving API to the end of the process (\<^verbatim>\<open>main\<close> of \<^verbatim>\<open>api/main.go\<close> behind the start, and
  \<^verbatim>\<open>startWorker\<close> of \<^verbatim>\<open>api/worker.go\<close> with all its workers): the server listens, the workers run, and
  \<^verbatim>\<open>main\<close> returns when both have come back. Echo's \<^verbatim>\<open>Start\<close> is an argument: whether it has returned, and
  with which error. A run that need not end is an option.
\<close>

section \<open>All workers\<close>

text \<open>What one worker meets: when the context is done, its rounds with what the others do meanwhile, and the
  metrics and the database when it begins.\<close>

record worker_view =
  wv_done_before :: "nat \<Rightarrow> bool"
  wv_done_after :: "nat \<Rightarrow> bool"
  wv_rounds :: "nat \<Rightarrow> round_inputs"
  wv_metrics :: metrics
  wv_db :: db

definition view_loop :: "queueConfig \<Rightarrow> workerConfig \<Rightarrow> worker_view \<Rightarrow> (nat \<times> metrics \<times> db) option" where
  "view_loop cfg config v =
     worker_loop cfg config (wv_done_before v) (wv_done_after v) (wv_rounds v) 0 (wv_metrics v) (wv_db v)"

text \<open>\<^verbatim>\<open>done\<close> is closed when each of the workers has returned: the waiting has a result exactly when all
  of the loops have one.\<close>

fun wait_all :: "'a option list \<Rightarrow> 'a list option" where
  "wait_all [] = Some []"
| "wait_all (x # xs) = (case x of None \<Rightarrow> None | Some r \<Rightarrow> map_option ((#) r) (wait_all xs))"

definition startWorker ::
    "queueConfig \<Rightarrow> workerConfig \<Rightarrow> (nat \<Rightarrow> worker_view) \<Rightarrow> (nat \<times> metrics \<times> db) list option" where
  "startWorker cfg config views = wait_all (map (\<lambda>index. view_loop cfg config (views index)) [0..<nat (wc_workers config)])"

lemma wait_all_None: "wait_all xs = None \<longleftrightarrow> None \<in> set xs"
  by (induction xs) (auto split: option.splits)

lemma wait_all_length: "wait_all xs = Some rs \<Longrightarrow> length rs = length xs"
  by (induction xs arbitrary: rs) (auto split: option.splits)

section \<open>The end of main\<close>

definition ErrServerClosed :: string where "ErrServerClosed = ''http: Server closed''"

text \<open>\<open>started\<close> says whether \<^verbatim>\<open>Start\<close> has come back, and with which error. The result is what was logged, and
  the ends of the workers.\<close>

definition await_end ::
    "queueConfig \<Rightarrow> workerConfig \<Rightarrow> string option option \<Rightarrow> (nat \<Rightarrow> worker_view) \<Rightarrow>
     (string option \<times> (nat \<times> metrics \<times> db) list) option" where
  "await_end cfg config started views =
     (case started of
        None \<Rightarrow> None
      | Some err \<Rightarrow>
          (let logged = (case err of Some e \<Rightarrow> (if e \<noteq> ErrServerClosed then Some e else None) | None \<Rightarrow> None)
           in map_option (Pair logged) (startWorker cfg config views)))"

datatype process_end =
    Ended_Migrated | Ended_Panicked startup_panic
  | Ended "string option" "(nat \<times> metrics \<times> db) list"

definition run_process ::
    "('net, 'm, 'f, 's) program_library \<Rightarrow> environment \<Rightarrow> string list \<Rightarrow> ('m, 's) world \<Rightarrow> queueConfig \<Rightarrow> string option option \<Rightarrow>
     (nat \<Rightarrow> worker_view) \<Rightarrow> process_end option" where
  "run_process lib env args w cfg started views =
     (case main lib env args w of
        (Migrated, w) \<Rightarrow> Some Ended_Migrated
      | (Panicked p, w) \<Rightarrow> Some (Ended_Panicked p)
      | (Serving sv, w) \<Rightarrow> map_option (\<lambda>(logged, ends). Ended logged ends) (await_end cfg (sg_worker sv) started views))"

section \<open>When the process ends\<close>

definition never_told :: "worker_view \<Rightarrow> bool" where
  "never_told v \<longleftrightarrow> (\<forall>n. \<not> wv_done_before v n \<and> \<not> wv_done_after v n)"

lemma view_loop_never: "never_told v \<Longrightarrow> view_loop cfg config v = None"
  using worker_loop_Some [of cfg config "wv_done_before v" "wv_done_after v" "wv_rounds v" 0]
  by (cases "view_loop cfg config v") (auto simp: view_loop_def never_told_def)

lemma view_loop_told: "wv_done_before v n \<Longrightarrow> view_loop cfg config v \<noteq> None"
  unfolding view_loop_def by (rule worker_loop_ends) auto

lemma Serving_worker:
  assumes "main lib env args w = (Serving sv, w')"
  shows "config_ok (sg_worker sv)"
  using assms
proof (cases rule: main_Serving)
  case (1 g d directory d1 st ss)
  then show ?thesis using accepted_config_sound [OF 1(8)] by (simp add: config_ok_def)
qed

text \<open>C23: a process that serves ends exactly with its workers. Once \<^verbatim>\<open>Start\<close> has come back and the context is
  done for every worker, \<^verbatim>\<open>main\<close> returns. But the return of \<^verbatim>\<open>Start\<close> alone ends nothing: when the server cannot
  listen, because the port is taken say, the error is logged and the process stays, as a worker without an API, for
  as long as no signal comes.\<close>

theorem failed_server_leaves_worker:
  assumes "main lib env args w = (Serving sv, w')"
  shows "((\<forall>index. \<exists>n. wv_done_before (views index) n) \<longrightarrow> (\<exists>logged ends. run_process lib env args w cfg (Some err) views =
      Some (Ended logged ends) \<and> (logged \<noteq> None \<longleftrightarrow> err \<noteq> None \<and> err \<noteq> Some ErrServerClosed) \<and>
      int (length ends) = wc_workers (sg_worker sv))) \<and>
    ((\<forall>index. never_told (views index)) \<longrightarrow> run_process lib env args w cfg started views = None)"
proof -
  let ?loops = "map (\<lambda>index. view_loop cfg (sg_worker sv) (views index)) [0..<nat (wc_workers (sg_worker sv))]"
  have pos: "0 < wc_workers (sg_worker sv)" using Serving_worker [OF assms] by (simp add: config_ok_def)
  have "\<exists>logged ends. run_process lib env args w cfg (Some err) views = Some (Ended logged ends) \<and>
      (logged \<noteq> None \<longleftrightarrow> err \<noteq> None \<and> err \<noteq> Some ErrServerClosed) \<and> int (length ends) = wc_workers (sg_worker sv)"
    if told: "\<forall>index. \<exists>n. wv_done_before (views index) n"
  proof -
    from told have "None \<notin> set ?loops" using view_loop_told by (metis (no_types, lifting) in_set_conv_nth length_map nth_map)
    then obtain ends where e: "wait_all ?loops = Some ends" using wait_all_None [of ?loops] by blast
    from wait_all_length [OF e] pos have "int (length ends) = wc_workers (sg_worker sv)" by simp
    with e show ?thesis by (auto simp: run_process_def assms await_end_def startWorker_def split: option.splits)
  qed
  moreover have "run_process lib env args w cfg started views = None" if never: "\<forall>index. never_told (views index)"
  proof -
    have "view_loop cfg (sg_worker sv) (views 0) \<in> set ?loops" using pos by (auto intro: image_eqI)
    then have "wait_all ?loops = None" using view_loop_never never by (metis wait_all_None)
    then show ?thesis by (auto simp: run_process_def assms await_end_def startWorker_def split: option.splits)
  qed
  ultimately show ?thesis by blast
qed

definition sleepless :: worker_view where
  "sleepless = \<lparr>wv_done_before = (\<lambda>_. False), wv_done_after = (\<lambda>_. False), wv_rounds = (\<lambda>_. idle_round), wv_metrics = newMetrics,
     wv_db = sample_drift\<rparr>"

lemma failed_server_leaves_worker_witness:
  "run_process sample_program sample_auth_env [''documind''] sample_world sample_config
     (Some (Some ''listen tcp :1323: bind: address already in use'')) (\<lambda>_. sleepless) = None"
proof -
  let ?run = "main sample_program sample_auth_env [''documind''] sample_world"
  have "case fst ?run of Serving sv \<Rightarrow> True | _ \<Rightarrow> False" by code_simp
  then obtain sv w' where run: "?run = (Serving sv, w')" by (cases ?run) (auto split: outcome.splits)
  have "never_told sleepless" by (simp add: never_told_def sleepless_def)
  with failed_server_leaves_worker [OF run, of "\<lambda>_. sleepless"] show ?thesis by blast
qed

end
