(* ===== verification/Spec2Isabelle.thy ===== *)
theory Spec2Isabelle
  imports Uuid Go_Strings Admission Auth_Limiter Job_Machine Quota_Machine Worker_Round Worker_Loop Session_Security
    Handler_Effects Ask Tenancy Server_Runs Installation Worker_Storage Shutdown
begin

text \<open>
  DocuMind answers questions about uploaded PDF files. This development models its API, the Go program
  under \<^verbatim>\<open>src/api\<close>: owners upload documents, workers have them processed by a service behind gRPC, and
  owners list, read, delete, retry and question them. Every theory opens with what it holds; what
  follows says how they fit together.

  \<^bold>\<open>The program and its state.\<close> Everything durable is in a PostgreSQL database and in a storage of
  files. The database is the record \<open>db\<close> of \<open>Database\<close>, a list of rows for each table of
  \<^verbatim>\<open>api/migrations\<close> and \<^verbatim>\<open>api/database.go\<close>; accounts are a list of \<open>authUser\<close>. The files are
  the \<open>stores\<close> of \<open>Document_Storage\<close>, a directory in a \<open>filesystem\<close> or a bucket behind a client. A server keeps besides the in-memory admission
  control and the metrics (\<open>server\<close> of \<open>Document_Handlers\<close>). An operation of the code is a function
  from its arguments and the state to its answer and the next state; a transaction that fails leaves the
  database as it was. Errors are values: \<open>error\<close>, \<open>storage_error\<close>, \<open>jobError\<close>, the answers of handlers.

  \<^bold>\<open>Theories and sources.\<close>
  \<^item> \<open>Prelude\<close>, \<open>Go_Strings\<close>: 64-bit integers with their wrap-around, results, tables as lists of rows
    with a collection of rewrite rules; the parts of \<^verbatim>\<open>strconv\<close>, \<^verbatim>\<open>strings\<close> and \<^verbatim>\<open>utf8\<close> in use.
  \<^item> \<open>Uuid\<close>: \<^verbatim>\<open>documentID\<close>, \<^verbatim>\<open>formatUUID\<close>, \<^verbatim>\<open>hexDigit\<close> (\<^verbatim>\<open>documents.go\<close>).
  \<^item> \<open>Sliding_Window\<close>, \<open>Admission\<close>, \<open>Rate_Limit\<close>, \<open>Auth_Limiter\<close>: \<^verbatim>\<open>admission.go\<close>, \<^verbatim>\<open>auth_limiter.go\<close> and
    \<^verbatim>\<open>AllowRate\<close>; the locales \<open>window_log\<close>, \<open>log_limiter\<close> and \<open>rate_limiter\<close> are the contracts of a log
    of recent events and of a limiter, interpreted on each of them.
  \<^item> \<open>Database\<close>, \<open>Job_Store\<close>, \<open>Job_Machine\<close>: rows, reading and deleting, the job queue (\<^verbatim>\<open>database.go\<close>), and
    all runs of its operations; the locale \<open>leased_operation\<close> is what a lease holder may do.
  \<^item> \<open>Quota_Store\<close>, \<open>Quota_Machine\<close>: usage rows, reservations, recovery, and their runs.
  \<^item> \<open>Worker\<close>, \<open>Worker_Round\<close>, \<open>Worker_Loop\<close>: settings, back-off, what the processor streams back, one
    round with its heartbeat and the connections it may lose, and the loop around it (\<^verbatim>\<open>worker.go\<close>).
  \<^item> \<open>Metrics\<close>, \<open>Metrics_Page\<close>: \<^verbatim>\<open>metrics.go\<close>.
  \<^item> \<open>Auth_Config\<close>, \<open>Client_Address\<close>, \<open>Sessions\<close>, \<open>Session_Machine\<close>, \<open>Session_Security\<close>: \<^verbatim>\<open>auth.go\<close>.
  \<^item> \<open>Storage\<close>, \<open>File_Storage\<close>, \<open>Object_Storage\<close>, \<open>Document_Storage\<close>, \<open>Orphans\<close>: \<^verbatim>\<open>storage.go\<close>, that is the
    contracts, the directory, the bucket, the interface \<^verbatim>\<open>documentStorage\<close> that calls one of them, and the
    clean-up; the locale \<open>document_storage\<close> is the contract of any storage, \<open>local_storage\<close> the stronger one of
    the file system.
  \<^item> \<open>Worker_Storage\<close>: what a worker reads from a directory or a bucket (\<^verbatim>\<open>worker.go\<close>, \<^verbatim>\<open>storage.go\<close>).
  \<^item> \<open>Byte_Range\<close>, \<open>Listing\<close>, \<open>Document_Handlers\<close>, \<open>Handler_Effects\<close>, \<open>Ask\<close>: the handlers of
    \<^verbatim>\<open>documents.go\<close> and what their answers say about the state.
  \<^item> \<open>Site_Machine\<close>: database and files together, with any number of uploads, deletions, clean-ups and
    workers interleaved one transaction or storage call at a time.
  \<^item> \<open>Tenancy\<close>, \<open>Server\<close>: what belongs to whom; the routes, the middleware and the handlers as one
    program (\<^verbatim>\<open>newServerWithMetrics\<close> of \<^verbatim>\<open>main.go\<close>).
  \<^item> \<open>Server_Runs\<close>, \<open>Server_Site\<close>: any sequence of requests, with the cookies clients were given; every request
    as steps of \<open>Site_Machine\<close>.
  \<^item> \<open>Startup\<close>: \<^verbatim>\<open>main.go\<close>, \<^verbatim>\<open>migrations.go\<close>, \<^verbatim>\<open>openDocumentStore\<close>: from the environment to a serving API.
  \<^item> \<open>Installation\<close>: an installation over time, with requests, workers, clean-ups and starts of \<^verbatim>\<open>main\<close>.
  \<^item> \<open>Shutdown\<close>: \<^verbatim>\<open>startWorker\<close> with all its workers and the end of \<^verbatim>\<open>main\<close>.

  \<^bold>\<open>How the parts meet.\<close> The step relations \<open>reachable\<close>, \<open>quota_reachable\<close> and \<open>site_reachable\<close> are the runs
  of the job queue, of the quotas on top of it and of the files on top of both; handlers and workers are
  shown to take these steps (\<open>upload_runs\<close>, \<open>delete_runs_as_steps\<close>, \<open>reconcile_runs_as_steps\<close>, and
  \<open>request_runs\<close> for every request to the server), so the invariants hold between them, and with them for a
  \<open>running\<close> installation (\<open>running_at_rest\<close>). A process starts in it with \<open>main\<close>, which
  leaves it running. What the theorems about the server assume, an authenticator for a
  database and balanced books, is what \<open>Startup\<close> shows of an API that serves. Handlers and clean-up call
  whichever storage is configured through \<open>documentStorage\<close>; their lemmas use the contract, which
  \<open>Document_Storage\<close> proves of both, so what is shown holds for directory and bucket. A worker cannot tell
  the two apart (\<open>Worker_Storage\<close>).

  \<^bold>\<open>What is shown.\<close> The job queue: a table invariant, the life cycle as an abstract machine, leases that
  exclude, fencing of workers that lost theirs, no job lost, attempts bounded. Quotas: never exceeded, usage
  rows that refine the sums over documents and reservations. Documents and files: every document has its
  file, whatever is cut short; uploads all or nothing; deletion, listing, downloads and answers as they are
  reported. Accounts: sessions go back to passwords and end with logout or expiry; no document without a
  session; nothing of one account is changed, read or deleted by another, and in any run of requests
  nothing of an account changes before somebody presents its password. Storage: contracts for directory
  and bucket, atomic writes. Worker: only complete results are stored, every round settles its job, the
  loop ends when it is told to and not before. Start and end: what has been checked once the API serves,
  and when the process ends.
  Where the code does something else than it means to, the theorem says what it does; the examples behind
  the theorems (\<open>_witness\<close>) evaluate the definitions on concrete inputs.

  \<^bold>\<open>Bounds.\<close> No definition has fuel. Loops over data are structural recursions; \<open>rune_count\<close> and
  \<open>backoff_loop\<close> end by a measure; \<open>worker_loop\<close>, which need not end, is a partial function, and when it
  ends is a theorem. Counters of the metrics are 64-bit words, page and dimension numbers 32-bit words;
  sizes and times are integers with \<open>wrap64\<close> where the code computes with them.

  \<^bold>\<open>Arguments of the model.\<close> Code that is not part of the repository is an argument of the definitions
  that use it, and every theorem holds for all of it unless it names a hypothesis: token signing and parsing
  (\<open>jwt_documented\<close>), password hashing, JSON, address and duration parsing, HTTP dates, the cursor's
  encoding (\<open>codec_ok\<close>), Echo's router (\<open>router_documented\<close>), the bucket client (\<open>minio_documented\<close>,
  \<open>minio_answers\<close>), Goose, and what the document processor streams. Clocks, random bytes, failing
  connections, system calls and writes are arguments too, one for each place where the code meets them.
  That the configured storage is one of
  these is \<open>storage_documented\<close>, and \<open>storage_answers\<close> where a bucket has to be reached; that no migration is
  waiting and the bucket exists when a process starts again are \<open>up_to_date\<close> and \<open>bucket_found\<close>.
  Each hypothesis is shown to hold of a concrete instance.

  \<^bold>\<open>Not modelled.\<close> The text of SQL statements (a statement is its effect on the tables; PostgreSQL's
  isolation is that a transaction is one step, with \<open>DeleteOwnedWithUsage\<close> split where it takes its lock);
  Echo's request logging, its recovery from panics and its listening (\<open>Shutdown\<close> takes the return of \<^verbatim>\<open>Start\<close> and the
  end of contexts by signals as arguments); the goroutine
  that ends a context when its time is over (its effect is an argument); the PDF processing and the language
  model behind gRPC, in Python, the generated gRPC code and the TypeScript user interface. Case mapping
  and white space are those of ASCII.
\<close>

end
